(* ===== verification/Prelude.thy ===== *)
theory Prelude
  imports Main "HOL-Library.Word" "HOL-Library.AList" "HOL-Library.List_Lexorder"
    "HOL-Library.Char_ord" "HOL-Library.Sublist"
begin

section \<open>Prelude: Rust values, results, panics, strings and bytes\<close>

text \<open>
  What every component of the placement center shares: machine integers, Rust
  \<open>Result\<close>s (as sums, \<open>Inl\<close> the error), panics as values, \<open>String\<close>s as byte
  sequences, and generic facts about association lists and sorted enumerations.  A Rust
  \<open>String\<close> is modelled by HOL's \<open>string\<close>, whose characters are the bytes of its UTF-8
  encoding (\<^verbatim>\<open>Rust_Text\<close> says which byte sequences are such encodings).
\<close>

named_theorems step_simps \<open>unfolding rules for result plumbing (bind, map, case on results)\<close>
named_theorems view_simps \<open>effect of every database operation on the abstract view\<close>

type_synonym u8 = "8 word"
type_synonym u64 = "64 word"
type_synonym bytes = "u8 list"

subsection \<open>Panics\<close>

text \<open>
  A Rust function that may panic returns a value of \<open>'a run\<close>; a stateful one returns the
  state reached (the database keeps what was written before the panic) beside it.
\<close>

datatype panic =
    UnwrapNone
  | UnwrapErr
  | ExplicitPanic
  | AssertFailed
  | IndexOutOfBounds
  | RemainderByZero

datatype 'a run = Ret 'a | Panic panic

definition bind_run :: "'s \<times> 'a run \<Rightarrow> ('s \<Rightarrow> 'a \<Rightarrow> 's \<times> 'b run) \<Rightarrow> 's \<times> 'b run" where
  "bind_run m f = (case m of (s, Ret a) \<Rightarrow> f s a | (s, Panic p) \<Rightarrow> (s, Panic p))"

lemma bind_run_simps [simp, step_simps]:
  "bind_run (s, Ret a) f = f s a"
  "bind_run (s, Panic p) f = (s, Panic p)"
  by (simp_all add: bind_run_def)

text \<open>\<open>Result::unwrap\<close> and \<open>Option::unwrap\<close>.\<close>

fun unwrap_res :: "'e + 'a \<Rightarrow> 'a run" where
  "unwrap_res (Inr a) = Ret a"
| "unwrap_res (Inl e) = Panic UnwrapErr"

fun unwrap_opt :: "'a option \<Rightarrow> 'a run" where
  "unwrap_opt (Some a) = Ret a"
| "unwrap_opt None = Panic UnwrapNone"

text \<open>\<open>Result::map_err\<close>, \<open>Result::is_ok\<close>.\<close>

fun map_err :: "('e \<Rightarrow> 'f) \<Rightarrow> 'e + 'a \<Rightarrow> 'f + 'a" where
  "map_err f (Inl e) = Inl (f e)"
| "map_err f (Inr a) = Inr a"

fun is_ok :: "'e + 'a \<Rightarrow> bool" where
  "is_ok (Inr a) = True"
| "is_ok (Inl e) = False"

lemma is_ok_iff: "is_ok r \<longleftrightarrow> (\<exists>a. r = Inr a)"
  by (cases r) auto

text \<open>An error value of a foreign crate: only its two renderings are visible to this code.\<close>

record ext_error =
  err_display :: string
  err_debug :: string

subsection \<open>Strings and bytes\<close>

definition char_byte :: "char \<Rightarrow> u8" where
  "char_byte c = of_nat (of_char c)"

definition byte_char :: "u8 \<Rightarrow> char" where
  "byte_char b = char_of (unat b)"

definition str_bytes :: "string \<Rightarrow> bytes" where
  "str_bytes s = map char_byte s"

definition bytes_str :: "bytes \<Rightarrow> string" where
  "bytes_str bs = map byte_char bs"

lemma byte_char_char_byte [simp]: "byte_char (char_byte c) = c"
proof -
  have "of_char c < (256 :: nat)" by (rule nat_of_char_less_256)
  then have "unat (of_nat (of_char c) :: u8) = of_char c"
    by (simp add: unat_of_nat take_bit_eq_mod)
  then show ?thesis
    by (simp add: byte_char_def char_byte_def)
qed

lemma char_byte_inject [simp]: "char_byte c = char_byte d \<longleftrightarrow> c = d"
  by (metis byte_char_char_byte)

lemma char_byte_byte_char [simp]: "char_byte (byte_char b) = b"
proof -
  have "unat b < 256" using unsigned_less [of b, where ?'a = nat] by simp
  then have "of_char (char_of (unat b)) = unat b" by (simp add: of_char_of)
  then show ?thesis
    by (simp add: byte_char_def char_byte_def)
qed

lemma bytes_str_str_bytes [simp]: "bytes_str (str_bytes s) = s"
  by (simp add: str_bytes_def bytes_str_def comp_def)

lemma str_bytes_bytes_str [simp]: "str_bytes (bytes_str b) = b"
  by (simp add: str_bytes_def bytes_str_def comp_def)

lemma str_bytes_inject [simp]: "str_bytes s = str_bytes t \<longleftrightarrow> s = t"
  by (metis bytes_str_str_bytes)

lemma str_bytes_append: "str_bytes (s @ t) = str_bytes s @ str_bytes t"
  by (simp add: str_bytes_def)

lemma str_bytes_Nil [simp]: "str_bytes [] = []"
  by (simp add: str_bytes_def)

lemma prefix_str_bytes [simp]: "prefix (str_bytes s) (str_bytes t) \<longleftrightarrow> prefix s t"
proof
  assume "prefix (str_bytes s) (str_bytes t)"
  then obtain z where "str_bytes t = str_bytes s @ z" by (auto simp: prefix_def)
  then have "t = s @ bytes_str z"
    by (metis bytes_str_def bytes_str_str_bytes map_append)
  then show "prefix s t" by simp
qed (auto simp: prefix_def str_bytes_append)

text \<open>The successor of an index below the largest.\<close>

lemma unat_succ: "x \<noteq> - 1 \<Longrightarrow> unat (x + 1) = unat (x :: u64) + 1"
proof -
  assume x: "x \<noteq> - 1"
  have "unat (- 1 :: u64) = 2 ^ 64 - 1" by (simp add: unsigned_minus_1_eq_mask mask_eq_exp_minus_1)
  then have "unat x \<noteq> 2 ^ 64 - 1" using x by (metis word_unat_eq_iff)
  moreover have "unat x < 2 ^ 64" using unsigned_less [of x, where ?'a = nat] by simp
  ultimately show ?thesis by (simp add: unat_plus_if')
qed

end
