(* ===== verification/Rust_Text.thy ===== *)
theory Rust_Text
  imports Prelude
begin

section \<open>Text: UTF-8 validity, decimal formatting and parsing of u64\<close>

text \<open>
  The three pieces of Rust's standard library that the storage keys rest on:
  \<open>String::from_utf8\<close> (the well-formedness table of the Unicode standard),
  \<open>format!("{}", n)\<close> of a \<open>u64\<close>, and \<open>str::parse::<u64>\<close>.
\<close>

subsection \<open>UTF-8\<close>

definition utf8_cont :: "u8 \<Rightarrow> bool" where
  "utf8_cont b \<longleftrightarrow> 0x80 \<le> b \<and> b \<le> 0xBF"

definition utf8_second3 :: "u8 \<Rightarrow> u8 \<Rightarrow> bool" where
  "utf8_second3 a b \<longleftrightarrow>
     (if a = 0xE0 then 0xA0 \<le> b \<and> b \<le> 0xBF
      else if a = 0xED then 0x80 \<le> b \<and> b \<le> 0x9F
      else utf8_cont b)"

definition utf8_second4 :: "u8 \<Rightarrow> u8 \<Rightarrow> bool" where
  "utf8_second4 a b \<longleftrightarrow>
     (if a = 0xF0 then 0x90 \<le> b \<and> b \<le> 0xBF
      else if a = 0xF4 then 0x80 \<le> b \<and> b \<le> 0x8F
      else utf8_cont b)"

fun utf8_valid :: "bytes \<Rightarrow> bool" where
  "utf8_valid [] = True"
| "utf8_valid (a # xs) =
     (if a < 0x80 then utf8_valid xs
      else if 0xC2 \<le> a \<and> a \<le> 0xDF then
        (case xs of b # r \<Rightarrow> utf8_cont b \<and> utf8_valid r | [] \<Rightarrow> False)
      else if 0xE0 \<le> a \<and> a \<le> 0xEF then
        (case xs of b # c # r \<Rightarrow> utf8_second3 a b \<and> utf8_cont c \<and> utf8_valid r | _ \<Rightarrow> False)
      else if 0xF0 \<le> a \<and> a \<le> 0xF4 then
        (case xs of b # c # d # r \<Rightarrow>
           utf8_second4 a b \<and> utf8_cont c \<and> utf8_cont d \<and> utf8_valid r | _ \<Rightarrow> False)
      else False)"

declare utf8_valid.simps(2) [simp del]

definition rust_str :: "string \<Rightarrow> bool" where
  "rust_str s \<longleftrightarrow> utf8_valid (str_bytes s)"

text \<open>\<open>String::from_utf8\<close>; the error only ever reaches a log line or an error message.\<close>

definition from_utf8 :: "ext_error \<Rightarrow> bytes \<Rightarrow> ext_error + string" where
  "from_utf8 e bs = (if utf8_valid bs then Inr (bytes_str bs) else Inl e)"

lemma from_utf8_str_bytes [simp]: "rust_str s \<Longrightarrow> from_utf8 e (str_bytes s) = Inr s"
  by (simp add: from_utf8_def rust_str_def)

lemma utf8_valid_append: "utf8_valid xs \<Longrightarrow> utf8_valid ys \<Longrightarrow> utf8_valid (xs @ ys)"
proof (induction xs rule: utf8_valid.induct)
  case 1
  then show ?case by simp
next
  case (2 a xs)
  then show ?case
    by (auto simp: utf8_valid.simps(2) [of a xs] utf8_valid.simps(2) [of a "xs @ ys"]
        split: if_splits list.splits)
qed

lemma rust_str_append: "rust_str s \<Longrightarrow> rust_str t \<Longrightarrow> rust_str (s @ t)"
  by (simp add: rust_str_def str_bytes_append utf8_valid_append)

definition ascii_str :: "string \<Rightarrow> bool" where
  "ascii_str s \<longleftrightarrow> list_all (\<lambda>c. char_byte c < 0x80) s"

lemma utf8_valid_ascii: "list_all (\<lambda>b. b < 0x80) bs \<Longrightarrow> utf8_valid bs"
  by (induction bs) (auto simp: utf8_valid.simps(2))

lemma rust_str_ascii: "ascii_str s \<Longrightarrow> rust_str s"
  unfolding ascii_str_def rust_str_def str_bytes_def
  by (rule utf8_valid_ascii) (simp add: list_all_iff)

lemma ascii_str_append [simp]: "ascii_str (s @ t) \<longleftrightarrow> ascii_str s \<and> ascii_str t"
  by (simp add: ascii_str_def)

lemma ascii_str_Nil [simp]: "ascii_str []"
  by (simp add: ascii_str_def)

lemma ascii_str_Cons [simp]: "ascii_str (c # s) \<longleftrightarrow> char_byte c < 0x80 \<and> ascii_str s"
  by (simp add: ascii_str_def)

subsection \<open>Decimal numbers\<close>

definition digit_char :: "nat \<Rightarrow> char" where
  "digit_char d = char_of (48 + d)"

fun show_nat :: "nat \<Rightarrow> string" where
  "show_nat n = (if n < 10 then [digit_char n] else show_nat (n div 10) @ [digit_char (n mod 10)])"

declare show_nat.simps [simp del]

text \<open>\<open>format!("{}", idx)\<close> for \<open>idx: u64\<close>.\<close>

definition show_u64 :: "u64 \<Rightarrow> string" where
  "show_u64 w = show_nat (unat w)"

definition char_digit :: "char \<Rightarrow> nat option" where
  "char_digit c = (if 48 \<le> (of_char c :: nat) \<and> (of_char c :: nat) \<le> 57
                   then Some (of_char c - 48) else None)"

fun digits_val :: "nat \<Rightarrow> string \<Rightarrow> nat option" where
  "digits_val acc [] = Some acc"
| "digits_val acc (c # cs) =
     (case char_digit c of None \<Rightarrow> None | Some d \<Rightarrow> digits_val (10 * acc + d) cs)"

text \<open>
  \<open>str::parse::<u64>\<close>: an optional \<open>+\<close>, at least one digit, and an error on overflow.
\<close>

definition parse_u64 :: "string \<Rightarrow> u64 option" where
  "parse_u64 s =
     (let ds = (case s of c # cs \<Rightarrow> (if c = CHR ''+'' then cs else s) | [] \<Rightarrow> [])
      in if ds = [] then None
         else case digits_val 0 ds of
           None \<Rightarrow> None
         | Some v \<Rightarrow> if v < 2 ^ 64 then Some (of_nat v) else None)"

lemma of_char_digit_char: "d < 10 \<Longrightarrow> of_char (digit_char d) = (48 + d :: nat)"
  by (simp add: digit_char_def of_char_of)

lemma char_digit_digit_char [simp]: "d < 10 \<Longrightarrow> char_digit (digit_char d) = Some d"
  by (simp add: char_digit_def of_char_digit_char)

lemma digits_val_append:
  "digits_val acc (s @ t) = (case digits_val acc s of None \<Rightarrow> None | Some v \<Rightarrow> digits_val v t)"
  by (induction s arbitrary: acc) (auto split: option.splits)

lemma digits_val_show_nat: "digits_val 0 (show_nat n) = Some n"
proof (induction n rule: show_nat.induct)
  case (1 n)
  show ?case
  proof (cases "n < 10")
    case True
    then show ?thesis by (subst show_nat.simps) simp
  next
    case False
    with "1.IH" show ?thesis by (subst show_nat.simps) (simp add: digits_val_append)
  qed
qed

lemma show_nat_inject [simp]: "show_nat m = show_nat n \<longleftrightarrow> m = n"
  by (metis digits_val_show_nat option.inject)

lemma show_u64_inject [simp]: "show_u64 a = show_u64 b \<longleftrightarrow> a = b"
  by (simp add: show_u64_def word_unat_eq_iff [symmetric])

lemma show_nat_digits: "c \<in> set (show_nat n) \<Longrightarrow> 48 \<le> (of_char c :: nat) \<and> (of_char c :: nat) \<le> 57"
proof (induction n rule: show_nat.induct)
  case (1 n)
  show ?case
  proof (cases "n < 10")
    case True
    with "1.prems" show ?thesis by (subst (asm) show_nat.simps) (simp add: of_char_digit_char)
  next
    case False
    have "n mod 10 < 10" by simp
    with False "1.prems" "1.IH" show ?thesis
      by (subst (asm) show_nat.simps) (auto simp: of_char_digit_char)
  qed
qed

lemma show_nat_ne [simp]: "show_nat n \<noteq> []"
  by (subst show_nat.simps) simp

lemma show_u64_ne [simp]: "show_u64 w \<noteq> []"
  by (simp add: show_u64_def)

lemma slash_notin_show_u64 [simp]: "CHR ''/'' \<notin> set (show_u64 w)"
  using show_nat_digits [of "CHR ''/''" "unat w"] by (auto simp: show_u64_def)

lemma char_byte_less: "(of_char c :: nat) < 128 \<Longrightarrow> char_byte c < 0x80"
  by (simp add: char_byte_def word_less_nat_alt unat_of_nat take_bit_eq_mod)

lemma ascii_show_u64 [simp]: "ascii_str (show_u64 w)"
  unfolding ascii_str_def list_all_iff show_u64_def
  by (auto intro!: char_byte_less dest!: show_nat_digits)

lemma plus_notin_show_u64: "CHR ''+'' \<notin> set (show_u64 w)"
  using show_nat_digits [of "CHR ''+''" "unat w"] by (auto simp: show_u64_def)

lemma parse_show_u64 [simp]: "parse_u64 (show_u64 w) = Some w"
proof -
  obtain c cs where s: "show_u64 w = c # cs" by (cases "show_u64 w") auto
  with plus_notin_show_u64 [of w] have "c \<noteq> CHR ''+''" by auto
  moreover have "digits_val 0 (show_u64 w) = Some (unat w)"
    by (simp add: show_u64_def digits_val_show_nat)
  moreover have "unat w < 2 ^ 64" using unsigned_less [of w, where ?'a = nat] by simp
  ultimately show ?thesis
    by (simp add: parse_u64_def s Let_def del: digits_val.simps)
qed

subsection \<open>Path segments\<close>

text \<open>
  Storage keys join their parts with \<open>/\<close>.  A part without a slash can be read back from the
  joined key, so two keys are equal only when their parts are.
\<close>

definition no_slash :: "string \<Rightarrow> bool" where
  "no_slash s \<longleftrightarrow> CHR ''/'' \<notin> set s"

lemma no_slash_show_u64 [simp]: "no_slash (show_u64 w)"
  by (simp add: no_slash_def)

lemma slash_split:
  "no_slash a \<Longrightarrow> no_slash b \<Longrightarrow>
     a @ CHR ''/'' # s = b @ CHR ''/'' # t \<longleftrightarrow> a = b \<and> s = t"
  unfolding no_slash_def
  by (induction a arbitrary: b) (case_tac b; auto)+

lemma slash_split_end:
  "no_slash a \<Longrightarrow> a = b @ CHR ''/'' # t \<longleftrightarrow> False"
  by (auto simp: no_slash_def)

lemma slash_prefix_split:
  "no_slash a \<Longrightarrow> no_slash b \<Longrightarrow>
     prefix (a @ CHR ''/'' # s) (b @ CHR ''/'' # t) \<longleftrightarrow> a = b \<and> prefix s t"
  unfolding no_slash_def
  by (induction a arbitrary: b) (case_tac b; auto)+

end
