(* ===== verification/External.thy ===== *)
theory External
  imports Rust_Text
begin

section \<open>Interfaces of the crates the placement center is built on\<close>

text \<open>
  RocksDB, serde_json, bincode and prost are not code of this repository: each is a record of
  operations that the model takes as an argument.  What the code relies on is stated as a
  predicate of that record, from the crates' documentation, and as a locale over it, in which the
  consequences are proved once.

  A database is a value of an arbitrary type \<open>'db\<close>; column families are named by strings.
  \<open>db_view\<close> is the content a database value stands for: no code calls it, the laws use it.  A
  raw iterator is the list of entries still ahead of it: \<open>db_seek\<close> gives the entries from the
  least key that is not below its argument, so \<open>valid()\<close> is non-emptiness and \<open>next()\<close> is
  \<open>tl\<close>.
\<close>

subsection \<open>RocksDB\<close>

record 'db rocksdb =
  db_get :: "'db \<Rightarrow> string \<Rightarrow> bytes \<Rightarrow> ext_error + bytes option"
  db_put :: "'db \<Rightarrow> string \<Rightarrow> bytes \<Rightarrow> bytes \<Rightarrow> 'db \<times> (ext_error + unit)"
  db_delete :: "'db \<Rightarrow> string \<Rightarrow> bytes \<Rightarrow> 'db \<times> (ext_error + unit)"
  db_delete_range :: "'db \<Rightarrow> string \<Rightarrow> bytes \<Rightarrow> bytes \<Rightarrow> 'db \<times> (ext_error + unit)"
  db_key_may_exist :: "'db \<Rightarrow> string \<Rightarrow> bytes \<Rightarrow> bool"
  db_seek :: "'db \<Rightarrow> string \<Rightarrow> bytes \<Rightarrow> (bytes \<times> bytes) list"
  db_flush_wal :: "'db \<Rightarrow> 'db \<times> (ext_error + unit)"
  db_view :: "'db \<Rightarrow> string \<Rightarrow> bytes \<Rightarrow> bytes option"

definition entries_from :: "(bytes \<Rightarrow> bytes option) \<Rightarrow> bytes \<Rightarrow> (bytes \<times> bytes) list" where
  "entries_from m s = map (\<lambda>k. (k, the (m k))) (sorted_list_of_set {k \<in> dom m. s \<le> k})"

text \<open>
  The documented behaviour: a successful read returns the stored value; a successful write
  changes exactly its key, a range deletion the keys of \<open>[from, to)\<close>; a failed write, which is a
  write batch of its own, changes nothing; iteration is in byte order; \<open>key_may_exist\<close> answers
  false only for an absent key.

  Byte order of iteration is the documented behaviour of a cursor in total-order mode, which the
  openraft database has by default.  \<open>open_db_opts\<close> of \<open>rocksdb.rs\<close> configures a fixed
  prefix extractor of ten bytes with a prefix bloom filter in the memtable, and the cursors of
  \<open>read_prefix\<close> and \<open>read_all_by_cf\<close> are opened with default read options; for them the law
  is an assumption about that configuration, needed by every statement about a scan.
\<close>

definition rocksdb_laws :: "'db rocksdb \<Rightarrow> bool" where
  "rocksdb_laws R \<longleftrightarrow>
     (\<forall>d cf k. is_ok (db_get R d cf k) \<longrightarrow> db_get R d cf k = Inr (db_view R d cf k)) \<and>
     (\<forall>d cf k v. db_view R (fst (db_put R d cf k v)) =
        (if is_ok (snd (db_put R d cf k v))
         then (db_view R d)(cf := (db_view R d cf)(k \<mapsto> v)) else db_view R d)) \<and>
     (\<forall>d cf k. db_view R (fst (db_delete R d cf k)) =
        (if is_ok (snd (db_delete R d cf k))
         then (db_view R d)(cf := (db_view R d cf)(k := None)) else db_view R d)) \<and>
     (\<forall>d cf a b. db_view R (fst (db_delete_range R d cf a b)) =
        (if is_ok (snd (db_delete_range R d cf a b))
         then (db_view R d)(cf := (\<lambda>k. if a \<le> k \<and> k < b then None else db_view R d cf k))
         else db_view R d)) \<and>
     (\<forall>d cf. finite (dom (db_view R d cf))) \<and>
     (\<forall>d cf s. db_seek R d cf s = entries_from (db_view R d cf) s) \<and>
     (\<forall>d cf k. db_view R d cf k \<noteq> None \<longrightarrow> db_key_may_exist R d cf k) \<and>
     (\<forall>d. db_view R (fst (db_flush_wal R d)) = db_view R d)"

text \<open>No operation of the database fails (no I/O error).\<close>

definition rocksdb_up :: "'db rocksdb \<Rightarrow> bool" where
  "rocksdb_up R \<longleftrightarrow>
     (\<forall>d cf k. is_ok (db_get R d cf k)) \<and>
     (\<forall>d cf k v. snd (db_put R d cf k v) = Inr ()) \<and>
     (\<forall>d cf k. snd (db_delete R d cf k) = Inr ()) \<and>
     (\<forall>d cf a b. snd (db_delete_range R d cf a b) = Inr ()) \<and>
     (\<forall>d. snd (db_flush_wal R d) = Inr ())"

locale rocksdb_crate =
  fixes R :: "'db rocksdb"
  assumes laws: "rocksdb_laws R"
begin

lemma finite_view [simp]: "finite (dom (db_view R d cf))"
  using laws by (simp add: rocksdb_laws_def)

lemma seek_eq: "db_seek R d cf s = entries_from (db_view R d cf) s"
  using laws by (simp add: rocksdb_laws_def)

lemma may_exist: "db_view R d cf k = Some v \<Longrightarrow> db_key_may_exist R d cf k"
  using laws by (simp add: rocksdb_laws_def)

lemma view_flush [simp]: "db_view R (fst (db_flush_wal R d)) = db_view R d"
  using laws by (simp add: rocksdb_laws_def)

lemma get_view: "is_ok (db_get R d cf k) \<Longrightarrow> db_get R d cf k = Inr (db_view R d cf k)"
  using laws by (simp add: rocksdb_laws_def)

lemma put_view:
  "db_view R (fst (db_put R d cf k v)) =
     (if is_ok (snd (db_put R d cf k v))
      then (db_view R d)(cf := (db_view R d cf)(k \<mapsto> v)) else db_view R d)"
  using laws by (simp add: rocksdb_laws_def)

lemma delete_view:
  "db_view R (fst (db_delete R d cf k)) =
     (if is_ok (snd (db_delete R d cf k))
      then (db_view R d)(cf := (db_view R d cf)(k := None)) else db_view R d)"
  using laws by (simp add: rocksdb_laws_def)

lemma delete_range_view:
  "db_view R (fst (db_delete_range R d cf a b)) =
     (if is_ok (snd (db_delete_range R d cf a b))
      then (db_view R d)(cf := (\<lambda>k. if a \<le> k \<and> k < b then None else db_view R d cf k))
      else db_view R d)"
  using laws by (simp add: rocksdb_laws_def)

end

locale rocksdb_running = rocksdb_crate +
  assumes up: "rocksdb_up R"
begin

lemma get_eq [view_simps]: "db_get R d cf k = Inr (db_view R d cf k)"
  using up by (simp add: rocksdb_up_def get_view)

lemma put_ok [view_simps]: "snd (db_put R d cf k v) = Inr ()"
  using up by (simp add: rocksdb_up_def)

lemma delete_ok [view_simps]: "snd (db_delete R d cf k) = Inr ()"
  using up by (simp add: rocksdb_up_def)

lemma delete_range_ok [view_simps]: "snd (db_delete_range R d cf a b) = Inr ()"
  using up by (simp add: rocksdb_up_def)

lemma flush_ok [view_simps]: "snd (db_flush_wal R d) = Inr ()"
  using up by (simp add: rocksdb_up_def)

lemma view_put [view_simps]:
  "db_view R (fst (db_put R d cf k v)) = (db_view R d)(cf := (db_view R d cf)(k \<mapsto> v))"
  by (simp add: put_view put_ok)

lemma view_delete [view_simps]:
  "db_view R (fst (db_delete R d cf k)) = (db_view R d)(cf := (db_view R d cf)(k := None))"
  by (simp add: delete_view delete_ok)

lemma view_delete_range [view_simps]:
  "db_view R (fst (db_delete_range R d cf a b)) =
     (db_view R d)(cf := (\<lambda>k. if a \<le> k \<and> k < b then None else db_view R d cf k))"
  by (simp add: delete_range_view delete_range_ok)

end

subsection \<open>serde_json\<close>

text \<open>
  \<open>to_string\<close>, \<open>to_vec\<close>, \<open>from_str\<close> and \<open>from_slice\<close> at one type, and the type's
  \<open>Debug\<close> rendering, which the error messages use.
\<close>

record 'a serde =
  js_to_string :: "'a \<Rightarrow> ext_error + string"
  js_to_vec :: "'a \<Rightarrow> ext_error + bytes"
  js_from_str :: "string \<Rightarrow> ext_error + 'a"
  js_from_slice :: "bytes \<Rightarrow> ext_error + 'a"
  js_debug :: "'a \<Rightarrow> string"

definition serde_laws :: "'a serde \<Rightarrow> bool" where
  "serde_laws S \<longleftrightarrow>
     (\<forall>v. \<exists>s. js_to_string S v = Inr s \<and> rust_str s \<and> js_to_vec S v = Inr (str_bytes s) \<and>
            js_from_str S s = Inr v \<and> js_from_slice S (str_bytes s) = Inr v)"

definition js_text :: "'a serde \<Rightarrow> 'a \<Rightarrow> string" where
  "js_text S v = projr (js_to_string S v)"

locale serde_type =
  fixes S :: "'a serde"
  assumes serde: "serde_laws S"
begin

lemma to_string_eq: "js_to_string S v = Inr (js_text S v)"
  using serde unfolding serde_laws_def js_text_def by (metis sum.sel(2))

lemma to_vec_eq: "js_to_vec S v = Inr (str_bytes (js_text S v))"
  using serde unfolding serde_laws_def js_text_def by (metis sum.sel(2))

lemma text_utf8: "rust_str (js_text S v)"
  using serde unfolding serde_laws_def js_text_def by (metis sum.sel(2))

lemma from_str_text: "js_from_str S (js_text S v) = Inr v"
  using serde unfolding serde_laws_def js_text_def by (metis sum.sel(2))

lemma from_slice_text: "js_from_slice S (str_bytes (js_text S v)) = Inr v"
  using serde unfolding serde_laws_def js_text_def by (metis sum.sel(2))

lemmas serde_eqs = to_string_eq to_vec_eq text_utf8 from_str_text from_slice_text

end

subsection \<open>prost and bincode\<close>

text \<open>
  \<open>Message::encode_to_vec\<close> does not fail; \<open>Message::decode\<close>, \<open>bincode::serialize\<close> and
  \<open>bincode::deserialize\<close> may.
\<close>

record 'a prost =
  pb_encode :: "'a \<Rightarrow> bytes"
  pb_decode :: "bytes \<Rightarrow> ext_error + 'a"

definition prost_laws :: "'a prost \<Rightarrow> bool" where
  "prost_laws P \<longleftrightarrow> (\<forall>v. pb_decode P (pb_encode P v) = Inr v)"

record 'a bincode =
  bc_serialize :: "'a \<Rightarrow> ext_error + bytes"
  bc_deserialize :: "bytes \<Rightarrow> ext_error + 'a"

definition bincode_laws :: "'a bincode \<Rightarrow> bool" where
  "bincode_laws B \<longleftrightarrow>
     (\<forall>v. \<exists>b. bc_serialize B v = Inr b \<and> bc_deserialize B b = Inr v)"

definition bc_bytes :: "'a bincode \<Rightarrow> 'a \<Rightarrow> bytes" where
  "bc_bytes B v = projr (bc_serialize B v)"

lemma bincode_serialize_eq: "bincode_laws B \<Longrightarrow> bc_serialize B v = Inr (bc_bytes B v)"
  unfolding bincode_laws_def bc_bytes_def by (metis sum.sel(2))

lemma bincode_roundtrip: "bincode_laws B \<Longrightarrow> bc_deserialize B (bc_bytes B v) = Inr v"
  unfolding bincode_laws_def bc_bytes_def by (metis sum.sel(2))

lemma prost_roundtrip: "prost_laws P \<Longrightarrow> pb_decode P (pb_encode P v) = Inr v"
  by (simp add: prost_laws_def)

end
