(* ===== verification/Big_Endian.thy ===== *)
theory Big_Endian
  imports Prelude
begin

section \<open>Big-endian byte strings\<close>

text \<open>
  The eight big-endian bytes of a \<open>u64\<close> (what \<open>write_u64::<BigEndian>\<close> and
  \<open>read_u64::<BigEndian>\<close> of the byteorder crate mean), built digit by digit in base 256, with
  their round trip and the fact the log store rests on: byte order is numeric order.
\<close>

fun be_digits :: "nat \<Rightarrow> nat \<Rightarrow> bytes" where
  "be_digits 0 x = []"
| "be_digits (Suc n) x = of_nat (x div 256 ^ n) # be_digits n (x mod 256 ^ n)"

fun be_value :: "bytes \<Rightarrow> nat" where
  "be_value [] = 0"
| "be_value (b # bs) = unat b * 256 ^ length bs + be_value bs"

lemma length_be_digits [simp]: "length (be_digits n x) = n"
  by (induction n arbitrary: x) auto

lemma unat_digit: "d < 256 \<Longrightarrow> unat (of_nat d :: u8) = d"
  by (simp add: unat_of_nat take_bit_eq_mod)

lemma top_digit_less: "x < 256 ^ Suc n \<Longrightarrow> x div 256 ^ n < (256 :: nat)"
  by (simp add: less_mult_imp_div_less mult.commute)

lemma be_value_digits [simp]: "x < 256 ^ n \<Longrightarrow> be_value (be_digits n x) = x"
proof (induction n arbitrary: x)
  case 0
  then show ?case by simp
next
  case (Suc n)
  have "be_value (be_digits n (x mod 256 ^ n)) = x mod 256 ^ n"
    by (rule Suc.IH) simp
  with Suc.prems show ?case
    by (simp add: unat_digit top_digit_less div_mult_mod_eq)
qed

lemma be_value_less: "be_value bs < 256 ^ length bs"
proof (induction bs)
  case Nil
  then show ?case by simp
next
  case (Cons b bs)
  have b: "unat b \<le> 255" using unsigned_less [of b, where ?'a = nat] by simp
  have "unat b * 256 ^ length bs + be_value bs < unat b * 256 ^ length bs + 256 ^ length bs"
    using Cons.IH by simp
  also have "\<dots> = (unat b + 1) * 256 ^ length bs" by (simp add: algebra_simps)
  also have "\<dots> \<le> 256 * 256 ^ length bs" using b by (intro mult_le_mono) auto
  finally show ?case by simp
qed

lemma be_digits_value [simp]: "be_digits (length bs) (be_value bs) = bs"
proof (induction bs)
  case Nil
  then show ?case by simp
next
  case (Cons b bs)
  have "be_value bs < 256 ^ length bs" by (rule be_value_less)
  then have "(unat b * 256 ^ length bs + be_value bs) div 256 ^ length bs = unat b"
    and "(unat b * 256 ^ length bs + be_value bs) mod 256 ^ length bs = be_value bs"
    by simp_all
  with Cons.IH show ?case by simp
qed

lemma be_digits_inject:
  "x < 256 ^ n \<Longrightarrow> y < 256 ^ n \<Longrightarrow> be_digits n x = be_digits n y \<longleftrightarrow> x = y"
  by (metis be_value_digits)

lemma less_div_mod:
  "x < y \<longleftrightarrow> x div q < y div q \<or> x div q = y div q \<and> x mod q < y mod (q :: nat)"
proof -
  have x: "x = x div q * q + x mod q" and y: "y = y div q * q + y mod q" by simp_all
  consider "x div q < y div q" | "x div q = y div q" | "y div q < x div q" by linarith
  then show ?thesis
  proof cases
    case 1
    then have "x < y" using div_le_mono [of y x q] by linarith
    with 1 show ?thesis by simp
  next
    case 2
    with x y show ?thesis by (metis nat_add_left_cancel_less order_less_irrefl)
  next
    case 3
    then have "y < x" using div_le_mono [of x y q] by linarith
    with 3 show ?thesis by simp
  qed
qed

lemma be_digits_less:
  "x < 256 ^ n \<Longrightarrow> y < 256 ^ n \<Longrightarrow> be_digits n x < be_digits n y \<longleftrightarrow> x < y"
proof (induction n arbitrary: x y)
  case 0
  then show ?case by simp
next
  case (Suc n)
  let ?q = "256 ^ n :: nat"
  have IH: "be_digits n (x mod ?q) < be_digits n (y mod ?q) \<longleftrightarrow> x mod ?q < y mod ?q"
    by (rule Suc.IH) simp_all
  have dx: "x div ?q < 256" and dy: "y div ?q < 256"
    using Suc.prems by (auto intro: top_digit_less)
  have lt: "(of_nat (x div ?q) :: u8) < of_nat (y div ?q) \<longleftrightarrow> x div ?q < y div ?q"
    and eq: "(of_nat (x div ?q) :: u8) = of_nat (y div ?q) \<longleftrightarrow> x div ?q = y div ?q"
    using dx dy by (simp_all add: word_less_nat_alt word_unat_eq_iff unat_digit)
  from IH lt eq less_div_mod [of x y ?q] show ?case by simp
qed

definition u64_be :: "u64 \<Rightarrow> bytes" where
  "u64_be w = be_digits 8 (unat w)"

definition be_u64 :: "bytes \<Rightarrow> u64" where
  "be_u64 bs = of_nat (be_value bs)"

lemma unat_u64_less: "unat (w :: u64) < 256 ^ 8"
  using unsigned_less [of w, where ?'a = nat] by simp

lemma length_u64_be [simp]: "length (u64_be w) = 8"
  by (simp add: u64_be_def)

lemma be_u64_u64_be [simp]: "be_u64 (u64_be w) = w"
  by (simp add: be_u64_def u64_be_def be_value_digits [OF unat_u64_less])

lemma u64_be_inject [simp]: "u64_be a = u64_be b \<longleftrightarrow> a = b"
  by (metis be_u64_u64_be)

lemma u64_be_less [simp]: "u64_be a < u64_be b \<longleftrightarrow> a < b"
  by (simp add: u64_be_def be_digits_less [OF unat_u64_less unat_u64_less] word_less_nat_alt)

lemma u64_be_le [simp]: "u64_be a \<le> u64_be b \<longleftrightarrow> a \<le> b"
  by (simp add: le_less)

lemma u64_be_be_u64: "length bs = 8 \<Longrightarrow> u64_be (be_u64 bs) = bs"
proof -
  assume len: "length bs = 8"
  then have "be_value bs < 2 ^ 64" using be_value_less [of bs] by simp
  then have "unat (of_nat (be_value bs) :: u64) = be_value bs"
    by (simp add: unat_of_nat take_bit_eq_mod)
  with len show ?thesis
    using be_digits_value [of bs] by (simp add: u64_be_def be_u64_def)
qed

end
