(* ===== verification/Reference_Env.thy ===== *)
theory Reference_Env
  imports External Big_Endian
begin

section \<open>Reference instances of the external interfaces\<close>

text \<open>
  A concrete database and concrete codecs that satisfy the laws of \<^verbatim>\<open>External\<close>: they show that
  the laws can hold together, and the witnesses of the properties run the model on them.  Nothing
  here models code of the repository, and no property is about it.
\<close>

subsection \<open>A database kept as an association list\<close>

type_synonym mem_db = "((string \<times> bytes) \<times> bytes) list"

definition mem_keys :: "mem_db \<Rightarrow> string \<Rightarrow> bytes list" where
  "mem_keys d cf = map (\<lambda>p. snd (fst p)) (filter (\<lambda>p. fst (fst p) = cf) d)"

definition mem_view :: "mem_db \<Rightarrow> string \<Rightarrow> bytes \<Rightarrow> bytes option" where
  "mem_view d cf k = map_of d (cf, k)"

definition mem_delete_range :: "mem_db \<Rightarrow> string \<Rightarrow> bytes \<Rightarrow> bytes \<Rightarrow> mem_db" where
  "mem_delete_range d cf a b =
     filter (\<lambda>p. \<not> (fst (fst p) = cf \<and> a \<le> snd (fst p) \<and> snd (fst p) < b)) d"

definition mem_rocksdb :: "mem_db rocksdb" where
  "mem_rocksdb =
     \<lparr>db_get = (\<lambda>d cf k. Inr (mem_view d cf k)),
      db_put = (\<lambda>d cf k v. (AList.update (cf, k) v d, Inr ())),
      db_delete = (\<lambda>d cf k. (AList.delete (cf, k) d, Inr ())),
      db_delete_range = (\<lambda>d cf a b. (mem_delete_range d cf a b, Inr ())),
      db_key_may_exist = (\<lambda>d cf k. mem_view d cf k \<noteq> None),
      db_seek = (\<lambda>d cf s. map (\<lambda>k. (k, the (mem_view d cf k)))
                            (sort (remdups (filter (\<lambda>k. s \<le> k) (mem_keys d cf))))),
      db_flush_wal = (\<lambda>d. (d, Inr ())),
      db_view = mem_view\<rparr>"

text \<open>A database every write of which fails.\<close>

definition io_error :: ext_error where
  "io_error = \<lparr>err_display = ''io'', err_debug = ''io''\<rparr>"

definition faulty_rocksdb :: "mem_db rocksdb" where
  "faulty_rocksdb = mem_rocksdb
     \<lparr>db_put := (\<lambda>d cf k v. (d, Inl io_error)),
      db_delete := (\<lambda>d cf k. (d, Inl io_error)),
      db_delete_range := (\<lambda>d cf a b. (d, Inl io_error))\<rparr>"

lemma dom_mem_view: "dom (mem_view d cf) = set (mem_keys d cf)"
proof -
  have "map_of d (cf, k) \<noteq> None \<longleftrightarrow> k \<in> set (mem_keys d cf)" for k
    by (force simp: map_of_eq_None_iff mem_keys_def)
  then show ?thesis by (auto simp: mem_view_def dom_def)
qed

lemma map_of_filter_range:
  "map_of (filter (\<lambda>p. P (fst p)) d) k = (if P k then map_of d k else None)"
  by (induction d) auto

lemma mem_view_range:
  "mem_view (mem_delete_range d cf a b) =
     (mem_view d)(cf := (\<lambda>k. if a \<le> k \<and> k < b then None else mem_view d cf k))"
  using map_of_filter_range [of "\<lambda>q. \<not> (fst q = cf \<and> a \<le> snd q \<and> snd q < b)" d]
  by (auto simp: mem_view_def mem_delete_range_def fun_eq_iff)

lemma mem_view_update: "mem_view (AList.update (cf, k) v d) = (mem_view d)(cf := (mem_view d cf)(k \<mapsto> v))"
  by (auto simp: mem_view_def fun_eq_iff update_conv')

lemma mem_view_delete: "mem_view (AList.delete (cf, k) d) = (mem_view d)(cf := (mem_view d cf)(k := None))"
  by (auto simp: mem_view_def fun_eq_iff delete_conv')

lemma mem_seek:
  "map (\<lambda>k. (k, the (mem_view d cf k))) (sort (remdups (filter (\<lambda>k. s \<le> k) (mem_keys d cf))))
     = entries_from (mem_view d cf) s"
proof -
  have "{k \<in> dom (mem_view d cf). s \<le> k} = set (filter (\<lambda>k. s \<le> k) (mem_keys d cf))"
    by (auto simp: dom_mem_view)
  then show ?thesis
    by (simp add: entries_from_def sorted_list_of_set_sort_remdups del: set_filter)
qed

lemma mem_rocksdb_laws: "rocksdb_laws mem_rocksdb"
  by (simp add: rocksdb_laws_def mem_rocksdb_def mem_view_update mem_view_delete mem_view_range
      mem_seek dom_mem_view cong: if_cong)

lemma mem_rocksdb_up: "rocksdb_up mem_rocksdb"
  by (simp add: rocksdb_up_def mem_rocksdb_def)

lemma faulty_rocksdb_laws: "rocksdb_laws faulty_rocksdb"
  using mem_rocksdb_laws
  by (simp add: rocksdb_laws_def mem_rocksdb_def faulty_rocksdb_def cong: if_cong)

interpretation mem: rocksdb_running mem_rocksdb
  by unfold_locales (rule mem_rocksdb_laws mem_rocksdb_up)+

subsection \<open>Self-delimiting byte formats\<close>

record 'a fmt =
  put_fmt :: "'a \<Rightarrow> bytes"
  get_fmt :: "bytes \<Rightarrow> ('a \<times> bytes) option"

definition fmt_ok :: "'a fmt \<Rightarrow> bool" where
  "fmt_ok f \<longleftrightarrow> (\<forall>x r. get_fmt f (put_fmt f x @ r) = Some (x, r))"

definition fmt_u8 :: "u8 fmt" where
  "fmt_u8 = \<lparr>put_fmt = (\<lambda>b. [b]), get_fmt = (\<lambda>bs. case bs of [] \<Rightarrow> None | b # r \<Rightarrow> Some (b, r))\<rparr>"

definition fmt_u64 :: "u64 fmt" where
  "fmt_u64 = \<lparr>put_fmt = u64_be,
     get_fmt = (\<lambda>bs. if length bs < 8 then None else Some (be_u64 (take 8 bs), drop 8 bs))\<rparr>"

definition fmt_pair :: "'a fmt \<Rightarrow> 'b fmt \<Rightarrow> ('a \<times> 'b) fmt" where
  "fmt_pair f g =
     \<lparr>put_fmt = (\<lambda>(a, b). put_fmt f a @ put_fmt g b),
      get_fmt = (\<lambda>bs. case get_fmt f bs of
         None \<Rightarrow> None
       | Some (a, r) \<Rightarrow> (case get_fmt g r of None \<Rightarrow> None | Some (b, r') \<Rightarrow> Some ((a, b), r')))\<rparr>"

fun put_list :: "'a fmt \<Rightarrow> 'a list \<Rightarrow> bytes" where
  "put_list f [] = [0]"
| "put_list f (x # xs) = 1 # put_fmt f x @ put_list f xs"

fun get_list :: "nat \<Rightarrow> 'a fmt \<Rightarrow> bytes \<Rightarrow> ('a list \<times> bytes) option" where
  "get_list 0 f bs = None"
| "get_list (Suc n) f [] = None"
| "get_list (Suc n) f (b # bs) =
     (if b = 0 then Some ([], bs)
      else case get_fmt f bs of
        None \<Rightarrow> None
      | Some (x, r) \<Rightarrow> (case get_list n f r of None \<Rightarrow> None | Some (xs, r') \<Rightarrow> Some (x # xs, r')))"

definition fmt_list :: "'a fmt \<Rightarrow> 'a list fmt" where
  "fmt_list f = \<lparr>put_fmt = put_list f, get_fmt = (\<lambda>bs. get_list (length bs) f bs)\<rparr>"

definition fmt_map :: "('b \<Rightarrow> 'a) \<Rightarrow> ('a \<Rightarrow> 'b) \<Rightarrow> 'a fmt \<Rightarrow> 'b fmt" where
  "fmt_map to from f =
     \<lparr>put_fmt = (\<lambda>b. put_fmt f (to b)),
      get_fmt = (\<lambda>bs. case get_fmt f bs of None \<Rightarrow> None | Some (a, r) \<Rightarrow> Some (from a, r))\<rparr>"

definition fmt_option :: "'a fmt \<Rightarrow> 'a option fmt" where
  "fmt_option f = fmt_map (\<lambda>m. case m of None \<Rightarrow> [] | Some x \<Rightarrow> [x])
     (\<lambda>xs. case xs of [] \<Rightarrow> None | x # _ \<Rightarrow> Some x) (fmt_list f)"

lemma fmt_u8_ok [simp]: "fmt_ok fmt_u8"
  by (simp add: fmt_ok_def fmt_u8_def)

lemma fmt_u64_ok [simp]: "fmt_ok fmt_u64"
  by (simp add: fmt_ok_def fmt_u64_def)

lemma fmt_pair_ok [simp]: "fmt_ok f \<Longrightarrow> fmt_ok g \<Longrightarrow> fmt_ok (fmt_pair f g)"
  by (auto simp: fmt_ok_def fmt_pair_def)

lemma get_put_list:
  "fmt_ok f \<Longrightarrow> length (put_list f xs) \<le> n \<Longrightarrow> get_list n f (put_list f xs @ r) = Some (xs, r)"
proof (induction xs arbitrary: n)
  case Nil
  then show ?case by (cases n) auto
next
  case (Cons x xs)
  then obtain m where n: "n = Suc m" by (cases n) auto
  with Cons show ?case by (simp add: fmt_ok_def)
qed

lemma fmt_list_ok [simp]: "fmt_ok f \<Longrightarrow> fmt_ok (fmt_list f)"
proof -
  assume ok: "fmt_ok f"
  have "get_fmt (fmt_list f) (put_fmt (fmt_list f) xs @ r) = Some (xs, r)" for xs r
    unfolding fmt_list_def by (simp add: get_put_list [OF ok])
  then show ?thesis unfolding fmt_ok_def by blast
qed

lemma fmt_map_ok: "fmt_ok f \<Longrightarrow> (\<And>x. from (to x) = x) \<Longrightarrow> fmt_ok (fmt_map to from f)"
  by (simp add: fmt_ok_def fmt_map_def)

lemma fmt_option_ok [simp]: "fmt_ok f \<Longrightarrow> fmt_ok (fmt_option f)"
  unfolding fmt_option_def by (rule fmt_map_ok) (auto split: option.splits)

definition fmt_string :: "string fmt" where
  "fmt_string = fmt_map str_bytes bytes_str (fmt_list fmt_u8)"

lemma fmt_string_ok [simp]: "fmt_ok fmt_string"
  unfolding fmt_string_def by (rule fmt_map_ok) simp_all

subsection \<open>Codecs from formats\<close>

text \<open>Each byte becomes two letters, so the texts are ASCII; a tag character names the type.\<close>

definition hex_byte :: "u8 \<Rightarrow> string" where
  "hex_byte b = [char_of (97 + unat b div 16), char_of (97 + unat b mod 16)]"

fun hex_string :: "bytes \<Rightarrow> string" where
  "hex_string [] = []"
| "hex_string (b # bs) = hex_byte b @ hex_string bs"

fun unhex :: "string \<Rightarrow> bytes" where
  "unhex (h # l # s) = of_nat ((of_char h - 97) * 16 + (of_char l - 97)) # unhex s"
| "unhex _ = []"

lemma hex_byte_value:
  "(of_char (char_of (97 + unat b div 16)) - 97) * 16 +
     (of_char (char_of (97 + unat b mod 16)) - 97) = unat (b :: u8)"
proof -
  have "unat b < 256" using unsigned_less [of b, where ?'a = nat] by simp
  then have "unat b div 16 < 16" by (simp add: less_mult_imp_div_less)
  moreover have "unat b mod 16 < 16" by simp
  ultimately have "of_char (char_of (97 + unat b div 16)) = 97 + unat b div 16"
    and "of_char (char_of (97 + unat b mod 16)) = 97 + unat b mod 16"
    by (simp_all add: of_char_of)
  then show ?thesis by (simp add: div_mult_mod_eq)
qed

lemma unhex_hex [simp]: "unhex (hex_string bs) = bs"
proof (induction bs)
  case Nil
  then show ?case by simp
next
  case (Cons b bs)
  have "unhex (hex_byte b @ hex_string bs) = of_nat (unat b) # unhex (hex_string bs)"
    by (simp only: hex_byte_def append_Cons append_Nil unhex.simps hex_byte_value)
  with Cons.IH show ?case by simp
qed

lemma ascii_hex [simp]: "ascii_str (hex_string bs)"
proof (induction bs)
  case Nil
  then show ?case by simp
next
  case (Cons b bs)
  have b: "unat b < 256" using unsigned_less [of b, where ?'a = nat] by simp
  then have "char_byte (char_of (97 + unat b div 16)) < 0x80"
    and "char_byte (char_of (97 + unat b mod 16)) < 0x80"
    by (auto intro!: char_byte_less simp: of_char_of)
  with Cons.IH show ?case by (simp add: hex_byte_def)
qed

definition parse_error :: ext_error where
  "parse_error = \<lparr>err_display = ''parse'', err_debug = ''parse''\<rparr>"

definition ref_json_text :: "char \<Rightarrow> 'a fmt \<Rightarrow> 'a \<Rightarrow> string" where
  "ref_json_text tag f v = tag # hex_string (put_fmt f v)"

definition ref_json_parse :: "char \<Rightarrow> 'a fmt \<Rightarrow> string \<Rightarrow> ext_error + 'a" where
  "ref_json_parse tag f s =
     (case s of
        [] \<Rightarrow> Inl parse_error
      | c # cs \<Rightarrow>
          (if c = tag then
             (case get_fmt f (unhex cs) of None \<Rightarrow> Inl parse_error | Some (v, _) \<Rightarrow> Inr v)
           else Inl parse_error))"

definition ref_serde :: "char \<Rightarrow> 'a fmt \<Rightarrow> 'a serde" where
  "ref_serde tag f =
     \<lparr>js_to_string = (\<lambda>v. Inr (ref_json_text tag f v)),
      js_to_vec = (\<lambda>v. Inr (str_bytes (ref_json_text tag f v))),
      js_from_str = ref_json_parse tag f,
      js_from_slice = (\<lambda>b. ref_json_parse tag f (bytes_str b)),
      js_debug = (\<lambda>v. ref_json_text tag f v)\<rparr>"

lemma get_put: "fmt_ok f \<Longrightarrow> get_fmt f (put_fmt f v) = Some (v, [])"
  by (metis append_Nil2 fmt_ok_def)

lemma ref_json_parse_text [simp]: "fmt_ok f \<Longrightarrow> ref_json_parse tag f (ref_json_text tag f v) = Inr v"
  by (simp add: ref_json_parse_def ref_json_text_def get_put)

lemma ref_serde_laws: "fmt_ok f \<Longrightarrow> char_byte tag < 0x80 \<Longrightarrow> serde_laws (ref_serde tag f)"
  by (auto simp: serde_laws_def ref_serde_def ref_json_text_def [of tag f] intro!: rust_str_ascii)
    (simp_all flip: ref_json_text_def)

definition ref_prost :: "'a fmt \<Rightarrow> 'a prost" where
  "ref_prost f =
     \<lparr>pb_encode = put_fmt f,
      pb_decode = (\<lambda>b. case get_fmt f b of None \<Rightarrow> Inl parse_error | Some (v, _) \<Rightarrow> Inr v)\<rparr>"

definition ref_bincode :: "'a fmt \<Rightarrow> 'a bincode" where
  "ref_bincode f =
     \<lparr>bc_serialize = (\<lambda>v. Inr (put_fmt f v)),
      bc_deserialize = (\<lambda>b. case get_fmt f b of None \<Rightarrow> Inl parse_error | Some (v, _) \<Rightarrow> Inr v)\<rparr>"

lemma ref_prost_laws: "fmt_ok f \<Longrightarrow> prost_laws (ref_prost f)"
  by (simp add: prost_laws_def ref_prost_def get_put)

lemma ref_bincode_laws: "fmt_ok f \<Longrightarrow> bincode_laws (ref_bincode f)"
  by (simp add: bincode_laws_def ref_bincode_def get_put)

interpretation ref_string: serde_type "ref_serde CHR ''s'' fmt_string"
  by unfold_locales (rule ref_serde_laws; simp add: char_byte_def)

end
