(* ===== verification/Errors.thy ===== *)
theory Errors
  imports Prelude
begin

section \<open>The error type, gRPC statuses and HTTP bodies (common/base)\<close>

text \<open>
  \<open>src/common/base/src/errors.rs\<close>: the error enum and the message \<open>thiserror\<close> derives from
  its \<open>#[error(...)]\<close> attributes; \<open>tonic::Status\<close> as its code and message, the only parts this
  code builds; \<open>src/common/base/src/http_response.rs\<close>: the response envelope.
\<close>

datatype grpc_code = Cancelled | InvalidArgument | OtherCode nat

datatype status = Status (status_code: grpc_code) (status_message: string)

definition status_cancelled :: "string \<Rightarrow> status" where
  "status_cancelled m = Status Cancelled m"

definition status_invalid_argument :: "string \<Rightarrow> status" where
  "status_invalid_argument m = Status InvalidArgument m"

datatype robust_error =
    IOJsonError ext_error
  | ParameterCannotBeNull string
  | CommmonError string
  | RocksdbError ext_error
  | ClusterNoAvailableNode
  | SerdeJsonError ext_error
  | RaftLogCommitTimeout string
  | NoAvailableGrpcConnection string string
  | GrpcServerStatus status

text \<open>
  \<open>RobustMQError::to_string\<close>.  \<open>sd\<close> renders a \<open>tonic::Status\<close>, which is not code of this
  repository.
\<close>

fun error_string :: "(status \<Rightarrow> string) \<Rightarrow> robust_error \<Rightarrow> string" where
  "error_string sd (IOJsonError e) = ''io error''"
| "error_string sd (ParameterCannotBeNull p) =
     ''Parameter cannot be empty, parameter name: '' @ p"
| "error_string sd (CommmonError m) = m"
| "error_string sd (RocksdbError e) = err_display e"
| "error_string sd ClusterNoAvailableNode = ''No available nodes in the cluster''"
| "error_string sd (SerdeJsonError e) = err_display e"
| "error_string sd (RaftLogCommitTimeout a) =
     ''Description The interface '' @ a @ '' submitted logs to the commit log''"
| "error_string sd (NoAvailableGrpcConnection m e) =
     m @ '' connection pool has no connection information available. '' @ e"
| "error_string sd (GrpcServerStatus s) =
     ''Grpc call of the node failed,Grpc status was '' @ sd s"

subsection \<open>HTTP envelopes\<close>

record 'a http_response =
  resp_code :: u64
  resp_data :: 'a

text \<open>
  \<open>success_response\<close> and \<open>error_response\<close>: \<open>js\<close> is \<open>serde_json::to_string\<close> on the envelope,
  whose error is unwrapped.
\<close>

definition success_response :: "('a http_response \<Rightarrow> ext_error + string) \<Rightarrow> 'a \<Rightarrow> string run" where
  "success_response js d = unwrap_res (js \<lparr>resp_code = 0, resp_data = d\<rparr>)"

definition error_response ::
  "(string http_response \<Rightarrow> ext_error + string) \<Rightarrow> string \<Rightarrow> string run" where
  "error_response js e = unwrap_res (js \<lparr>resp_code = 100, resp_data = e\<rparr>)"

end
