(* ===== verification/Rocksdb_Engine.thy ===== *)
theory Rocksdb_Engine
  imports Reference_Env Errors
begin

section \<open>The RocksDB engine (src/placement-center/src/storage/rocksdb.rs)\<close>

text \<open>
  \<open>RocksDBEngine\<close> wraps one database with a single column family, \<open>cluster\<close>.  Its methods
  become functions of the database value; the methods that take a \<open>ColumnFamily\<close> handle take
  the family's name.  \<open>write\<close> and \<open>read\<close> are generic in the stored type: they take the serde
  operations of that type.  \<open>read_prefix\<close> may loop for ever (its \<open>continue\<close>s skip
  \<open>iter.next()\<close>), so its loop is a partial function whose \<open>None\<close> is "does not return".
\<close>

definition DB_COLUMN_FAMILY_CLUSTER :: string where
  "DB_COLUMN_FAMILY_CLUSTER = ''cluster''"

definition column_family_list :: "string list" where
  "column_family_list = [DB_COLUMN_FAMILY_CLUSTER]"

definition cf_cluster :: string where
  "cf_cluster = DB_COLUMN_FAMILY_CLUSTER"

definition get_column_family :: string where
  "get_column_family = cf_cluster"

text \<open>The error of \<open>String::from_utf8\<close>, its text shortened: it is only ever logged.\<close>

definition utf8_error :: ext_error where
  "utf8_error = \<lparr>err_display = ''invalid utf-8 sequence'', err_debug = ''FromUtf8Error''\<rparr>"

subsection \<open>Point operations\<close>

definition db_write ::
  "'db rocksdb \<Rightarrow> 'a serde \<Rightarrow> 'db \<Rightarrow> string \<Rightarrow> string \<Rightarrow> 'a \<Rightarrow> 'db \<times> (string + unit)" where
  "db_write R S db cf key value =
     (case js_to_string S value of
        Inr serialized \<Rightarrow>
          (let (db', r) = db_put R db cf (str_bytes key) (str_bytes serialized)
           in (db', map_err (\<lambda>err. ''Failed to put to ColumnFamily:'' @ err_debug err) r))
      | Inl err \<Rightarrow>
          (db, Inl (''Failed to serialize to String. T: '' @ js_debug S value @ '', err: '' @ err_debug err)))"

definition db_write_str ::
  "'db rocksdb \<Rightarrow> 'db \<Rightarrow> string \<Rightarrow> string \<Rightarrow> string \<Rightarrow> 'db \<times> (string + unit)" where
  "db_write_str R db cf key value =
     (let (db', r) = db_put R db cf (str_bytes key) (str_bytes value)
      in (db', map_err (\<lambda>err. ''Failed to put to ColumnFamily:'' @ err_debug err) r))"

definition db_read ::
  "'db rocksdb \<Rightarrow> 'a serde \<Rightarrow> 'db \<Rightarrow> string \<Rightarrow> string \<Rightarrow> string + 'a option" where
  "db_read R S db cf key =
     (case db_get R db cf (str_bytes key) of
        Inr opt \<Rightarrow>
          (case opt of
             Some found \<Rightarrow>
               (case from_utf8 utf8_error found of
                  Inr s \<Rightarrow>
                    (case js_from_str S s of
                       Inr t \<Rightarrow> Inr (Some t)
                     | Inl err \<Rightarrow> Inl (''Failed to deserialize: '' @ err_debug err))
                | Inl err \<Rightarrow> Inl (''Failed to deserialize: '' @ err_debug err))
           | None \<Rightarrow> Inr None)
      | Inl err \<Rightarrow> Inl (''Failed to get from ColumnFamily: '' @ err_debug err))"

definition db_remove :: "'db rocksdb \<Rightarrow> 'db \<Rightarrow> string \<Rightarrow> string \<Rightarrow> 'db \<times> (robust_error + unit)" where
  "db_remove R db cf key =
     (let (db', r) = db_delete R db cf (str_bytes key) in (db', map_err RocksdbError r))"

definition db_exist :: "'db rocksdb \<Rightarrow> 'db \<Rightarrow> string \<Rightarrow> string \<Rightarrow> bool" where
  "db_exist R db cf key = db_key_may_exist R db cf (str_bytes key)"

subsection \<open>Iteration\<close>

text \<open>A \<open>HashMap\<close> built by one \<open>insert\<close> is the list of its single pair.\<close>

partial_function (option) read_prefix_loop ::
  "string \<Rightarrow> (bytes \<times> bytes) list \<Rightarrow> (string \<times> bytes) list list \<Rightarrow> (string \<times> bytes) list list option"
where
  "read_prefix_loop search_key iter result =
     (case iter of
        [] \<Rightarrow> Some result
      | (key, value) # rest \<Rightarrow>
          (case from_utf8 utf8_error key of
             Inl _ \<Rightarrow> read_prefix_loop search_key iter result
           | Inr result_key \<Rightarrow>
               if \<not> prefix search_key result_key then Some result
               else read_prefix_loop search_key rest (result @ [[(result_key, value)]])))"

definition read_prefix ::
  "'db rocksdb \<Rightarrow> 'db \<Rightarrow> string \<Rightarrow> string \<Rightarrow> (string \<times> bytes) list list option" where
  "read_prefix R db cf search_key =
     read_prefix_loop search_key (db_seek R db cf (str_bytes search_key)) []"

fun read_all_loop :: "(bytes \<times> bytes) list \<Rightarrow> (string \<times> string) list list \<Rightarrow> (string \<times> string) list list"
where
  "read_all_loop [] result = result"
| "read_all_loop ((key, val) # rest) result =
     (case from_utf8 utf8_error key of
        Inr key' \<Rightarrow>
          (case from_utf8 utf8_error val of
             Inr da \<Rightarrow> read_all_loop rest (result @ [[(key', da)]])
           | Inl _ \<Rightarrow> read_all_loop rest result)
      | Inl _ \<Rightarrow> read_all_loop rest result)"

definition read_all_by_cf :: "'db rocksdb \<Rightarrow> 'db \<Rightarrow> string \<Rightarrow> (string \<times> string) list list" where
  "read_all_by_cf R db cf = read_all_loop (db_seek R db cf []) []"

definition read_all :: "'db rocksdb \<Rightarrow> 'db \<Rightarrow> (string \<times> (string \<times> string) list list) list" where
  "read_all R db =
     fold (\<lambda>family result. AList.update family (read_all_by_cf R db get_column_family) result)
       column_family_list []"

subsection \<open>The stored cells\<close>

text \<open>
  What \<open>read\<close> finds in a cell, and the contract of \<open>write\<close>, \<open>read\<close> and \<open>delete\<close> over a
  running database: the interface that the storage layers above are proved against.
\<close>

definition decode_cell :: "'a serde \<Rightarrow> bytes \<Rightarrow> string + 'a" where
  "decode_cell S b =
     (case from_utf8 utf8_error b of
        Inr s \<Rightarrow> map_err (\<lambda>err. ''Failed to deserialize: '' @ err_debug err) (js_from_str S s)
      | Inl err \<Rightarrow> Inl (''Failed to deserialize: '' @ err_debug err))"

definition cell :: "'db rocksdb \<Rightarrow> 'db \<Rightarrow> string \<Rightarrow> bytes option" where
  "cell R db key = db_view R db cf_cluster (str_bytes key)"

lemma db_read_eq:
  "db_read R S db cf key =
     (case db_get R db cf (str_bytes key) of
        Inl err \<Rightarrow> Inl (''Failed to get from ColumnFamily: '' @ err_debug err)
      | Inr None \<Rightarrow> Inr None
      | Inr (Some b) \<Rightarrow> (case decode_cell S b of Inl e \<Rightarrow> Inl e | Inr t \<Rightarrow> Inr (Some t)))"
  by (auto simp: db_read_def decode_cell_def split: sum.splits option.splits)

lemma decode_cell_text [simp]:
  "serde_laws S \<Longrightarrow> decode_cell S (str_bytes (js_text S v)) = Inr v"
  by (simp add: decode_cell_def serde_type.serde_eqs [OF serde_type.intro])

context rocksdb_running
begin

lemma db_write_ok [view_simps]: "serde_laws S \<Longrightarrow> snd (db_write R S db cf key v) = Inr ()"
  by (simp add: db_write_def serde_type.to_string_eq [OF serde_type.intro] Let_def
      case_prod_beta put_ok)

lemma view_db_write [view_simps]:
  "serde_laws S \<Longrightarrow> db_view R (fst (db_write R S db cf key v)) =
     (db_view R db)(cf := (db_view R db cf)(str_bytes key \<mapsto> str_bytes (js_text S v)))"
  by (simp add: db_write_def serde_type.to_string_eq [OF serde_type.intro] Let_def
      case_prod_beta view_put)

lemma cell_db_write [view_simps]:
  "serde_laws S \<Longrightarrow> cell R (fst (db_write R S db cf_cluster key v)) k =
     (if k = key then Some (str_bytes (js_text S v)) else cell R db k)"
  by (simp add: cell_def view_db_write)

lemma db_write_str_ok [view_simps]: "snd (db_write_str R db cf key v) = Inr ()"
  by (simp add: db_write_str_def Let_def case_prod_beta put_ok)

lemma view_db_write_str [view_simps]:
  "db_view R (fst (db_write_str R db cf key v)) =
     (db_view R db)(cf := (db_view R db cf)(str_bytes key \<mapsto> str_bytes v))"
  by (simp add: db_write_str_def Let_def case_prod_beta view_put)

lemma cell_db_write_str [view_simps]:
  "cell R (fst (db_write_str R db cf_cluster key v)) k =
     (if k = key then Some (str_bytes v) else cell R db k)"
  by (simp add: cell_def view_db_write_str)

lemma db_remove_ok [view_simps]: "snd (db_remove R db cf key) = Inr ()"
  by (simp add: db_remove_def Let_def case_prod_beta delete_ok)

lemma view_db_remove [view_simps]:
  "db_view R (fst (db_remove R db cf key)) = (db_view R db)(cf := (db_view R db cf)(str_bytes key := None))"
  by (simp add: db_remove_def Let_def case_prod_beta view_delete)

lemma cell_db_remove [view_simps]:
  "cell R (fst (db_remove R db cf_cluster key)) k = (if k = key then None else cell R db k)"
  by (simp add: cell_def view_db_remove)

lemma db_read_cell [view_simps]:
  "db_read R S db cf_cluster key =
     (case cell R db key of
        None \<Rightarrow> Inr None
      | Some b \<Rightarrow> (case decode_cell S b of Inl e \<Rightarrow> Inl e | Inr t \<Rightarrow> Inr (Some t)))"
  by (simp add: db_read_eq get_eq cell_def)

end

subsection \<open>Prefix scans\<close>

lemma Cons_prefixE:
  assumes "prefix (a # s) k"
  obtains l where "k = a # l" and "prefix s l"
  using assms by (cases k) auto

lemma prefix_imp_le: "prefix s k \<Longrightarrow> s \<le> (k :: 'a::linorder list)"
  by (induction s arbitrary: k) (auto elim!: Cons_prefixE)

lemma prefix_run:
  "s \<le> k \<Longrightarrow> k \<le> k' \<Longrightarrow> prefix s k' \<Longrightarrow> prefix s (k :: 'a::linorder list)"
proof (induction s arbitrary: k k')
  case Nil
  then show ?case by simp
next
  case (Cons a s)
  from Cons.prems(3) obtain l' where k': "k' = a # l'" "prefix s l'"
    by (rule Cons_prefixE)
  from Cons.prems(1) obtain b l where k: "k = b # l" by (cases k) auto
  from Cons.prems k k' have "b = a" "s \<le> l" "l \<le> l'" by auto
  with Cons.IH k' k show ?case by simp
qed

lemma takeWhile_sorted_filter:
  "sorted xs \<Longrightarrow> (\<And>x y. x \<in> set xs \<Longrightarrow> y \<in> set xs \<Longrightarrow> x \<le> y \<Longrightarrow> P y \<Longrightarrow> P x) \<Longrightarrow>
     takeWhile P xs = filter P xs"
proof (induction xs)
  case Nil
  then show ?case by simp
next
  case (Cons x xs)
  show ?case
  proof (cases "P x")
    case True
    have "takeWhile P xs = filter P xs"
      using Cons.prems by (intro Cons.IH) (simp, blast intro: list.set_intros)
    with True show ?thesis by simp
  next
    case False
    have "\<not> P y" if "y \<in> set xs" for y
      using Cons.prems(1) Cons.prems(2) [of x y] that False by auto
    then have "filter P xs = []" by (simp add: filter_empty_conv)
    with False show ?thesis by simp
  qed
qed

lemma filter_sorted_list_of_set:
  "finite A \<Longrightarrow> filter P (sorted_list_of_set A) = sorted_list_of_set {x \<in> A. P x}"
  by (rule sorted_distinct_set_unique) (auto simp: sorted_wrt_filter)

lemma takeWhile_prefix_keys:
  assumes "finite A"
  shows "takeWhile (prefix s) (sorted_list_of_set {k \<in> A. s \<le> k}) =
     sorted_list_of_set {k \<in> (A :: 'a::linorder list set). prefix s k}"
proof -
  have fin: "finite {k \<in> A. s \<le> k}" using assms by simp
  have "takeWhile (prefix s) (sorted_list_of_set {k \<in> A. s \<le> k}) =
      filter (prefix s) (sorted_list_of_set {k \<in> A. s \<le> k})"
    by (rule takeWhile_sorted_filter) (use fin in \<open>auto intro: prefix_run\<close>)
  also have "\<dots> = sorted_list_of_set {k \<in> {k \<in> A. s \<le> k}. prefix s k}"
    using fin by (rule filter_sorted_list_of_set)
  also have "{k \<in> {k \<in> A. s \<le> k}. prefix s k} = {k \<in> A. prefix s k}"
    by (auto dest: prefix_imp_le)
  finally show ?thesis .
qed

text \<open>
  The loop of \<open>read_prefix\<close>: it collects entries while their keys are valid UTF-8 and carry the
  prefix, and it never returns exactly when the entry at which this stops has a key that is not
  valid UTF-8 (\<open>continue\<close> without \<open>iter.next()\<close>).
\<close>

definition scan_hit :: "string \<Rightarrow> bytes \<times> bytes \<Rightarrow> bool" where
  "scan_hit s kv \<longleftrightarrow> utf8_valid (fst kv) \<and> prefix (str_bytes s) (fst kv)"

definition scan_stuck :: "string \<Rightarrow> (bytes \<times> bytes) list \<Rightarrow> bool" where
  "scan_stuck s iter \<longleftrightarrow>
     (case dropWhile (scan_hit s) iter of [] \<Rightarrow> False | kv # _ \<Rightarrow> \<not> utf8_valid (fst kv))"

lemma prefix_bytes_str: "prefix s (bytes_str b) \<longleftrightarrow> prefix (str_bytes s) b"
  by (metis prefix_str_bytes str_bytes_bytes_str)

lemma read_prefix_loop_returns:
  assumes "read_prefix_loop s iter res = Some y"
  shows "iter = [] \<or> utf8_valid (fst (hd iter))"
proof (rule read_prefix_loop.raw_induct
    [where P = "\<lambda>s iter res y. iter = [] \<or> utf8_valid (fst (hd iter))", OF _ assms])
  fix f s iter res y
  assume IH: "\<And>s iter res y. f s iter res = Some y \<Longrightarrow> iter = [] \<or> utf8_valid (fst (hd iter))"
    and eq: "(case iter of [] \<Rightarrow> Some res
       | (key, value) # rest \<Rightarrow>
          (case from_utf8 utf8_error key of
             Inl _ \<Rightarrow> f s iter res
           | Inr result_key \<Rightarrow>
               if \<not> prefix s result_key then Some res
               else f s rest (res @ [[(result_key, value)]]))) = Some y"
  show "iter = [] \<or> utf8_valid (fst (hd iter))"
  proof (rule ccontr)
    assume neg: "\<not> ?thesis"
    then obtain k v rest where it: "iter = (k, v) # rest" "\<not> utf8_valid k"
      by (cases iter) auto
    with eq have "f s iter res = Some y" by (simp add: from_utf8_def)
    with IH neg show False by blast
  qed
qed

lemma read_prefix_loop_eq:
  "read_prefix_loop s iter res =
     (if scan_stuck s iter then None
      else Some (res @ map (\<lambda>(k, v). [(bytes_str k, v)]) (takeWhile (scan_hit s) iter)))"
proof (induction iter arbitrary: res)
  case Nil
  then show ?case by (simp add: read_prefix_loop.simps scan_stuck_def)
next
  case (Cons kv rest)
  obtain k v where kv: "kv = (k, v)" by (cases kv)
  show ?case
  proof (cases "utf8_valid k")
    case False
    then have "read_prefix_loop s (kv # rest) res = None"
      using read_prefix_loop_returns [of s "kv # rest" res] kv by (cases "read_prefix_loop s (kv # rest) res") auto
    with False show ?thesis by (simp add: scan_stuck_def scan_hit_def kv)
  next
    case True
    then have "scan_hit s kv \<longleftrightarrow> prefix (str_bytes s) k" by (simp add: scan_hit_def kv)
    with True Cons.IH show ?thesis
      by (simp add: read_prefix_loop.simps [of s "(k, v) # rest"] kv from_utf8_def
          prefix_bytes_str scan_stuck_def)
  qed
qed

lemma read_all_loop_eq:
  "read_all_loop iter res =
     res @ map (\<lambda>(k, v). [(bytes_str k, bytes_str v)])
             (filter (\<lambda>(k, v). utf8_valid k \<and> utf8_valid v) iter)"
  by (induction iter res rule: read_all_loop.induct) (auto simp: from_utf8_def)

lemma entries_from_Nil:
  "entries_from m [] = map (\<lambda>k. (k, the (m k))) (sorted_list_of_set (dom m))"
  by (simp add: entries_from_def)

text \<open>The keys of a family that are valid UTF-8, in byte order; with a prefix.\<close>

definition keys_with_prefix :: "'db rocksdb \<Rightarrow> 'db \<Rightarrow> string \<Rightarrow> string \<Rightarrow> bytes list" where
  "keys_with_prefix R db cf s =
     sorted_list_of_set {k \<in> dom (db_view R db cf). prefix (str_bytes s) k}"

definition utf8_keys :: "'db rocksdb \<Rightarrow> 'db \<Rightarrow> string \<Rightarrow> bool" where
  "utf8_keys R db cf \<longleftrightarrow> (\<forall>k \<in> dom (db_view R db cf). utf8_valid k)"

context rocksdb_crate
begin

lemma set_seek: "set (db_seek R db cf s) \<subseteq> {(k, v). db_view R db cf k = Some v}"
  by (auto simp: seek_eq entries_from_def)

lemma read_prefix_exact_up:
  assumes "utf8_keys R db cf"
  shows "read_prefix R db cf s =
     Some (map (\<lambda>k. [(bytes_str k, the (db_view R db cf k))]) (keys_with_prefix R db cf s))"
proof -
  let ?it = "db_seek R db cf (str_bytes s)"
  have valid: "utf8_valid (fst kv)" if "kv \<in> set ?it" for kv
    using set_seek [of db cf "str_bytes s"] that assms
    by (cases kv) (auto simp: utf8_keys_def)
  have "\<not> scan_stuck s ?it"
    using valid by (auto simp: scan_stuck_def split: list.splits dest: set_dropWhileD
        intro: list.set_intros) (metis list.set_intros(1) set_dropWhileD fst_conv)
  moreover have "takeWhile (scan_hit s) ?it = takeWhile (\<lambda>kv. prefix (str_bytes s) (fst kv)) ?it"
    using valid by (intro takeWhile_cong) (auto simp: scan_hit_def)
  moreover have "takeWhile (\<lambda>kv. prefix (str_bytes s) (fst kv)) ?it =
      map (\<lambda>k. (k, the (db_view R db cf k))) (keys_with_prefix R db cf s)"
    by (simp add: seek_eq entries_from_def keys_with_prefix_def takeWhile_map comp_def
        takeWhile_prefix_keys)
  ultimately show ?thesis
    by (simp add: read_prefix_def read_prefix_loop_eq comp_def)
qed

lemma read_all_by_cf_exact:
  "read_all_by_cf R db cf =
     map (\<lambda>k. [(bytes_str k, bytes_str (the (db_view R db cf k)))])
       (filter (\<lambda>k. utf8_valid k \<and> utf8_valid (the (db_view R db cf k)))
         (sorted_list_of_set (dom (db_view R db cf))))"
  by (simp add: read_all_by_cf_def read_all_loop_eq seek_eq entries_from_Nil filter_map comp_def)

end

text \<open>
  A prefix scan of a column family whose keys are all valid UTF-8 returns, and it returns every
  entry whose key carries the prefix, each once, in byte order of the keys, and nothing else.
\<close>

lemma read_prefix_exact:
  assumes "rocksdb_laws R" and "utf8_keys R db cf"
  shows "read_prefix R db cf s =
     Some (map (\<lambda>k. [(bytes_str k, the (db_view R db cf k))]) (keys_with_prefix R db cf s))"
  using rocksdb_crate.read_prefix_exact_up [OF rocksdb_crate.intro [OF assms(1)] assms(2)] .

lemma read_prefix_exact_witness:
  "read_prefix mem_rocksdb [((''cluster'', str_bytes ''/b''), [2]), ((''cluster'', str_bytes ''/a/1''), [1])]
     ''cluster'' ''/a/'' = Some [[(''/a/1'', [1])]]"
proof -
  let ?d = "[((''cluster'', str_bytes ''/b''), [2]), ((''cluster'', str_bytes ''/a/1''), [1])] :: mem_db"
  have dom: "dom (db_view mem_rocksdb ?d ''cluster'') = {str_bytes ''/b'', str_bytes ''/a/1''}"
    by (simp add: mem_rocksdb_def dom_mem_view mem_keys_def)
  have "utf8_keys mem_rocksdb ?d ''cluster''"
    by (simp add: utf8_keys_def dom flip: rust_str_def)
      (auto intro!: rust_str_ascii simp: char_byte_def)
  moreover have "{k \<in> dom (db_view mem_rocksdb ?d ''cluster''). prefix (str_bytes ''/a/'') k}
      = {str_bytes ''/a/1''}"
    by (auto simp: dom)
  ultimately show ?thesis
    using read_prefix_exact [OF mem_rocksdb_laws, of ?d "''cluster''" "''/a/''"]
    by (simp add: keys_with_prefix_def) (simp add: mem_rocksdb_def mem_view_def)
qed

text \<open>
  C36: A prefix scan fails to return exactly when the first entry, from the prefix on, whose key is
  not both valid UTF-8 and within the prefix is one whose key is not valid UTF-8: the loop then
  skips \<open>iter.next()\<close> for ever.
\<close>

theorem read_prefix_returns_iff:
  "(\<exists>r. read_prefix R db cf s = Some r) \<longleftrightarrow> \<not> scan_stuck s (db_seek R db cf (str_bytes s))"
  by (simp add: read_prefix_def read_prefix_loop_eq)

end
