(* ===== verification/Storage_Env.thy ===== *)
theory Storage_Env
  imports Rocksdb_Engine
begin

section \<open>The environment of the storage layer: message types and codecs\<close>

text \<open>
  The messages of raft-rs that the storage layer keeps (\<open>eraftpb\<close>: \<open>Entry\<close>, \<open>HardState\<close>,
  \<open>ConfState\<close>, \<open>SnapshotMetadata\<close>, \<open>Snapshot\<close>) with the fields the library documents,
  \<open>StorageDataWrap\<close> of \<open>src/placement-center/src/storage/mod.rs\<close>, and the record of
  everything foreign that the storage layer calls: the database and one codec per stored type.
  A \<open>HashMap\<close> is an association list whose order carries no meaning.
\<close>

subsection \<open>Raft messages\<close>

datatype entry_type = EntryNormal | EntryConfChange | EntryConfChangeV2

record entry =
  e_type :: entry_type
  e_term :: u64
  e_index :: u64
  e_data :: bytes
  e_context :: bytes
  e_sync_log :: bool

record hard_state =
  hs_term :: u64
  hs_vote :: u64
  hs_commit :: u64

record conf_state =
  cs_voters :: "u64 list"
  cs_learners :: "u64 list"
  cs_voters_outgoing :: "u64 list"
  cs_learners_next :: "u64 list"
  cs_auto_leave :: bool

record snapshot_metadata =
  sm_conf_state :: conf_state
  sm_index :: u64
  sm_term :: u64

record snapshot =
  snap_data :: bytes
  snap_metadata :: snapshot_metadata

definition hard_state_default :: hard_state where
  "hard_state_default = \<lparr>hs_term = 0, hs_vote = 0, hs_commit = 0\<rparr>"

definition conf_state_default :: conf_state where
  "conf_state_default =
     \<lparr>cs_voters = [], cs_learners = [], cs_voters_outgoing = [], cs_learners_next = [],
      cs_auto_leave = False\<rparr>"

definition snapshot_metadata_default :: snapshot_metadata where
  "snapshot_metadata_default =
     \<lparr>sm_conf_state = conf_state_default, sm_index = 0, sm_term = 0\<rparr>"

definition snapshot_default :: snapshot where
  "snapshot_default = \<lparr>snap_data = [], snap_metadata = snapshot_metadata_default\<rparr>"

subsection \<open>StorageDataWrap\<close>

record storage_data_wrap =
  wrap_data :: bytes
  wrap_create_time :: u64

text \<open>\<open>StorageDataWrap::new\<close>; \<open>now\<close> is what \<open>now_second()\<close> returned.\<close>

definition storage_data_wrap_new :: "u64 \<Rightarrow> bytes \<Rightarrow> storage_data_wrap" where
  "storage_data_wrap_new now d = \<lparr>wrap_data = d, wrap_create_time = now\<rparr>"

subsection \<open>The environment\<close>

type_synonym uncommit_map = "(u64 \<times> u8) list"
type_synonym cf_dump = "(string \<times> (string \<times> string) list list) list"

record 'db env =
  rocks :: "'db rocksdb"
  js_string :: "string serde"
  js_wrap :: "storage_data_wrap serde"
  js_bytes :: "bytes serde"
  js_u64 :: "u64 serde"
  pb_entry :: "entry prost"
  pb_hard_state :: "hard_state prost"
  pb_conf_state :: "conf_state prost"
  pb_snapshot :: "snapshot prost"
  bc_uncommit :: "uncommit_map bincode"
  bc_dump :: "cf_dump bincode"

text \<open>
  bincode on the two maps: the uncommitted indexes come back as the same map, in some order; a
  dump whose maps hold at most one pair each, the only kind this code builds, comes back as it is.
\<close>

definition bincode_map_laws :: "('k \<times> 'v) list bincode \<Rightarrow> bool" where
  "bincode_map_laws B \<longleftrightarrow>
     (\<forall>m. distinct (map fst m) \<longrightarrow>
        (\<exists>b m'. bc_serialize B m = Inr b \<and> bc_deserialize B b = Inr m' \<and>
                map_of m' = map_of m \<and> distinct (map fst m')))"

definition flat_dump :: "cf_dump \<Rightarrow> bool" where
  "flat_dump d \<longleftrightarrow> length d \<le> 1 \<and> (\<forall>(f, raws) \<in> set d. \<forall>raw \<in> set raws. length raw \<le> 1)"

definition bincode_dump_laws :: "cf_dump bincode \<Rightarrow> bool" where
  "bincode_dump_laws B \<longleftrightarrow>
     (\<forall>d. flat_dump d \<longrightarrow> (\<exists>b. bc_serialize B d = Inr b \<and> b \<noteq> [] \<and> bc_deserialize B b = Inr d))"

definition env_laws :: "'db env \<Rightarrow> bool" where
  "env_laws E \<longleftrightarrow>
     rocksdb_laws (rocks E) \<and>
     serde_laws (js_string E) \<and> serde_laws (js_wrap E) \<and> serde_laws (js_bytes E) \<and>
     serde_laws (js_u64 E) \<and>
     prost_laws (pb_entry E) \<and> prost_laws (pb_hard_state E) \<and> prost_laws (pb_conf_state E) \<and>
     prost_laws (pb_snapshot E) \<and>
     bincode_map_laws (bc_uncommit E) \<and> bincode_dump_laws (bc_dump E)"

text \<open>The documented laws hold and no database operation fails.\<close>

definition env_up :: "'db env \<Rightarrow> bool" where
  "env_up E \<longleftrightarrow> env_laws E \<and> rocksdb_up (rocks E)"

locale storage_env =
  fixes E :: "'db env"
  assumes env: "env_up E"
begin

lemma env_rocks: "rocksdb_laws (rocks E)" "rocksdb_up (rocks E)"
  using env by (simp_all add: env_up_def env_laws_def)

lemma env_serde [simp]:
  "serde_laws (js_string E)" "serde_laws (js_wrap E)" "serde_laws (js_bytes E)"
  "serde_laws (js_u64 E)"
  using env by (simp_all add: env_up_def env_laws_def)

lemma env_prost [simp]:
  "pb_decode (pb_entry E) (pb_encode (pb_entry E) e) = Inr e"
  "pb_decode (pb_hard_state E) (pb_encode (pb_hard_state E) hs) = Inr hs"
  "pb_decode (pb_conf_state E) (pb_encode (pb_conf_state E) cs) = Inr cs"
  "pb_decode (pb_snapshot E) (pb_encode (pb_snapshot E) sn) = Inr sn"
  using env by (simp_all add: env_up_def env_laws_def prost_roundtrip)

lemma env_uncommit:
  "distinct (map fst m) \<Longrightarrow>
     \<exists>b m'. bc_serialize (bc_uncommit E) m = Inr b \<and> bc_deserialize (bc_uncommit E) b = Inr m' \<and>
            map_of m' = map_of m \<and> distinct (map fst m')"
  using env by (simp add: env_up_def env_laws_def bincode_map_laws_def)

lemma env_dump:
  "flat_dump d \<Longrightarrow>
     \<exists>b. bc_serialize (bc_dump E) d = Inr b \<and> b \<noteq> [] \<and> bc_deserialize (bc_dump E) b = Inr d"
  using env by (simp add: env_up_def env_laws_def bincode_dump_laws_def)

end

sublocale storage_env \<subseteq> rocksdb_running "rocks E"
  by unfold_locales (rule env_rocks)+

end
