(* ===== verification/Ref_Storage_Env.thy ===== *)
theory Ref_Storage_Env
  imports Storage_Env Reference_Env
begin

section \<open>A reference instance of the storage environment\<close>

text \<open>
  The in-memory database of \<^verbatim>\<open>Reference_Env\<close> with one concrete codec per stored type: an
  instance of \<^verbatim>\<open>Storage_Env\<close> on which its laws hold, used by the witnesses.
\<close>

definition fmt_bytes :: "bytes fmt" where
  "fmt_bytes = fmt_list fmt_u8"

definition fmt_u64s :: "u64 list fmt" where
  "fmt_u64s = fmt_list fmt_u64"

definition fmt_bool :: "bool fmt" where
  "fmt_bool = fmt_map (\<lambda>b. if b then 1 else 0) (\<lambda>w. w \<noteq> 0) fmt_u8"

fun entry_type_code :: "entry_type \<Rightarrow> u8" where
  "entry_type_code EntryNormal = 0"
| "entry_type_code EntryConfChange = 1"
| "entry_type_code EntryConfChangeV2 = 2"

definition code_entry_type :: "u8 \<Rightarrow> entry_type" where
  "code_entry_type w =
     (if w = 0 then EntryNormal else if w = 1 then EntryConfChange else EntryConfChangeV2)"

lemma code_entry_type [simp]: "code_entry_type (entry_type_code t) = t"
  by (cases t) (simp_all add: code_entry_type_def)

definition fmt_entry_type :: "entry_type fmt" where
  "fmt_entry_type = fmt_map entry_type_code code_entry_type fmt_u8"

definition fmt_wrap :: "storage_data_wrap fmt" where
  "fmt_wrap = fmt_map (\<lambda>w. (wrap_data w, wrap_create_time w))
     (\<lambda>(d, t). \<lparr>wrap_data = d, wrap_create_time = t\<rparr>) (fmt_pair fmt_bytes fmt_u64)"

definition fmt_entry :: "entry fmt" where
  "fmt_entry = fmt_map
     (\<lambda>e. (e_type e, e_term e, e_index e, e_data e, e_context e, e_sync_log e))
     (\<lambda>(t, tm, i, d, c, s). \<lparr>e_type = t, e_term = tm, e_index = i, e_data = d, e_context = c,
        e_sync_log = s\<rparr>)
     (fmt_pair fmt_entry_type (fmt_pair fmt_u64 (fmt_pair fmt_u64 (fmt_pair fmt_bytes
        (fmt_pair fmt_bytes fmt_bool)))))"

definition fmt_hard_state :: "hard_state fmt" where
  "fmt_hard_state = fmt_map (\<lambda>h. (hs_term h, hs_vote h, hs_commit h))
     (\<lambda>(t, v, c). \<lparr>hs_term = t, hs_vote = v, hs_commit = c\<rparr>)
     (fmt_pair fmt_u64 (fmt_pair fmt_u64 fmt_u64))"

definition fmt_conf_state :: "conf_state fmt" where
  "fmt_conf_state = fmt_map
     (\<lambda>c. (cs_voters c, cs_learners c, cs_voters_outgoing c, cs_learners_next c, cs_auto_leave c))
     (\<lambda>(v, l, vo, ln, a). \<lparr>cs_voters = v, cs_learners = l, cs_voters_outgoing = vo,
        cs_learners_next = ln, cs_auto_leave = a\<rparr>)
     (fmt_pair fmt_u64s (fmt_pair fmt_u64s (fmt_pair fmt_u64s (fmt_pair fmt_u64s fmt_bool))))"

definition fmt_snapshot :: "snapshot fmt" where
  "fmt_snapshot = fmt_map
     (\<lambda>s. (snap_data s, sm_conf_state (snap_metadata s), sm_index (snap_metadata s),
           sm_term (snap_metadata s)))
     (\<lambda>(d, c, i, t). \<lparr>snap_data = d,
        snap_metadata = \<lparr>sm_conf_state = c, sm_index = i, sm_term = t\<rparr>\<rparr>)
     (fmt_pair fmt_bytes (fmt_pair fmt_conf_state (fmt_pair fmt_u64 fmt_u64)))"

definition fmt_uncommit :: "uncommit_map fmt" where
  "fmt_uncommit = fmt_list (fmt_pair fmt_u64 fmt_u8)"

definition fmt_dump :: "cf_dump fmt" where
  "fmt_dump = fmt_list (fmt_pair fmt_string
     (fmt_list (fmt_list (fmt_pair fmt_string fmt_string))))"

lemma storage_fmts_ok [simp]:
  "fmt_ok fmt_bytes" "fmt_ok fmt_u64s" "fmt_ok fmt_bool" "fmt_ok fmt_entry_type"
  "fmt_ok fmt_uncommit" "fmt_ok fmt_dump"
  by (simp_all add: fmt_bytes_def fmt_u64s_def fmt_bool_def fmt_entry_type_def fmt_uncommit_def
      fmt_dump_def fmt_map_ok)

lemma fmt_wrap_ok [simp]: "fmt_ok fmt_wrap"
  unfolding fmt_wrap_def by (rule fmt_map_ok) simp_all

lemma fmt_entry_ok [simp]: "fmt_ok fmt_entry"
  unfolding fmt_entry_def by (rule fmt_map_ok) simp_all

lemma fmt_hard_state_ok [simp]: "fmt_ok fmt_hard_state"
  unfolding fmt_hard_state_def by (rule fmt_map_ok) simp_all

lemma fmt_conf_state_ok [simp]: "fmt_ok fmt_conf_state"
  unfolding fmt_conf_state_def by (rule fmt_map_ok) simp_all

lemma fmt_snapshot_ok [simp]: "fmt_ok fmt_snapshot"
  unfolding fmt_snapshot_def by (rule fmt_map_ok) simp_all

subsection \<open>The environment\<close>

definition env_over :: "mem_db rocksdb \<Rightarrow> mem_db env" where
  "env_over R =
     \<lparr>rocks = R,
      js_string = ref_serde CHR ''s'' fmt_string,
      js_wrap = ref_serde CHR ''{'' fmt_wrap,
      js_bytes = ref_serde CHR ''['' fmt_bytes,
      js_u64 = ref_serde CHR ''n'' fmt_u64,
      pb_entry = ref_prost fmt_entry,
      pb_hard_state = ref_prost fmt_hard_state,
      pb_conf_state = ref_prost fmt_conf_state,
      pb_snapshot = ref_prost fmt_snapshot,
      bc_uncommit = ref_bincode fmt_uncommit,
      bc_dump = ref_bincode fmt_dump\<rparr>"

definition ref_env :: "mem_db env" where
  "ref_env = env_over mem_rocksdb"

definition faulty_env :: "mem_db env" where
  "faulty_env = env_over faulty_rocksdb"

lemma put_dump_ne: "put_fmt fmt_dump d \<noteq> []"
  by (cases d) (simp_all add: fmt_dump_def fmt_list_def)

lemma bincode_map_laws_ref: "bincode_map_laws (ref_bincode fmt_uncommit)"
  by (simp add: bincode_map_laws_def ref_bincode_def get_put)

lemma bincode_dump_laws_ref: "bincode_dump_laws (ref_bincode fmt_dump)"
  by (simp add: bincode_dump_laws_def ref_bincode_def get_put put_dump_ne)

lemma env_over_laws: "rocksdb_laws R \<Longrightarrow> env_laws (env_over R)"
  by (simp add: env_laws_def env_over_def ref_serde_laws ref_prost_laws bincode_map_laws_ref
      bincode_dump_laws_ref char_byte_def)

lemma rocks_ref_env: "rocks ref_env = mem_rocksdb" "rocks faulty_env = faulty_rocksdb"
  by (simp_all add: ref_env_def faulty_env_def env_over_def)

lemma ref_env_up: "env_up ref_env"
  using env_over_laws [OF mem_rocksdb_laws] mem_rocksdb_up
  by (simp add: env_up_def ref_env_def env_over_def)

lemma faulty_env_laws: "env_laws faulty_env"
  using env_over_laws [OF faulty_rocksdb_laws] by (simp add: faulty_env_def)

interpretation ref: storage_env ref_env
  by unfold_locales (rule ref_env_up)

lemma mem_view_Nil [simp]: "db_view mem_rocksdb [] cf k = None"
  by (simp add: mem_rocksdb_def mem_view_def)

lemma cell_ref_Nil [simp]: "cell (rocks ref_env) [] k = None"
  by (simp add: cell_def rocks_ref_env)

lemma utf8_keys_ref_Nil [simp]: "utf8_keys (rocks ref_env) [] cf"
  by (auto simp: utf8_keys_def dom_def rocks_ref_env)

end
