(* ===== verification/Storage_Keys.thy ===== *)
theory Storage_Keys
  imports Rust_Text
begin

section \<open>Storage keys (src/placement-center/src/storage/keys.rs)\<close>

text \<open>
  One definition per function of \<open>keys.rs\<close>, in the order of the file.  The lemmas say which of
  the keys are distinct: the Raft keys never clash with each other, a key joined from
  slash-free parts determines its parts, and every key of a family carries the family's prefix.
\<close>

subsection \<open>Raft\<close>

definition key_name_by_first_index :: string where
  "key_name_by_first_index = ''/raft/first_index''"

definition key_name_by_last_index :: string where
  "key_name_by_last_index = ''/raft/last_index''"

definition key_name_by_hard_state :: string where
  "key_name_by_hard_state = ''/raft/hard_state''"

definition key_name_by_conf_state :: string where
  "key_name_by_conf_state = ''/raft/conf_state''"

definition key_name_by_entry :: "u64 \<Rightarrow> string" where
  "key_name_by_entry idx = ''/raft/entry/'' @ show_u64 idx"

definition key_name_uncommit :: string where
  "key_name_uncommit = ''/raft/uncommit_index''"

definition key_name_snapshot :: string where
  "key_name_snapshot = ''/raft/snapshot''"

subsection \<open>Cluster\<close>

definition key_cluster :: "string \<Rightarrow> string \<Rightarrow> string" where
  "key_cluster cluster_type cluster_name =
     ''/clusters/'' @ cluster_type @ ''/'' @ cluster_name"

definition key_cluster_prefix :: string where
  "key_cluster_prefix = ''/clusters/''"

definition key_cluster_prefix_by_type :: "string \<Rightarrow> string" where
  "key_cluster_prefix_by_type cluster_type = ''/clusters/'' @ cluster_type"

definition key_node :: "string \<Rightarrow> u64 \<Rightarrow> string" where
  "key_node cluster_name node_id =
     ''/clusters/node/'' @ cluster_name @ ''/'' @ show_u64 node_id"

definition key_node_prefix :: "string \<Rightarrow> string" where
  "key_node_prefix cluster_name = ''/clusters/node/'' @ cluster_name"

definition key_node_prefix_all :: string where
  "key_node_prefix_all = ''/clusters/node/''"

definition key_resource_config :: "string \<Rightarrow> string \<Rightarrow> string" where
  "key_resource_config cluster_name resource_key =
     ''/config/'' @ cluster_name @ ''/'' @ resource_key"

definition key_resource_idempotent :: "string \<Rightarrow> string \<Rightarrow> u64 \<Rightarrow> string" where
  "key_resource_idempotent cluster_name produce_id seq_num =
     ''/idempotent/'' @ cluster_name @ ''/'' @ produce_id @ ''/'' @ show_u64 seq_num"

subsection \<open>Journal\<close>

definition key_shard :: "string \<Rightarrow> string \<Rightarrow> string" where
  "key_shard cluster_name shard_name =
     ''/journal/shard/'' @ cluster_name @ ''/'' @ shard_name"

definition key_shard_prefix :: "string \<Rightarrow> string" where
  "key_shard_prefix cluster_name = ''/journal/shard/'' @ cluster_name"

definition key_segment :: "string \<Rightarrow> string \<Rightarrow> u64 \<Rightarrow> string" where
  "key_segment cluster_name shard_name segement_seq =
     ''/journal/segment/'' @ cluster_name @ ''/'' @ shard_name @ ''/'' @ show_u64 segement_seq"

definition key_segment_cluster_prefix :: "string \<Rightarrow> string" where
  "key_segment_cluster_prefix cluster_name = ''/journal/segment/'' @ cluster_name"

definition key_segment_shard_prefix :: "string \<Rightarrow> string \<Rightarrow> string" where
  "key_segment_shard_prefix cluster_name shard_name =
     ''/journal/segment/'' @ cluster_name @ ''/'' @ shard_name"

subsection \<open>MQTT\<close>

definition storage_key_mqtt_user :: "string \<Rightarrow> string \<Rightarrow> string" where
  "storage_key_mqtt_user cluster_name user_name =
     ''/mqtt/user/'' @ cluster_name @ ''/'' @ user_name"

definition storage_key_mqtt_user_cluster_prefix :: "string \<Rightarrow> string" where
  "storage_key_mqtt_user_cluster_prefix cluster_name = ''/mqtt/user/'' @ cluster_name"

definition storage_key_mqtt_topic :: "string \<Rightarrow> string \<Rightarrow> string" where
  "storage_key_mqtt_topic cluster_name user_name =
     ''/mqtt/topic/'' @ cluster_name @ ''/'' @ user_name"

definition storage_key_mqtt_topic_cluster_prefix :: "string \<Rightarrow> string" where
  "storage_key_mqtt_topic_cluster_prefix cluster_name = ''/mqtt/topic/'' @ cluster_name"

definition storage_key_mqtt_session :: "string \<Rightarrow> string \<Rightarrow> string" where
  "storage_key_mqtt_session cluster_name client_id =
     ''/mqtt/session/'' @ cluster_name @ ''/'' @ client_id"

definition storage_key_mqtt_session_cluster_prefix :: "string \<Rightarrow> string" where
  "storage_key_mqtt_session_cluster_prefix cluster_name = ''/mqtt/session/'' @ cluster_name"

definition storage_key_mqtt_last_will :: "string \<Rightarrow> string \<Rightarrow> string" where
  "storage_key_mqtt_last_will cluster_name client_id =
     ''/mqtt/lastwill/'' @ cluster_name @ ''/'' @ client_id"

definition storage_key_mqtt_last_will_prefix :: "string \<Rightarrow> string" where
  "storage_key_mqtt_last_will_prefix cluster_name = ''/mqtt/lastwill/'' @ cluster_name"

definition storage_key_mqtt_node_sub_group_leader :: "string \<Rightarrow> string" where
  "storage_key_mqtt_node_sub_group_leader cluster_name =
     ''/mqtt/sub_group_leader/'' @ cluster_name"

definition storage_key_mqtt_acl :: "string \<Rightarrow> string \<Rightarrow> string \<Rightarrow> string" where
  "storage_key_mqtt_acl cluster_name resource_type resource_name =
     ''/mqtt/acl/'' @ cluster_name @ ''/'' @ resource_type @ ''/'' @ resource_name"

definition storage_key_mqtt_acl_prefix :: "string \<Rightarrow> string" where
  "storage_key_mqtt_acl_prefix cluster_name = ''/mqtt/acl/'' @ cluster_name"

definition storage_key_mqtt_blacklist :: "string \<Rightarrow> string \<Rightarrow> string \<Rightarrow> string" where
  "storage_key_mqtt_blacklist cluster_name black_list_type resource_name =
     ''/mqtt/blacklist/'' @ cluster_name @ ''/'' @ black_list_type @ ''/'' @ resource_name"

definition storage_key_mqtt_blacklist_prefix :: "string \<Rightarrow> string" where
  "storage_key_mqtt_blacklist_prefix cluster_name = ''/mqtt/blacklist/'' @ cluster_name"

subsection \<open>The Raft keys are pairwise distinct\<close>

lemmas raft_key_defs =
  key_name_by_first_index_def key_name_by_last_index_def key_name_by_hard_state_def
  key_name_by_conf_state_def key_name_by_entry_def key_name_uncommit_def key_name_snapshot_def

definition raft_meta_keys :: "string list" where
  "raft_meta_keys =
     [key_name_by_first_index, key_name_by_last_index, key_name_by_hard_state,
      key_name_by_conf_state, key_name_uncommit, key_name_snapshot]"

definition raft_namespace :: "string \<Rightarrow> bool" where
  "raft_namespace k \<longleftrightarrow> prefix ''/raft/'' k"

lemma entry_key_inject [simp]: "key_name_by_entry i = key_name_by_entry j \<longleftrightarrow> i = j"
  by (simp add: key_name_by_entry_def)

lemma entry_key_not_meta [simp]: "key_name_by_entry i \<notin> set raft_meta_keys"
  by (simp add: raft_meta_keys_def raft_key_defs)

lemma distinct_raft_meta_keys: "distinct raft_meta_keys"
  by (simp add: raft_meta_keys_def raft_key_defs)

lemma raft_keys_ne [simp]:
  "key_name_by_entry i \<noteq> key_name_by_first_index"
  "key_name_by_entry i \<noteq> key_name_by_last_index"
  "key_name_by_entry i \<noteq> key_name_by_hard_state"
  "key_name_by_entry i \<noteq> key_name_by_conf_state"
  "key_name_by_entry i \<noteq> key_name_uncommit"
  "key_name_by_entry i \<noteq> key_name_snapshot"
  "key_name_by_first_index \<noteq> key_name_by_entry i"
  "key_name_by_last_index \<noteq> key_name_by_entry i"
  "key_name_by_hard_state \<noteq> key_name_by_entry i"
  "key_name_by_conf_state \<noteq> key_name_by_entry i"
  "key_name_uncommit \<noteq> key_name_by_entry i"
  "key_name_snapshot \<noteq> key_name_by_entry i"
  by (simp_all add: raft_key_defs)

lemma raft_meta_ne [simp]:
  "key_name_by_first_index \<noteq> key_name_by_last_index"
  "key_name_by_first_index \<noteq> key_name_by_hard_state"
  "key_name_by_first_index \<noteq> key_name_by_conf_state"
  "key_name_by_first_index \<noteq> key_name_uncommit"
  "key_name_by_first_index \<noteq> key_name_snapshot"
  "key_name_by_last_index \<noteq> key_name_by_hard_state"
  "key_name_by_last_index \<noteq> key_name_by_conf_state"
  "key_name_by_last_index \<noteq> key_name_uncommit"
  "key_name_by_last_index \<noteq> key_name_snapshot"
  "key_name_by_hard_state \<noteq> key_name_by_conf_state"
  "key_name_by_hard_state \<noteq> key_name_uncommit"
  "key_name_by_hard_state \<noteq> key_name_snapshot"
  "key_name_by_conf_state \<noteq> key_name_uncommit"
  "key_name_by_conf_state \<noteq> key_name_snapshot"
  "key_name_uncommit \<noteq> key_name_snapshot"
  by (simp_all add: raft_key_defs)

lemmas raft_meta_ne_sym [simp] = raft_meta_ne [symmetric]

lemma raft_namespace_meta [simp]:
  "raft_namespace key_name_by_first_index" "raft_namespace key_name_by_last_index"
  "raft_namespace key_name_by_hard_state" "raft_namespace key_name_by_conf_state"
  "raft_namespace key_name_uncommit" "raft_namespace key_name_snapshot"
  "raft_namespace (key_name_by_entry i)"
  by (simp_all add: raft_namespace_def raft_key_defs)

lemma rust_str_raft_keys [simp]:
  "rust_str key_name_by_first_index" "rust_str key_name_by_last_index"
  "rust_str key_name_by_hard_state" "rust_str key_name_by_conf_state"
  "rust_str key_name_uncommit" "rust_str key_name_snapshot"
  "rust_str (key_name_by_entry i)"
  by (rule rust_str_ascii; simp add: raft_key_defs char_byte_def)+

text \<open>
  The keys under which Raft keeps its log and its metadata never clash: entries of different
  indexes have different keys, the six metadata keys are pairwise distinct, and no entry key
  equals a metadata key.
\<close>

lemma raft_keys_disjoint:
  "distinct raft_meta_keys \<and> inj key_name_by_entry \<and>
   range key_name_by_entry \<inter> set raft_meta_keys = {}"
  by (auto simp: distinct_raft_meta_keys inj_def)

subsection \<open>Keys determine their parts\<close>

text \<open>
  A shard key, a segment key, a node key and an idempotence key determine the cluster, shard,
  producer and number they were built from, provided the cluster name (and for keys of three
  parts the middle name) holds no slash.
\<close>

lemma journal_keys_injective:
  "(no_slash c \<and> no_slash c' \<longrightarrow>
      key_shard c s = key_shard c' s' \<longleftrightarrow> c = c' \<and> s = s') \<and>
   (no_slash c \<and> no_slash c' \<and> no_slash s \<and> no_slash s' \<longrightarrow>
      key_segment c s n = key_segment c' s' n' \<longleftrightarrow> c = c' \<and> s = s' \<and> n = n') \<and>
   (no_slash c \<and> no_slash c' \<longrightarrow>
      key_node c n = key_node c' n' \<longleftrightarrow> c = c' \<and> n = n') \<and>
   (no_slash c \<and> no_slash c' \<and> no_slash s \<and> no_slash s' \<longrightarrow>
      key_resource_idempotent c s n = key_resource_idempotent c' s' n' \<longleftrightarrow>
        c = c' \<and> s = s' \<and> n = n')"
  by (auto simp: key_shard_def key_segment_def key_node_def key_resource_idempotent_def slash_split)

lemma journal_keys_injective_witness:
  "no_slash ''c1'' \<and> no_slash ''c2'' \<and> key_shard ''c1'' ''s'' \<noteq> key_shard ''c2'' ''s''
   \<and> key_segment ''c1'' ''s'' 1 \<noteq> key_segment ''c1'' ''s'' 2"
  using journal_keys_injective [of "''c1''" "''c2''" "''s''" "''s''" 1 1]
    journal_keys_injective [of "''c1''" "''c1''" "''s''" "''s''" 1 2]
  by (simp add: no_slash_def)

text \<open>
  Every key of a family carries the prefix its listing uses; but because the prefix functions add
  no closing slash, the listing prefix of one cluster or shard is also a prefix of the keys of
  another whose name extends it.
\<close>

lemma family_prefixes:
  "prefix (key_shard_prefix c) (key_shard c s)"
  "prefix (key_segment_cluster_prefix c) (key_segment c s n)"
  "prefix (key_segment_shard_prefix c s) (key_segment c s n)"
  "prefix (key_node_prefix c) (key_node c n)"
  "prefix key_node_prefix_all (key_node c n)"
  "prefix (key_cluster_prefix_by_type t) (key_cluster t c)"
  "prefix key_cluster_prefix (key_cluster t c)"
  "prefix (storage_key_mqtt_user_cluster_prefix c) (storage_key_mqtt_user c u)"
  "prefix (storage_key_mqtt_topic_cluster_prefix c) (storage_key_mqtt_topic c u)"
  "prefix (storage_key_mqtt_session_cluster_prefix c) (storage_key_mqtt_session c u)"
  "prefix (storage_key_mqtt_last_will_prefix c) (storage_key_mqtt_last_will c u)"
  "prefix (storage_key_mqtt_acl_prefix c) (storage_key_mqtt_acl c t u)"
  "prefix (storage_key_mqtt_blacklist_prefix c) (storage_key_mqtt_blacklist c t u)"
  by (simp_all add: key_shard_prefix_def key_shard_def key_segment_cluster_prefix_def
      key_segment_def key_segment_shard_prefix_def key_node_prefix_def key_node_def
      key_node_prefix_all_def key_cluster_prefix_by_type_def key_cluster_def
      key_cluster_prefix_def storage_key_mqtt_user_cluster_prefix_def storage_key_mqtt_user_def
      storage_key_mqtt_topic_cluster_prefix_def storage_key_mqtt_topic_def
      storage_key_mqtt_session_cluster_prefix_def storage_key_mqtt_session_def
      storage_key_mqtt_last_will_prefix_def storage_key_mqtt_last_will_def
      storage_key_mqtt_acl_prefix_def storage_key_mqtt_acl_def
      storage_key_mqtt_blacklist_prefix_def storage_key_mqtt_blacklist_def)

lemma prefix_slash_end:
  "no_slash c \<Longrightarrow> no_slash d \<Longrightarrow> prefix c (d @ CHR ''/'' # t) \<longleftrightarrow> prefix c d"
  unfolding no_slash_def
  by (induction c arbitrary: d) (case_tac d; auto)+

text \<open>
  The listing prefix of a cluster selects a node key exactly when the cluster's name is a
  prefix of the key's cluster name: every node of the cluster is found, and so are the nodes of
  every cluster whose name merely extends it.
\<close>

lemma node_prefix_selects:
  assumes "no_slash c" and "no_slash d"
  shows "prefix (key_node_prefix c) (key_node d n) \<longleftrightarrow> prefix c d"
  using assms by (simp add: key_node_prefix_def key_node_def prefix_slash_end)

lemma node_prefix_selects_witness:
  "no_slash ''c1'' \<and> prefix (key_node_prefix ''c1'') (key_node ''c12'' 7)"
  using node_prefix_selects [of "''c1''" "''c12''" 7] by (simp add: no_slash_def)

end
