(* ===== verification/Kv_Contract.thy ===== *)
theory Kv_Contract
  imports Prelude
begin

section \<open>The contract of a key-value state machine\<close>

text \<open>
  Both consensus paths end in a component that applies committed commands to a string map:
  \<open>KvStorage\<close> over RocksDB and \<open>StateMachineStore\<close> over a \<open>BTreeMap\<close>.  This theory states
  the abstract machine (commands on a map), the interface a component offers for it, and what
  follows from the interface alone; the components' theories interpret it.
\<close>

datatype kv_cmd = CmdSet string string | CmdDelete string

fun cmd_key :: "kv_cmd \<Rightarrow> string" where
  "cmd_key (CmdSet k v) = k"
| "cmd_key (CmdDelete k) = k"

fun spec_cmd :: "kv_cmd \<Rightarrow> (string \<Rightarrow> string option) \<Rightarrow> string \<Rightarrow> string option" where
  "spec_cmd (CmdSet k v) m = m(k \<mapsto> v)"
| "spec_cmd (CmdDelete k) m = m(k := None)"

definition spec_run :: "kv_cmd list \<Rightarrow> (string \<Rightarrow> string option) \<Rightarrow> string \<Rightarrow> string option" where
  "spec_run cs m = fold spec_cmd cs m"

text \<open>The value a run of commands leaves at a key: that of the last command on the key.\<close>

fun last_value :: "kv_cmd list \<Rightarrow> string \<Rightarrow> string option option" where
  "last_value [] k = None"
| "last_value (c # cs) k =
     (case last_value cs k of
        Some r \<Rightarrow> Some r
      | None \<Rightarrow> if cmd_key c = k
                then Some (case c of CmdSet _ v \<Rightarrow> Some v | CmdDelete _ \<Rightarrow> None) else None)"

lemma spec_run_last_value:
  "spec_run cs m k = (case last_value cs k of None \<Rightarrow> m k | Some r \<Rightarrow> r)"
proof (induction cs arbitrary: m)
  case Nil
  then show ?case by (simp add: spec_run_def)
next
  case (Cons c cs)
  have "spec_run (c # cs) m k = spec_run cs (spec_cmd c m) k" by (simp add: spec_run_def)
  also have "\<dots> = (case last_value cs k of None \<Rightarrow> spec_cmd c m k | Some r \<Rightarrow> r)"
    by (rule Cons.IH)
  finally show ?case by (cases c) (auto split: option.splits)
qed

lemma spec_run_append: "spec_run (cs @ ds) m = spec_run ds (spec_run cs m)"
  by (simp add: spec_run_def)

text \<open>
  Running commands on a component: \<open>kset\<close> also takes what the environment supplied to the call
  (the clock reading for \<open>KvStorage\<close>), so a run is a list of commands with these inputs.
\<close>

fun exec_cmd ::
  "('x \<Rightarrow> 'st \<Rightarrow> string \<Rightarrow> string \<Rightarrow> 'st \<times> ('e + unit)) \<Rightarrow> ('st \<Rightarrow> string \<Rightarrow> 'st \<times> ('e + unit)) \<Rightarrow>
   'x \<times> kv_cmd \<Rightarrow> 'st \<Rightarrow> 'st" where
  "exec_cmd kset kdel (x, CmdSet k v) s = fst (kset x s k v)"
| "exec_cmd kset kdel (x, CmdDelete k) s = fst (kdel s k)"

definition run_cmds ::
  "('x \<Rightarrow> 'st \<Rightarrow> string \<Rightarrow> string \<Rightarrow> 'st \<times> ('e + unit)) \<Rightarrow> ('st \<Rightarrow> string \<Rightarrow> 'st \<times> ('e + unit)) \<Rightarrow>
   ('x \<times> kv_cmd) list \<Rightarrow> 'st \<Rightarrow> 'st" where
  "run_cmds kset kdel cs s = fold (exec_cmd kset kdel) cs s"

locale kv_store =
  fixes kset :: "'x \<Rightarrow> 'st \<Rightarrow> string \<Rightarrow> string \<Rightarrow> 'st \<times> ('e + unit)"
    and kdel :: "'st \<Rightarrow> string \<Rightarrow> 'st \<times> ('e + unit)"
    and kget :: "'st \<Rightarrow> string \<Rightarrow> 'e + string option"
    and ok :: "'st \<Rightarrow> bool"
    and user_key :: "string \<Rightarrow> bool"
    and abs :: "'st \<Rightarrow> string \<Rightarrow> string option"
  assumes set_result: "ok s \<Longrightarrow> user_key k \<Longrightarrow> snd (kset x s k v) = Inr ()"
    and set_ok: "ok s \<Longrightarrow> user_key k \<Longrightarrow> ok (fst (kset x s k v))"
    and set_abs: "ok s \<Longrightarrow> user_key k \<Longrightarrow> abs (fst (kset x s k v)) = (abs s)(k \<mapsto> v)"
    and del_result: "ok s \<Longrightarrow> user_key k \<Longrightarrow> snd (kdel s k) = Inr ()"
    and del_ok: "ok s \<Longrightarrow> user_key k \<Longrightarrow> ok (fst (kdel s k))"
    and del_abs: "ok s \<Longrightarrow> user_key k \<Longrightarrow> abs (fst (kdel s k)) = (abs s)(k := None)"
    and get_abs: "ok s \<Longrightarrow> user_key k \<Longrightarrow> kget s k = Inr (abs s k)"
begin

abbreviation "run \<equiv> run_cmds kset kdel"

lemma exec_cmd_refines:
  "ok s \<Longrightarrow> user_key (cmd_key (snd c)) \<Longrightarrow>
     ok (exec_cmd kset kdel c s) \<and> abs (exec_cmd kset kdel c s) = spec_cmd (snd c) (abs s)"
  by (cases "(kset, kdel, c, s)" rule: exec_cmd.cases) (simp_all add: set_ok set_abs del_ok del_abs)

lemma run_refines:
  "ok s \<Longrightarrow> \<forall>c \<in> snd ` set cs. user_key (cmd_key c) \<Longrightarrow>
     ok (run cs s) \<and> abs (run cs s) = spec_run (map snd cs) (abs s)"
proof (induction cs arbitrary: s)
  case Nil
  then show ?case by (simp add: run_cmds_def spec_run_def)
next
  case (Cons c cs)
  then have "ok (exec_cmd kset kdel c s)"
    and "abs (exec_cmd kset kdel c s) = spec_cmd (snd c) (abs s)"
    using exec_cmd_refines [of s c] by simp_all
  with Cons show ?case by (simp add: run_cmds_def spec_run_def)
qed

lemma get_after_run:
  "ok s \<Longrightarrow> \<forall>c \<in> snd ` set cs. user_key (cmd_key c) \<Longrightarrow> user_key k \<Longrightarrow>
     kget (run cs s) k =
       Inr (case last_value (map snd cs) k of None \<Rightarrow> abs s k | Some r \<Rightarrow> r)"
  by (simp add: run_refines get_abs spec_run_last_value)

lemma replicas_agree:
  "ok s \<Longrightarrow> ok t \<Longrightarrow> abs s = abs t \<Longrightarrow> map snd cs = map snd ds \<Longrightarrow>
     \<forall>c \<in> snd ` set cs. user_key (cmd_key c) \<Longrightarrow> user_key k \<Longrightarrow>
     kget (run cs s) k = kget (run ds t) k"
  by (metis get_after_run list.set_map)

end

end
