(* ===== verification/Kv_Storage.thy ===== *)
theory Kv_Storage
  imports Ref_Storage_Env Storage_Keys Kv_Contract
begin

section \<open>The storage engine functions and KvStorage\<close>

text \<open>
  \<open>src/placement-center/src/storage/engine.rs\<close> and \<open>kv.rs\<close>: values are wrapped with their
  creation time, serialized with serde_json and kept in the \<open>cluster\<close> column family.  The
  engine shares that family with the Raft metadata, so the contract of \<open>KvStorage\<close> holds for
  the keys outside the Raft namespace, and the last section shows what happens inside it.
\<close>

subsection \<open>engine.rs\<close>

definition engine_save ::
  "'db env \<Rightarrow> 'a serde \<Rightarrow> u64 \<Rightarrow> 'db \<Rightarrow> string \<Rightarrow> string \<Rightarrow> 'a \<Rightarrow> 'db \<times> (robust_error + unit)" where
  "engine_save E S now db rocksdb_cluster key_name value =
     (if rocksdb_cluster = DB_COLUMN_FAMILY_CLUSTER then
        (case js_to_vec S value of
           Inr content \<Rightarrow>
             (case db_write (rocks E) (js_wrap E) db cf_cluster key_name (storage_data_wrap_new now content) of
                (db', Inr _) \<Rightarrow> (db', Inr ())
              | (db', Inl e) \<Rightarrow> (db', Inl (CommmonError e)))
         | Inl e \<Rightarrow> (db, Inl (CommmonError (err_display e))))
      else (db, Inl ClusterNoAvailableNode))"

definition engine_get ::
  "'db env \<Rightarrow> 'db \<Rightarrow> string \<Rightarrow> string \<Rightarrow> robust_error + storage_data_wrap option" where
  "engine_get E db rocksdb_cluster key_name =
     (if rocksdb_cluster = DB_COLUMN_FAMILY_CLUSTER then
        (case db_read (rocks E) (js_wrap E) db cf_cluster key_name of
           Inr (Some d) \<Rightarrow> Inr (Some d)
         | Inr None \<Rightarrow> Inr None
         | Inl e \<Rightarrow> Inl (CommmonError e))
      else Inl ClusterNoAvailableNode)"

definition engine_delete ::
  "'db env \<Rightarrow> 'db \<Rightarrow> string \<Rightarrow> string \<Rightarrow> 'db \<times> (robust_error + unit)" where
  "engine_delete E db rocksdb_cluster key_name =
     (if rocksdb_cluster = DB_COLUMN_FAMILY_CLUSTER then db_remove (rocks E) db cf_cluster key_name
      else (db, Inl ClusterNoAvailableNode))"

definition engine_exists :: "'db env \<Rightarrow> 'db \<Rightarrow> string \<Rightarrow> string \<Rightarrow> robust_error + bool" where
  "engine_exists E db rocksdb_cluster key_name =
     (if rocksdb_cluster = DB_COLUMN_FAMILY_CLUSTER then Inr (db_exist (rocks E) db cf_cluster key_name)
      else Inl ClusterNoAvailableNode)"

text \<open>The two nested loops of \<open>engine_prefix_list\<close>: cells that do not parse are skipped.\<close>

fun collect_wraps :: "storage_data_wrap serde \<Rightarrow> (string \<times> bytes) list \<Rightarrow> storage_data_wrap list" where
  "collect_wraps S [] = []"
| "collect_wraps S ((k, v) # raw) =
     (case js_from_slice S v of
        Inr w \<Rightarrow> w # collect_wraps S raw
      | Inl _ \<Rightarrow> collect_wraps S raw)"

text \<open>The outer \<open>option\<close> is the scan's: \<open>None\<close> when it does not return.\<close>

definition engine_prefix_list ::
  "'db env \<Rightarrow> 'db \<Rightarrow> string \<Rightarrow> string \<Rightarrow> (robust_error + storage_data_wrap list) option" where
  "engine_prefix_list E db rocksdb_cluster prefix_key_name =
     (if rocksdb_cluster = DB_COLUMN_FAMILY_CLUSTER then
        (case read_prefix (rocks E) db cf_cluster prefix_key_name of
           None \<Rightarrow> None
         | Some data_list \<Rightarrow> Some (Inr (concat (map (collect_wraps (js_wrap E)) data_list))))
      else Some (Inl ClusterNoAvailableNode))"

definition engine_save_by_cluster ::
  "'db env \<Rightarrow> 'a serde \<Rightarrow> u64 \<Rightarrow> 'db \<Rightarrow> string \<Rightarrow> 'a \<Rightarrow> 'db \<times> (robust_error + unit)" where
  "engine_save_by_cluster E S now db key_name value =
     engine_save E S now db DB_COLUMN_FAMILY_CLUSTER key_name value"

definition engine_get_by_cluster ::
  "'db env \<Rightarrow> 'db \<Rightarrow> string \<Rightarrow> robust_error + storage_data_wrap option" where
  "engine_get_by_cluster E db key_name = engine_get E db DB_COLUMN_FAMILY_CLUSTER key_name"

definition engine_exists_by_cluster :: "'db env \<Rightarrow> 'db \<Rightarrow> string \<Rightarrow> robust_error + bool" where
  "engine_exists_by_cluster E db key_name = engine_exists E db DB_COLUMN_FAMILY_CLUSTER key_name"

definition engine_delete_by_cluster ::
  "'db env \<Rightarrow> 'db \<Rightarrow> string \<Rightarrow> 'db \<times> (robust_error + unit)" where
  "engine_delete_by_cluster E db key_name = engine_delete E db DB_COLUMN_FAMILY_CLUSTER key_name"

definition engine_prefix_list_by_cluster ::
  "'db env \<Rightarrow> 'db \<Rightarrow> string \<Rightarrow> (robust_error + storage_data_wrap list) option" where
  "engine_prefix_list_by_cluster E db prefix_key_name =
     engine_prefix_list E db DB_COLUMN_FAMILY_CLUSTER prefix_key_name"

subsection \<open>kv.rs\<close>

definition kv_set :: "'db env \<Rightarrow> u64 \<Rightarrow> 'db \<Rightarrow> string \<Rightarrow> string \<Rightarrow> 'db \<times> (robust_error + unit)" where
  "kv_set E now db key value = engine_save_by_cluster E (js_string E) now db key value"

definition kv_delete :: "'db env \<Rightarrow> 'db \<Rightarrow> string \<Rightarrow> 'db \<times> (robust_error + unit)" where
  "kv_delete E db key = engine_delete_by_cluster E db key"

definition kv_get :: "'db env \<Rightarrow> 'db \<Rightarrow> string \<Rightarrow> robust_error + string option" where
  "kv_get E db key =
     (case engine_get_by_cluster E db key of
        Inr (Some d) \<Rightarrow>
          (case js_from_slice (js_string E) (wrap_data d) of
             Inr v \<Rightarrow> Inr (Some v)
           | Inl e \<Rightarrow> Inl (SerdeJsonError e))
      | Inr None \<Rightarrow> Inr None
      | Inl e \<Rightarrow> Inl e)"

definition kv_exists :: "'db env \<Rightarrow> 'db \<Rightarrow> string \<Rightarrow> robust_error + bool" where
  "kv_exists E db key = engine_exists_by_cluster E db key"

subsection \<open>The contract\<close>

text \<open>
  What a cell holds for \<open>KvStorage\<close>, the map a database stands for, and the invariant: outside
  the Raft namespace every cell can be read back.
\<close>

definition cell_value :: "'db env \<Rightarrow> bytes \<Rightarrow> robust_error + string" where
  "cell_value E b =
     (case decode_cell (js_wrap E) b of
        Inl e \<Rightarrow> Inl (CommmonError e)
      | Inr w \<Rightarrow> map_err SerdeJsonError (js_from_slice (js_string E) (wrap_data w)))"

definition kv_abs :: "'db env \<Rightarrow> 'db \<Rightarrow> string \<Rightarrow> string option" where
  "kv_abs E db k =
     (case cell (rocks E) db k of
        None \<Rightarrow> None
      | Some b \<Rightarrow> (case cell_value E b of Inr v \<Rightarrow> Some v | Inl _ \<Rightarrow> None))"

definition kv_user_key :: "string \<Rightarrow> bool" where
  "kv_user_key k \<longleftrightarrow> \<not> raft_namespace k"

definition kv_readable :: "'db env \<Rightarrow> 'db \<Rightarrow> bool" where
  "kv_readable E db \<longleftrightarrow>
     (\<forall>k b. kv_user_key k \<longrightarrow> cell (rocks E) db k = Some b \<longrightarrow> is_ok (cell_value E b))"

text \<open>The cell that \<open>KvStorage::set\<close> writes.\<close>

definition kv_cell :: "'db env \<Rightarrow> u64 \<Rightarrow> string \<Rightarrow> bytes" where
  "kv_cell E now v =
     str_bytes (js_text (js_wrap E)
       (storage_data_wrap_new now (str_bytes (js_text (js_string E) v))))"

lemmas kv_defs = kv_set_def kv_delete_def kv_exists_def engine_save_by_cluster_def
  engine_get_by_cluster_def engine_delete_by_cluster_def engine_exists_by_cluster_def
  engine_save_def engine_get_def engine_delete_def engine_exists_def

context storage_env
begin

lemma cell_value_kv_cell [simp]: "cell_value E (kv_cell E now v) = Inr v"
  by (simp add: cell_value_def kv_cell_def storage_data_wrap_new_def
      serde_type.serde_eqs [OF serde_type.intro])

lemma kv_set_effect:
  "snd (kv_set E now db key v) = Inr () \<and>
   cell (rocks E) (fst (kv_set E now db key v)) k =
     (if k = key then Some (kv_cell E now v) else cell (rocks E) db k)"
proof -
  let ?w = "storage_data_wrap_new now (str_bytes (js_text (js_string E) v))"
  obtain db' r where w: "db_write (rocks E) (js_wrap E) db cf_cluster key ?w = (db', r)"
    by (cases "db_write (rocks E) (js_wrap E) db cf_cluster key ?w")
  have "r = Inr ()"
    using db_write_ok [of "js_wrap E" db cf_cluster key ?w] w by simp
  moreover have "cell (rocks E) db' k = (if k = key then Some (kv_cell E now v) else cell (rocks E) db k)"
    using cell_db_write [of "js_wrap E" db key ?w k] w by (simp add: kv_cell_def)
  ultimately show ?thesis
    using w by (simp add: kv_defs serde_type.serde_eqs [OF serde_type.intro])
qed

lemma kv_set_ok [view_simps]: "snd (kv_set E now db key v) = Inr ()"
  using kv_set_effect by blast

lemma cell_kv_set [view_simps]:
  "cell (rocks E) (fst (kv_set E now db key v)) k =
     (if k = key then Some (kv_cell E now v) else cell (rocks E) db k)"
  using kv_set_effect by blast

lemma kv_delete_ok [view_simps]: "snd (kv_delete E db key) = Inr ()"
  by (simp add: kv_defs db_remove_ok)

lemma cell_kv_delete [view_simps]:
  "cell (rocks E) (fst (kv_delete E db key)) k = (if k = key then None else cell (rocks E) db k)"
  by (simp add: kv_defs cell_db_remove)

lemma kv_get_cell:
  "kv_get E db k =
     (case cell (rocks E) db k of
        None \<Rightarrow> Inr None
      | Some b \<Rightarrow> (case cell_value E b of Inr v \<Rightarrow> Inr (Some v) | Inl e \<Rightarrow> Inl e))"
  by (auto simp: kv_get_def kv_defs db_read_cell cell_value_def
      split: option.splits sum.splits elim!: map_err.elims)

lemma kv_abs_set: "kv_abs E (fst (kv_set E now db k v)) = (kv_abs E db)(k \<mapsto> v)"
  by (rule ext) (simp add: kv_abs_def cell_kv_set)

lemma kv_abs_delete: "kv_abs E (fst (kv_delete E db k)) = (kv_abs E db)(k := None)"
  by (rule ext) (simp add: kv_abs_def cell_kv_delete)

lemma kv_readable_set: "kv_readable E db \<Longrightarrow> kv_readable E (fst (kv_set E now db k v))"
  by (simp add: kv_readable_def cell_kv_set)

lemma kv_readable_delete: "kv_readable E db \<Longrightarrow> kv_readable E (fst (kv_delete E db k))"
  by (simp add: kv_readable_def cell_kv_delete)

lemma kv_get_abs: "kv_readable E db \<Longrightarrow> kv_user_key k \<Longrightarrow> kv_get E db k = Inr (kv_abs E db k)"
  by (fastforce simp: kv_get_cell kv_abs_def kv_readable_def is_ok_iff
      split: option.splits sum.splits)

end

sublocale storage_env \<subseteq> kv: kv_store "kv_set E" "kv_delete E" "kv_get E" "kv_readable E"
  kv_user_key "kv_abs E"
  by unfold_locales
    (simp_all add: kv_set_ok kv_readable_set kv_abs_set kv_delete_ok kv_readable_delete
      kv_abs_delete kv_get_abs)

context storage_env
begin

lemmas kv_map_behaviour = kv.get_after_run kv.run_refines kv.replicas_agree

end


subsection \<open>Properties\<close>

text \<open>The run of a list of commands, each with the clock reading of its call.\<close>

definition kv_run :: "'db env \<Rightarrow> (u64 \<times> kv_cmd) list \<Rightarrow> 'db \<Rightarrow> 'db" where
  "kv_run E cs db = run_cmds (kv_set E) (kv_delete E) cs db"

definition user_cmds :: "(u64 \<times> kv_cmd) list \<Rightarrow> bool" where
  "user_cmds cs \<longleftrightarrow> (\<forall>c \<in> snd ` set cs. kv_user_key (cmd_key c))"

lemma user_cmds_Nil [simp]: "user_cmds []"
  by (simp add: user_cmds_def)

lemma user_cmds_Cons [simp]:
  "user_cmds (c # cs) \<longleftrightarrow> kv_user_key (cmd_key (snd c)) \<and> user_cmds cs"
  by (simp add: user_cmds_def)

lemma kv_user_key_simps [simp]: "kv_user_key ''k1''" "kv_user_key ''k2''"
  by (simp_all add: kv_user_key_def raft_namespace_def)

lemma kv_readable_ref_Nil [simp]: "kv_readable ref_env []"
  by (simp add: kv_readable_def)

lemma kv_abs_ref_Nil [simp]: "kv_abs ref_env [] k = None"
  by (simp add: kv_abs_def)

lemma kv_get_of_run:
  assumes "env_up E" and "kv_readable E db" and "user_cmds cs" and "kv_user_key k"
  shows "kv_get E (kv_run E cs db) k =
     Inr (case last_value (map snd cs) k of None \<Rightarrow> kv_abs E db k | Some r \<Rightarrow> r)"
  unfolding kv_run_def
  by (rule storage_env.kv_map_behaviour(1) [OF storage_env.intro [OF assms(1)] assms(2)])
    (use assms in \<open>simp_all add: user_cmds_def\<close>)

text \<open>
  C10: \<open>KvStorage\<close> implements a string map.  From any database in which the keys outside the Raft
  namespace can be read, after any sequence of \<open>set\<close> and \<open>delete\<close> calls on such keys,
  \<open>get\<close> returns for every such key the value of the last \<open>set\<close> on it, nothing if the last call
  on it was \<open>delete\<close>, and what was there before if no call was on it.
\<close>

theorem kv_get_after_run:
  assumes "env_up E" and "kv_readable E db" and "user_cmds cs" and "kv_user_key k"
  shows "kv_get E (kv_run E cs db) k =
     Inr (case last_value (map snd cs) k of None \<Rightarrow> kv_abs E db k | Some r \<Rightarrow> r)"
  using assms by (rule kv_get_of_run)

lemma kv_get_after_run_witness:
  "kv_get ref_env (kv_run ref_env
     [(10, CmdSet ''k1'' ''a''), (11, CmdSet ''k2'' ''b''), (12, CmdSet ''k1'' ''c''),
      (13, CmdDelete ''k2'')] []) ''k1'' = Inr (Some ''c'')"
  by (subst kv_get_after_run) (simp_all add: ref_env_up)

lemma kv_run_cell:
  assumes "env_up E"
  shows "k \<notin> cmd_key ` snd ` set cs \<Longrightarrow> cell (rocks E) (kv_run E cs db) k = cell (rocks E) db k"
proof (induction cs arbitrary: db)
  case Nil
  then show ?case by (simp add: kv_run_def run_cmds_def)
next
  case (Cons c cs)
  note view = storage_env.cell_kv_set [OF storage_env.intro [OF assms]]
    storage_env.cell_kv_delete [OF storage_env.intro [OF assms]]
  obtain n d where c: "c = (n, d)" by (cases c)
  have "kv_run E (c # cs) db = kv_run E cs (exec_cmd (kv_set E) (kv_delete E) c db)"
    by (simp add: kv_run_def run_cmds_def)
  then show ?case using Cons by (cases d) (auto simp: c view)
qed

text \<open>
  \<open>KvStorage\<close> touches nothing but the keys it is called with: commands on keys outside the
  Raft namespace leave every cell of the Raft log and metadata, which lives in the same column
  family, byte for byte as it was.
\<close>

lemma kv_run_keeps_raft_cells:
  assumes "env_up E" and "user_cmds cs" and "raft_namespace k"
  shows "cell (rocks E) (kv_run E cs db) k = cell (rocks E) db k"
  using assms by (intro kv_run_cell) (auto simp: user_cmds_def kv_user_key_def)

lemma kv_run_keeps_raft_cells_witness:
  "cell (rocks ref_env) (kv_run ref_env [(1, CmdSet ''k1'' ''a'')] [((cf_cluster, str_bytes key_name_by_hard_state), [7])])
     key_name_by_hard_state = cell (rocks ref_env) [((cf_cluster, str_bytes key_name_by_hard_state), [7])] key_name_by_hard_state"
  by (rule kv_run_keeps_raft_cells [OF ref_env_up]) simp_all

text \<open>
  C35: A write of \<open>KvStorage\<close> is all or nothing: it either reports success and changes exactly the
  cell of its key, or reports a \<open>CommmonError\<close> (for \<open>delete\<close> a \<open>RocksdbError\<close>) and leaves the
  database's content unchanged.
\<close>

theorem kv_write_atomic:
  assumes "env_laws E"
  shows "(case kv_set E now db key v of
      (db', Inr _) \<Rightarrow> db_view (rocks E) db' = (db_view (rocks E) db)
          (cf_cluster := (db_view (rocks E) db cf_cluster)(str_bytes key \<mapsto> kv_cell E now v))
    | (db', Inl e) \<Rightarrow> (\<exists>m. e = CommmonError m) \<and> db_view (rocks E) db' = db_view (rocks E) db) \<and>
    (case kv_delete E db key of
      (db', Inr _) \<Rightarrow> db_view (rocks E) db' = (db_view (rocks E) db)
          (cf_cluster := (db_view (rocks E) db cf_cluster)(str_bytes key := None))
    | (db', Inl e) \<Rightarrow> (\<exists>x. e = RocksdbError x) \<and> db_view (rocks E) db' = db_view (rocks E) db)"
proof -
  have R: "rocksdb_laws (rocks E)" and S: "serde_laws (js_string E)" "serde_laws (js_wrap E)"
    using assms by (simp_all add: env_laws_def)
  note view = rocksdb_crate.put_view [OF rocksdb_crate.intro [OF R]]
    rocksdb_crate.delete_view [OF rocksdb_crate.intro [OF R]]
  have "serde_type (js_string E)" "serde_type (js_wrap E)" using S by (simp_all add: serde_type.intro)
  note texts = serde_type.serde_eqs [OF this(1)] serde_type.serde_eqs [OF this(2)]
  let ?b = "str_bytes (js_text (js_wrap E) (storage_data_wrap_new now (str_bytes (js_text (js_string E) v))))"
  show ?thesis
    using view(1) [of db cf_cluster "str_bytes key" ?b] view(2) [of db cf_cluster "str_bytes key"]
    by (cases "db_put (rocks E) db cf_cluster (str_bytes key) ?b";
        cases "snd (db_put (rocks E) db cf_cluster (str_bytes key) ?b)";
        cases "db_delete (rocks E) db cf_cluster (str_bytes key)";
        cases "snd (db_delete (rocks E) db cf_cluster (str_bytes key))")
      (simp_all add: kv_defs db_write_def db_remove_def texts kv_cell_def)
qed

lemma kv_write_atomic_witness:
  "\<exists>m. snd (kv_set faulty_env 5 [] ''k1'' ''a'') = Inl (CommmonError m)"
proof -
  have "snd (kv_set faulty_env 5 [] ''k1'' ''a'') \<noteq> Inr ()"
    by (simp add: kv_defs faulty_env_def env_over_def ref_serde_def db_write_def faulty_rocksdb_def)
  then show ?thesis
    using kv_write_atomic [OF faulty_env_laws, where now = 5 and db = "[]" and key = "''k1''" and v = "''a''"]
    by (cases "kv_set faulty_env 5 [] ''k1'' ''a''"; cases "snd (kv_set faulty_env 5 [] ''k1'' ''a'')") auto
qed

text \<open>
  \<open>KvStorage::exists\<close> never denies a key that is stored.
\<close>

lemma kv_exists_complete:
  assumes "env_laws E" and "kv_get E db k \<noteq> Inr None" and "is_ok (db_get (rocks E) db cf_cluster (str_bytes k))"
  shows "kv_exists E db k = Inr True"
proof -
  have C: "rocksdb_crate (rocks E)" using assms(1) by (simp add: env_laws_def rocksdb_crate.intro)
  have g: "db_get (rocks E) db cf_cluster (str_bytes k) = Inr (cell (rocks E) db k)"
    using rocksdb_crate.get_view [OF C assms(3)] by (simp add: cell_def)
  have "cell (rocks E) db k \<noteq> None"
    using assms(2) by (cases "cell (rocks E) db k") (simp_all add: kv_get_def kv_defs db_read_eq g)
  then show ?thesis
    using rocksdb_crate.may_exist [OF C, of db cf_cluster "str_bytes k"]
    by (auto simp: kv_defs db_exist_def cell_def)
qed

lemma kv_exists_complete_witness:
  "kv_exists ref_env (kv_run ref_env [(1, CmdSet ''k1'' ''a'')] []) ''k1'' = Inr True"
proof (rule kv_exists_complete)
  show "env_laws ref_env" using ref_env_up by (simp add: env_up_def)
  show "kv_get ref_env (kv_run ref_env [(1, CmdSet ''k1'' ''a'')] []) ''k1'' \<noteq> Inr None"
    by (simp add: kv_run_def run_cmds_def ref.kv_get_cell ref.cell_kv_set [simplified])
  show "is_ok (db_get (rocks ref_env) (kv_run ref_env [(1, CmdSet ''k1'' ''a'')] []) cf_cluster (str_bytes ''k1''))"
    by (simp add: ref.get_eq)
qed

text \<open>An environment whose database answers every \<open>key_may_exist_cf\<close> with true.\<close>

definition bloom_env :: "mem_db env" where
  "bloom_env = env_over (mem_rocksdb\<lparr>db_key_may_exist := \<lambda>d cf k. True\<rparr>)"

lemma bloom_laws: "rocksdb_laws (mem_rocksdb\<lparr>db_key_may_exist := \<lambda>d cf k. True\<rparr>)"
  using mem_rocksdb_laws by (simp add: rocksdb_laws_def mem_rocksdb_def cong: if_cong)

lemma bloom_env_up: "env_up bloom_env"
  using env_over_laws [OF bloom_laws]
  by (simp add: env_up_def bloom_env_def env_over_def rocksdb_up_def mem_rocksdb_def)

text \<open>
  The converse fails.  \<open>exists\<close> asks \<open>key_may_exist_cf\<close>, which is allowed false positives: on
  some database obeying every law of RocksDB, \<open>exists\<close> affirms a key that \<open>get\<close> does not find.
\<close>

lemma kv_exists_false_positive:
  "\<exists>(E :: mem_db env) db k. env_up E \<and> kv_get E db k = Inr None \<and> kv_exists E db k = Inr True"
proof (intro exI conjI)
  show "env_up bloom_env" by (rule bloom_env_up)
  show "kv_get bloom_env [] ''k1'' = Inr None"
    by (simp add: kv_get_def kv_defs bloom_env_def env_over_def db_read_def mem_rocksdb_def mem_view_def)
  show "kv_exists bloom_env [] ''k1'' = Inr True"
    by (simp add: kv_defs db_exist_def bloom_env_def env_over_def)
qed

subsection \<open>Listing\<close>

definition parsed_wraps :: "storage_data_wrap serde \<Rightarrow> bytes \<Rightarrow> storage_data_wrap list" where
  "parsed_wraps S b = (case js_from_slice S b of Inr w \<Rightarrow> [w] | Inl _ \<Rightarrow> [])"

lemma collect_wraps_single: "collect_wraps S [(k, v)] = parsed_wraps S v"
  by (simp add: parsed_wraps_def split: sum.split)



end
