(* ===== verification/Raft_Storage.thy ===== *)
theory Raft_Storage
  imports Kv_Storage
begin

section \<open>RaftMachineStorage (src/placement-center/src/storage/raft.rs)\<close>

text \<open>
  The storage of the raft-rs path: log entries, hard state, configuration, the uncommitted
  indexes and one snapshot, all kept in the \<open>cluster\<close> column family.  Methods that only read
  take the record; methods that change the database return it updated.  A method that may panic
  returns a \<open>run\<close>, beside the state reached when it also writes: what was written before a
  panic stays written.  Index arithmetic wraps at 64 bits, as in a release build.
\<close>

record 'db raft_store =
  rs_uncommit_index :: uncommit_map
  rs_trigger_snap_unavailable :: bool
  rs_snapshot_metadata :: snapshot_metadata
  rs_db :: 'db

datatype raft_error = Compacted | Unavailable | SnapshotOutOfDate | SnapshotTemporarilyUnavailable

record raft_state_rec =
  ras_hard_state :: hard_state
  ras_conf_state :: conf_state

abbreviation put_db :: "'db raft_store \<Rightarrow> 'db \<times> 'r \<Rightarrow> 'db raft_store \<times> 'r" where
  "put_db s dr \<equiv> (s\<lparr>rs_db := fst dr\<rparr>, snd dr)"

subsection \<open>Saving and reading the metadata\<close>

text \<open>\<open>write\<close> of an encoded message: a \<open>Vec<u8>\<close> value; \<open>read::<Vec<u8>>\<close> of one.\<close>

definition write_vec :: "'db env \<Rightarrow> 'db \<Rightarrow> string \<Rightarrow> bytes \<Rightarrow> 'db \<times> (string + unit)" where
  "write_vec E db key val = db_write (rocks E) (js_bytes E) db cf_cluster key val"

definition read_vec :: "'db env \<Rightarrow> 'db \<Rightarrow> string \<Rightarrow> string + bytes option" where
  "read_vec E db key = db_read (rocks E) (js_bytes E) db cf_cluster key"

definition save_conf_state :: "'db env \<Rightarrow> 'db raft_store \<Rightarrow> conf_state \<Rightarrow> 'db raft_store \<times> (string + unit)" where
  "save_conf_state E s cs = put_db s (write_vec E (rs_db s) key_name_by_conf_state (pb_encode (pb_conf_state E) cs))"

definition read_hard_state :: "'db env \<Rightarrow> 'db raft_store \<Rightarrow> hard_state run" where
  "read_hard_state E s =
     (case read_vec E (rs_db s) key_name_by_hard_state of
        Inl _ \<Rightarrow> Panic UnwrapErr
      | Inr None \<Rightarrow> Ret hard_state_default
      | Inr (Some b) \<Rightarrow> unwrap_res (pb_decode (pb_hard_state E) b))"

definition read_conf_state :: "'db env \<Rightarrow> 'db raft_store \<Rightarrow> conf_state run" where
  "read_conf_state E s =
     (case read_vec E (rs_db s) key_name_by_conf_state of
        Inl _ \<Rightarrow> Panic UnwrapErr
      | Inr None \<Rightarrow> Ret conf_state_default
      | Inr (Some b) \<Rightarrow> unwrap_res (pb_decode (pb_conf_state E) b))"

definition raft_state :: "'db env \<Rightarrow> 'db raft_store \<Rightarrow> raft_state_rec run" where
  "raft_state E s =
     (case read_hard_state E s of
        Panic p \<Rightarrow> Panic p
      | Ret shs \<Rightarrow>
          (case read_conf_state E s of
             Panic p \<Rightarrow> Panic p
           | Ret scs \<Rightarrow> Ret \<lparr>ras_hard_state = shs, ras_conf_state = scs\<rparr>))"

definition save_last_index :: "'db env \<Rightarrow> 'db raft_store \<Rightarrow> u64 \<Rightarrow> 'db raft_store \<times> (string + unit)" where
  "save_last_index E s index =
     put_db s (db_write (rocks E) (js_u64 E) (rs_db s) cf_cluster key_name_by_last_index index)"

definition save_first_index :: "'db env \<Rightarrow> 'db raft_store \<Rightarrow> u64 \<Rightarrow> 'db raft_store \<times> (string + unit)" where
  "save_first_index E s index =
     put_db s (db_write (rocks E) (js_u64 E) (rs_db s) cf_cluster key_name_by_first_index index)"

definition save_hard_state :: "'db env \<Rightarrow> 'db raft_store \<Rightarrow> hard_state \<Rightarrow> 'db raft_store \<times> (string + unit)" where
  "save_hard_state E s hs = put_db s (write_vec E (rs_db s) key_name_by_hard_state (pb_encode (pb_hard_state E) hs))"

definition set_hard_state_commit ::
  "'db env \<Rightarrow> 'db raft_store \<Rightarrow> u64 \<Rightarrow> 'db raft_store \<times> (string + unit) run" where
  "set_hard_state_commit E s commit =
     (case read_hard_state E s of
        Panic p \<Rightarrow> (s, Panic p)
      | Ret hs \<Rightarrow> (let (s', r) = save_hard_state E s (hs\<lparr>hs_commit := commit\<rparr>) in (s', Ret r)))"

definition save_uncommit_index :: "'db env \<Rightarrow> 'db raft_store \<Rightarrow> 'db raft_store \<times> unit run" where
  "save_uncommit_index E s =
     (case bc_serialize (bc_uncommit E) (rs_uncommit_index s) of
        Inl _ \<Rightarrow> (s, Panic UnwrapErr)
      | Inr val \<Rightarrow> (fst (put_db s (write_vec E (rs_db s) key_name_uncommit val)), Ret ()))"

definition save_snapshot_data :: "'db env \<Rightarrow> 'db raft_store \<Rightarrow> snapshot \<Rightarrow> 'db raft_store" where
  "save_snapshot_data E s snap =
     fst (put_db s (write_vec E (rs_db s) key_name_snapshot (pb_encode (pb_snapshot E) snap)))"

definition read_uncommit_index :: "'db env \<Rightarrow> 'db \<Rightarrow> uncommit_map" where
  "read_uncommit_index E db =
     (case read_vec E db key_name_uncommit of
        Inr (Some value) \<Rightarrow>
          (case bc_deserialize (bc_uncommit E) value of Inr v \<Rightarrow> v | Inl _ \<Rightarrow> [])
      | Inr None \<Rightarrow> []
      | Inl _ \<Rightarrow> [])"

subsection \<open>The log\<close>

definition first_index :: "'db env \<Rightarrow> 'db raft_store \<Rightarrow> u64" where
  "first_index E s =
     (case db_read (rocks E) (js_u64 E) (rs_db s) cf_cluster key_name_by_first_index of
        Inr (Some fi) \<Rightarrow> fi
      | Inr None \<Rightarrow> sm_index (rs_snapshot_metadata s) + 1
      | Inl _ \<Rightarrow> sm_index (rs_snapshot_metadata s) + 1)"

definition last_index :: "'db env \<Rightarrow> 'db raft_store \<Rightarrow> u64" where
  "last_index E s =
     (case db_read (rocks E) (js_u64 E) (rs_db s) cf_cluster key_name_by_last_index of
        Inr (Some li) \<Rightarrow> li
      | Inr None \<Rightarrow> sm_index (rs_snapshot_metadata s)
      | Inl _ \<Rightarrow> sm_index (rs_snapshot_metadata s))"

definition entry_by_idx :: "'db env \<Rightarrow> 'db raft_store \<Rightarrow> u64 \<Rightarrow> entry option run" where
  "entry_by_idx E s idx =
     (case read_vec E (rs_db s) (key_name_by_entry idx) of
        Inr (Some vl) \<Rightarrow>
          (case pb_decode (pb_entry E) vl of Inr et \<Rightarrow> Ret (Some et) | Inl _ \<Rightarrow> Panic UnwrapErr)
      | Inr None \<Rightarrow> Ret None
      | Inl _ \<Rightarrow> Ret None)"

text \<open>The inclusive range \<open>low..=high\<close>, in order.\<close>

definition indexes :: "u64 \<Rightarrow> u64 \<Rightarrow> u64 list" where
  "indexes low high = map of_nat [unat low ..< Suc (unat high)]"

fun collect_entries :: "'db env \<Rightarrow> 'db raft_store \<Rightarrow> u64 list \<Rightarrow> entry list run" where
  "collect_entries E s [] = Ret []"
| "collect_entries E s (idx # is) =
     (case entry_by_idx E s idx of
        Panic p \<Rightarrow> Panic p
      | Ret None \<Rightarrow> collect_entries E s is
      | Ret (Some e) \<Rightarrow>
          (case collect_entries E s is of Panic p \<Rightarrow> Panic p | Ret es \<Rightarrow> Ret (e # es)))"

definition entrys :: "'db env \<Rightarrow> 'db raft_store \<Rightarrow> u64 \<Rightarrow> u64 \<Rightarrow> entry list run" where
  "entrys E s low high = collect_entries E s (indexes low high)"

text \<open>One turn of the loop of \<open>append\<close>, then the loop.\<close>

definition append_entry :: "'db env \<Rightarrow> 'db raft_store \<Rightarrow> entry \<Rightarrow> 'db raft_store \<times> unit run" where
  "append_entry E s e =
     (case put_db s (write_vec E (rs_db s) (key_name_by_entry (e_index e)) (pb_encode (pb_entry E) e)) of
        (s1, Inl _) \<Rightarrow> (s1, Panic UnwrapErr)
      | (s1, Inr _) \<Rightarrow>
          (let s2 = s1\<lparr>rs_uncommit_index := AList.update (e_index e) 1 (rs_uncommit_index s1)\<rparr>
           in (case save_last_index E s2 (e_index e) of
                 (s3, Inl _) \<Rightarrow> (s3, Panic UnwrapErr)
               | (s3, Inr _) \<Rightarrow> (s3, Ret ()))))"

fun append_loop :: "'db env \<Rightarrow> 'db raft_store \<Rightarrow> entry list \<Rightarrow> 'db raft_store \<times> unit run" where
  "append_loop E s [] = (s, Ret ())"
| "append_loop E s (e # es) = bind_run (append_entry E s e) (\<lambda>s' _. append_loop E s' es)"

definition append :: "'db env \<Rightarrow> 'db raft_store \<Rightarrow> entry list \<Rightarrow> 'db raft_store \<times> (raft_error + unit) run" where
  "append E s es =
     (case es of
        [] \<Rightarrow> (s, Ret (Inr ()))
      | e # _ \<Rightarrow>
          (if first_index E s > e_index e then (s, Panic ExplicitPanic)
           else if last_index E s + 1 < e_index e then (s, Panic ExplicitPanic)
           else bind_run (append_loop E s es) (\<lambda>s1 _.
                bind_run (save_uncommit_index E s1) (\<lambda>s2 _. (s2, Ret (Inr ()))))))"

definition commmit_index :: "'db env \<Rightarrow> 'db raft_store \<Rightarrow> u64 \<Rightarrow> 'db raft_store \<times> (raft_error + unit) run" where
  "commmit_index E s idx =
     (case entry_by_idx E s idx of
        Panic p \<Rightarrow> (s, Panic p)
      | Ret entry \<Rightarrow>
          bind_run (save_uncommit_index E
              (s\<lparr>rs_uncommit_index := AList.delete idx (rs_uncommit_index s)\<rparr>)) (\<lambda>s1 _.
            (case read_hard_state E s1 of
               Panic p \<Rightarrow> (s1, Panic p)
             | Ret hs \<Rightarrow>
                 (case unwrap_opt entry of
                    Panic p \<Rightarrow> (s1, Panic p)
                  | Ret e \<Rightarrow>
                      (fst (save_hard_state E s1 (hs\<lparr>hs_commit := idx, hs_term := e_term e\<rparr>)),
                       Ret (Inr ()))))))"

subsection \<open>Snapshots\<close>

fun write_pairs :: "'db env \<Rightarrow> 'db \<Rightarrow> (string \<times> string) list \<Rightarrow> 'db" where
  "write_pairs E db [] = db"
| "write_pairs E db ((key, val) # raw) =
     write_pairs E (fst (db_write_str (rocks E) db get_column_family key val)) raw"

definition write_all :: "'db env \<Rightarrow> 'db raft_store \<Rightarrow> bytes \<Rightarrow> 'db raft_store" where
  "write_all E s d =
     (if d = [] then s
      else (case bc_deserialize (bc_dump E) d of
              Inr dump \<Rightarrow> s\<lparr>rs_db := fold (\<lambda>(_, value) db. fold (\<lambda>raw db. write_pairs E db raw) value db) dump (rs_db s)\<rparr>
            | Inl _ \<Rightarrow> s))"

definition create_snapshot_metadata :: "'db env \<Rightarrow> 'db raft_store \<Rightarrow> snapshot_metadata run" where
  "create_snapshot_metadata E s =
     (case read_hard_state E s of
        Panic p \<Rightarrow> Panic p
      | Ret hard \<Rightarrow>
          (case read_conf_state E s of
             Panic p \<Rightarrow> Panic p
           | Ret conf \<Rightarrow>
               Ret (snapshot_metadata_default
                 \<lparr>sm_conf_state := conf, sm_index := hs_commit hard, sm_term := hs_term hard\<rparr>)))"

definition apply_snapshot ::
  "'db env \<Rightarrow> 'db raft_store \<Rightarrow> snapshot \<Rightarrow> 'db raft_store \<times> (raft_error + unit) run" where
  "apply_snapshot E s snap =
     (let meta = snap_metadata snap; index = sm_index meta in
      if first_index E s > index then (s, Ret (Inl SnapshotOutOfDate))
      else
        (let s1 = s\<lparr>rs_snapshot_metadata := meta\<rparr>;
             s2 = write_all E s1 (snap_data snap)
         in (case read_hard_state E s2 of
               Panic p \<Rightarrow> (s2, Panic p)
             | Ret hs \<Rightarrow>
                 (let s3 = fst (save_hard_state E s2
                                  (hs\<lparr>hs_term := max (hs_term hs) (sm_term meta), hs_commit := index\<rparr>));
                      s4 = fst (save_conf_state E s3 (sm_conf_state meta))
                  in (s4, Ret (Inr ()))))))"

definition create_snapshot :: "'db env \<Rightarrow> 'db raft_store \<Rightarrow> 'db raft_store \<times> unit run" where
  "create_snapshot E s =
     (case create_snapshot_metadata E s of
        Panic p \<Rightarrow> (s, Panic p)
      | Ret meta \<Rightarrow>
          (let all_data = read_all (rocks E) (rs_db s) in
           (case bc_serialize (bc_dump E) all_data of
              Inl _ \<Rightarrow> (s, Panic UnwrapErr)
            | Inr d \<Rightarrow>
                (let sns = snapshot_default\<lparr>snap_metadata := meta, snap_data := d\<rparr>;
                     s1 = fst (save_first_index E s (sm_index meta));
                     s2 = save_snapshot_data E s1 sns
                 in (s2\<lparr>rs_snapshot_metadata := meta\<rparr>, Ret ())))))"

text \<open>\<open>RaftMachineStorage::snapshot\<close>.\<close>

definition make_snapshot :: "'db env \<Rightarrow> 'db raft_store \<Rightarrow> 'db raft_store \<times> snapshot run" where
  "make_snapshot E s =
     bind_run (create_snapshot E s) (\<lambda>s1 _.
       (case read_vec E (rs_db s1) key_name_snapshot of
          Inl _ \<Rightarrow> (s1, Panic UnwrapErr)
        | Inr None \<Rightarrow> (s1, Ret snapshot_default)
        | Inr (Some b) \<Rightarrow> (s1, unwrap_res (pb_decode (pb_snapshot E) b))))"

text \<open>\<open>RaftMachineStorage::new\<close>.\<close>

definition raft_store_new :: "'db env \<Rightarrow> 'db \<Rightarrow> 'db raft_store run" where
  "raft_store_new E db =
     (let rc = \<lparr>rs_uncommit_index = [], rs_trigger_snap_unavailable = False,
                rs_snapshot_metadata = snapshot_metadata_default, rs_db = db\<rparr>;
          rc1 = rc\<lparr>rs_uncommit_index := read_uncommit_index E (rs_db rc)\<rparr>
      in (case create_snapshot_metadata E rc1 of
            Panic p \<Rightarrow> Panic p
          | Ret meta \<Rightarrow> Ret (rc1\<lparr>rs_snapshot_metadata := meta\<rparr>)))"


subsection \<open>The cells of the store\<close>

definition vec_cell :: "'db env \<Rightarrow> bytes \<Rightarrow> bytes" where
  "vec_cell E b = str_bytes (js_text (js_bytes E) b)"

definition u64_cell :: "'db env \<Rightarrow> u64 \<Rightarrow> bytes" where
  "u64_cell E n = str_bytes (js_text (js_u64 E) n)"

abbreviation rcell :: "'db env \<Rightarrow> 'db raft_store \<Rightarrow> string \<Rightarrow> bytes option" where
  "rcell E s k \<equiv> cell (rocks E) (rs_db s) k"

text \<open>What a cell written by \<open>write::<Vec<u8>>\<close> or \<open>write::<u64>\<close> holds.\<close>

definition vec_at :: "'db env \<Rightarrow> bytes option \<Rightarrow> string + bytes option" where
  "vec_at E c =
     (case c of None \<Rightarrow> Inr None
      | Some b \<Rightarrow> (case decode_cell (js_bytes E) b of Inl e \<Rightarrow> Inl e | Inr v \<Rightarrow> Inr (Some v)))"

definition u64_at :: "'db env \<Rightarrow> bytes option \<Rightarrow> u64 option" where
  "u64_at E c =
     (case c of None \<Rightarrow> None
      | Some b \<Rightarrow> (case decode_cell (js_u64 E) b of Inl e \<Rightarrow> None | Inr v \<Rightarrow> Some v))"

context storage_env
begin

lemma vec_at_simps [simp]: "vec_at E None = Inr None" "vec_at E (Some (vec_cell E v)) = Inr (Some v)"
  by (simp_all add: vec_at_def vec_cell_def)

lemma u64_at_simps [simp]: "u64_at E None = None" "u64_at E (Some (u64_cell E v)) = Some v"
  by (simp_all add: u64_at_def u64_cell_def)

lemma read_vec_cell: "read_vec E db key = vec_at E (cell (rocks E) db key)"
  by (simp add: read_vec_def db_read_cell vec_at_def)

lemma write_vec_ok [simp]: "snd (write_vec E db key v) = Inr ()"
  by (simp add: write_vec_def db_write_ok)

lemma cell_write_vec [simp]:
  "cell (rocks E) (fst (write_vec E db key v)) k =
     (if k = key then Some (vec_cell E v) else cell (rocks E) db k)"
  by (simp add: write_vec_def cell_db_write vec_cell_def)

lemma first_index_cell:
  "first_index E s = (case u64_at E (rcell E s key_name_by_first_index) of
     None \<Rightarrow> sm_index (rs_snapshot_metadata s) + 1 | Some i \<Rightarrow> i)"
  by (auto simp: first_index_def db_read_cell u64_at_def split: option.splits sum.splits)

lemma last_index_cell:
  "last_index E s = (case u64_at E (rcell E s key_name_by_last_index) of
     None \<Rightarrow> sm_index (rs_snapshot_metadata s) | Some i \<Rightarrow> i)"
  by (auto simp: last_index_def db_read_cell u64_at_def split: option.splits sum.splits)

lemma save_last_index_effect [simp]:
  "snd (save_last_index E s i) = Inr ()"
  "rcell E (fst (save_last_index E s i)) k =
     (if k = key_name_by_last_index then Some (u64_cell E i) else rcell E s k)"
  "rs_uncommit_index (fst (save_last_index E s i)) = rs_uncommit_index s"
  "rs_snapshot_metadata (fst (save_last_index E s i)) = rs_snapshot_metadata s"
  "rs_trigger_snap_unavailable (fst (save_last_index E s i)) = rs_trigger_snap_unavailable s"
  by (simp_all add: save_last_index_def db_write_ok cell_db_write u64_cell_def)

lemma save_first_index_effect [simp]:
  "snd (save_first_index E s i) = Inr ()"
  "rcell E (fst (save_first_index E s i)) k =
     (if k = key_name_by_first_index then Some (u64_cell E i) else rcell E s k)"
  "rs_uncommit_index (fst (save_first_index E s i)) = rs_uncommit_index s"
  "rs_snapshot_metadata (fst (save_first_index E s i)) = rs_snapshot_metadata s"
  "rs_trigger_snap_unavailable (fst (save_first_index E s i)) = rs_trigger_snap_unavailable s"
  by (simp_all add: save_first_index_def db_write_ok cell_db_write u64_cell_def)

lemma save_hard_state_effect [simp]:
  "snd (save_hard_state E s hs) = Inr ()"
  "rcell E (fst (save_hard_state E s hs)) k =
     (if k = key_name_by_hard_state then Some (vec_cell E (pb_encode (pb_hard_state E) hs))
      else rcell E s k)"
  "rs_uncommit_index (fst (save_hard_state E s hs)) = rs_uncommit_index s"
  "rs_snapshot_metadata (fst (save_hard_state E s hs)) = rs_snapshot_metadata s"
  "rs_trigger_snap_unavailable (fst (save_hard_state E s hs)) = rs_trigger_snap_unavailable s"
  by (simp_all add: save_hard_state_def)

lemma save_conf_state_effect [simp]:
  "snd (save_conf_state E s cs) = Inr ()"
  "rcell E (fst (save_conf_state E s cs)) k =
     (if k = key_name_by_conf_state then Some (vec_cell E (pb_encode (pb_conf_state E) cs))
      else rcell E s k)"
  "rs_uncommit_index (fst (save_conf_state E s cs)) = rs_uncommit_index s"
  "rs_snapshot_metadata (fst (save_conf_state E s cs)) = rs_snapshot_metadata s"
  "rs_trigger_snap_unavailable (fst (save_conf_state E s cs)) = rs_trigger_snap_unavailable s"
  by (simp_all add: save_conf_state_def)

lemma save_snapshot_data_effect [simp]:
  "rcell E (save_snapshot_data E s sn) k =
     (if k = key_name_snapshot then Some (vec_cell E (pb_encode (pb_snapshot E) sn)) else rcell E s k)"
  "rs_uncommit_index (save_snapshot_data E s sn) = rs_uncommit_index s"
  "rs_snapshot_metadata (save_snapshot_data E s sn) = rs_snapshot_metadata s"
  "rs_trigger_snap_unavailable (save_snapshot_data E s sn) = rs_trigger_snap_unavailable s"
  by (simp_all add: save_snapshot_data_def)

lemma read_hard_state_cell:
  "read_hard_state E s = (case vec_at E (rcell E s key_name_by_hard_state) of
     Inl _ \<Rightarrow> Panic UnwrapErr | Inr None \<Rightarrow> Ret hard_state_default
   | Inr (Some b) \<Rightarrow> unwrap_res (pb_decode (pb_hard_state E) b))"
  by (simp add: read_hard_state_def read_vec_cell)

lemma read_conf_state_cell:
  "read_conf_state E s = (case vec_at E (rcell E s key_name_by_conf_state) of
     Inl _ \<Rightarrow> Panic UnwrapErr | Inr None \<Rightarrow> Ret conf_state_default
   | Inr (Some b) \<Rightarrow> unwrap_res (pb_decode (pb_conf_state E) b))"
  by (simp add: read_conf_state_def read_vec_cell)

lemma entry_by_idx_cell:
  "entry_by_idx E s i = (case vec_at E (rcell E s (key_name_by_entry i)) of
     Inl _ \<Rightarrow> Ret None | Inr None \<Rightarrow> Ret None
   | Inr (Some b) \<Rightarrow> (case pb_decode (pb_entry E) b of Inr e \<Rightarrow> Ret (Some e) | Inl _ \<Rightarrow> Panic UnwrapErr))"
  by (auto simp: entry_by_idx_def read_vec_cell split: option.splits sum.splits)

lemma read_uncommit_index_cell:
  "read_uncommit_index E db = (case vec_at E (cell (rocks E) db key_name_uncommit) of
     Inr (Some b) \<Rightarrow> (case bc_deserialize (bc_uncommit E) b of Inr v \<Rightarrow> v | Inl _ \<Rightarrow> [])
   | _ \<Rightarrow> [])"
  by (auto simp: read_uncommit_index_def read_vec_cell split: option.splits sum.splits)

text \<open>What the readers return depends on the raft cells only.\<close>

lemma readers_cong:
  assumes "\<And>k. raft_namespace k \<Longrightarrow> rcell E s k = rcell E t k"
  shows "read_hard_state E s = read_hard_state E t" "read_conf_state E s = read_conf_state E t"
    "entry_by_idx E s i = entry_by_idx E t i"
    "read_uncommit_index E (rs_db s) = read_uncommit_index E (rs_db t)"
  by (simp_all add: read_hard_state_cell read_conf_state_cell entry_by_idx_cell
      read_uncommit_index_cell assms)

lemma index_cong:
  assumes "\<And>k. raft_namespace k \<Longrightarrow> rcell E s k = rcell E t k"
    and "rs_snapshot_metadata s = rs_snapshot_metadata t"
  shows "first_index E s = first_index E t" "last_index E s = last_index E t"
  by (simp_all add: first_index_cell last_index_cell assms cong: option.case_cong)

end

end
