(* ===== verification/Log_Contract.thy ===== *)
theory Log_Contract
  imports Prelude
begin

section \<open>The contract of a replicated log\<close>

text \<open>
  Both consensus paths keep their log as a map from indexes to entries that \<open>append\<close> overrides:
  \<open>RaftMachineStorage\<close> for raft-rs and \<open>LogStore\<close> for openraft.  This theory states that
  interface and what follows from it alone: reading back a batch, the survival of a gapless log,
  and the log that a sequence of batches leaves.
\<close>

definition log_override :: "('e \<Rightarrow> u64) \<Rightarrow> 'e list \<Rightarrow> (u64 \<Rightarrow> 'e option) \<Rightarrow> u64 \<Rightarrow> 'e option" where
  "log_override idx es m = fold (\<lambda>e m. m(idx e \<mapsto> e)) es m"

text \<open>A batch carries consecutive indexes from \<open>k\<close> on, without wrapping.\<close>

definition batch :: "('e \<Rightarrow> u64) \<Rightarrow> u64 \<Rightarrow> 'e list \<Rightarrow> bool" where
  "batch idx k es \<longleftrightarrow>
     unat k + length es < 2 ^ 64 \<and> (\<forall>j < length es. unat (idx (es ! j)) = unat k + j)"

text \<open>Every index of \<open>[a, b]\<close> holds an entry of that index.\<close>

definition log_full :: "('e \<Rightarrow> u64) \<Rightarrow> (u64 \<Rightarrow> 'e option) \<Rightarrow> u64 \<Rightarrow> u64 \<Rightarrow> bool" where
  "log_full idx m a b \<longleftrightarrow> (\<forall>i. a \<le> i \<longrightarrow> i \<le> b \<longrightarrow> (\<exists>e. m i = Some e \<and> idx e = i))"

lemma log_full_at: "log_full idx m 1 b \<Longrightarrow> 0 < i \<Longrightarrow> i \<le> b \<Longrightarrow> \<exists>e. m i = Some e \<and> idx e = i"
  by (simp add: log_full_def word_le_nat_alt word_less_nat_alt Suc_le_eq)

lemma log_override_Nil [simp]: "log_override idx [] m = m"
  by (simp add: log_override_def)

lemma log_override_Cons [simp]:
  "log_override idx (e # es) m = log_override idx es (m(idx e \<mapsto> e))"
  by (simp add: log_override_def)

lemma log_override_append: "log_override idx (es @ fs) m = log_override idx fs (log_override idx es m)"
  by (simp add: log_override_def)

lemma log_override_other: "i \<notin> idx ` set es \<Longrightarrow> log_override idx es m i = m i"
  by (induction es arbitrary: m) auto

lemma log_override_keys: "log_override idx es m i = Some e \<Longrightarrow> e \<in> set es \<and> idx e = i \<or> m i = Some e"
proof (induction es arbitrary: m)
  case Nil
  then show ?case by simp
next
  case (Cons a es)
  from Cons.prems have "log_override idx es (m(idx a \<mapsto> a)) i = Some e" by simp
  then have "e \<in> set es \<and> idx e = i \<or> (m(idx a \<mapsto> a)) i = Some e" by (rule Cons.IH)
  then show ?case by (auto split: if_splits)
qed

lemma batch_Cons:
  "batch idx k (e # es) \<longleftrightarrow> idx e = k \<and> unat k + Suc (length es) < 2 ^ 64 \<and> batch idx (k + 1) es"
proof -
  have k1: "unat (k + 1) = unat k + 1" if "unat k + Suc (length es) < 2 ^ 64"
    using that by (simp add: unat_plus_if')
  show ?thesis
    by (auto simp: batch_def k1 word_unat_eq_iff nth_Cons less_Suc_eq_0_disj split: nat.splits)
qed

lemma batch_last: "batch idx k es \<Longrightarrow> es \<noteq> [] \<Longrightarrow> unat (idx (last es)) = unat k + length es - 1"
  by (cases "length es") (auto simp: batch_def last_conv_nth)

lemma batch_index: "batch idx k es \<Longrightarrow> e \<in> set es \<Longrightarrow> k \<le> idx e"
  by (auto simp: batch_def in_set_conv_nth word_le_nat_alt)

lemma log_override_batch:
  "batch idx k es \<Longrightarrow> log_override idx es m i =
     (if unat k \<le> unat i \<and> unat i < unat k + length es then Some (es ! (unat i - unat k)) else m i)"
proof (induction es arbitrary: k m)
  case Nil
  then show ?case by auto
next
  case (Cons e es)
  then have k: "idx e = k" "unat k + Suc (length es) < 2 ^ 64" "batch idx (k + 1) es"
    by (simp_all add: batch_Cons)
  then have k1: "unat (k + 1) = unat k + 1" by (simp add: unat_plus_if')
  have ik: "i = k \<longleftrightarrow> unat i = unat k" by (simp add: word_unat_eq_iff)
  have "log_override idx (e # es) m i =
     (if unat k + 1 \<le> unat i \<and> unat i < unat k + 1 + length es then Some (es ! (unat i - (unat k + 1)))
      else (m(k \<mapsto> e)) i)"
    using Cons.IH [OF k(3)] by (simp add: k1 k(1))
  moreover have "es ! (unat i - (unat k + 1)) = (e # es) ! (unat i - unat k)"
    if "unat k + 1 \<le> unat i"
    using that by (simp add: nth_Cons' diff_diff_add)
  ultimately show ?case by (auto simp: ik)
qed

lemma log_full_override:
  assumes full: "log_full idx m a b" and batch: "batch idx k es" and ne: "es \<noteq> []"
    and k: "unat k \<le> unat b + 1"
  shows "log_full idx (log_override idx es m) a (idx (last es))"
  unfolding log_full_def
proof (intro allI impI)
  fix i assume a: "a \<le> i" and i: "i \<le> idx (last es)"
  have "unat i < unat k + length es"
    using i batch_last [OF batch ne] ne by (cases es) (simp_all add: word_le_nat_alt)
  show "\<exists>e. log_override idx es m i = Some e \<and> idx e = i"
  proof (cases "unat k \<le> unat i")
    case True
    then show ?thesis
      using \<open>unat i < unat k + length es\<close> batch
      by (simp add: log_override_batch [OF batch]) (simp add: batch_def word_unat_eq_iff)
  next
    case False
    then have "i \<le> b" using k by (simp add: word_le_nat_alt)
    then show ?thesis
      using False full a by (simp add: log_override_batch [OF batch] log_full_def)
  qed
qed

locale replicated_log =
  fixes app :: "'st \<Rightarrow> 'e list \<Rightarrow> 'st"
    and at :: "'st \<Rightarrow> u64 \<Rightarrow> 'e option"
    and idx :: "'e \<Rightarrow> u64"
    and ok :: "'st \<Rightarrow> bool"
    and allowed :: "'st \<Rightarrow> 'e list \<Rightarrow> bool"
  assumes app_ok: "ok s \<Longrightarrow> allowed s es \<Longrightarrow> ok (app s es)"
    and app_at: "ok s \<Longrightarrow> allowed s es \<Longrightarrow> at (app s es) = log_override idx es (at s)"
begin

text \<open>A batch reads back entry by entry, and only its own indexes change.\<close>

lemma read_back:
  "ok s \<Longrightarrow> allowed s es \<Longrightarrow> batch idx k es \<Longrightarrow>
     at (app s es) i =
       (if unat k \<le> unat i \<and> unat i < unat k + length es then Some (es ! (unat i - unat k)) else at s i)"
  by (simp add: app_at log_override_batch)

lemma stays_full:
  "ok s \<Longrightarrow> allowed s es \<Longrightarrow> batch idx k es \<Longrightarrow> es \<noteq> [] \<Longrightarrow> log_full idx (at s) a b \<Longrightarrow>
     unat k \<le> unat b + 1 \<Longrightarrow> log_full idx (at (app s es)) a (idx (last es))"
  by (simp add: app_at log_full_override)

text \<open>Entries sit under their own index.\<close>

lemma own_index:
  "ok s \<Longrightarrow> allowed s es \<Longrightarrow> (\<And>i e. at s i = Some e \<Longrightarrow> idx e = i) \<Longrightarrow>
     at (app s es) i = Some e \<Longrightarrow> idx e = i"
  by (auto simp: app_at dest: log_override_keys)

lemma two_batches:
  "ok s \<Longrightarrow> allowed s es \<Longrightarrow> allowed (app s es) fs \<Longrightarrow>
     at (app (app s es) fs) = log_override idx (es @ fs) (at s)"
  by (simp add: app_at app_ok log_override_append)

end

end
