(* ===== verification/Raft_Log.thy ===== *)
theory Raft_Log
  imports Raft_Storage Log_Contract
begin

section \<open>The Raft log: append, commit, restart\<close>

text \<open>
  What the operations of \<^verbatim>\<open>Raft_Storage\<close> on the log mean: the abstract log is a partial map from
  indexes to entries, \<open>append\<close> overrides it by its batch, \<open>commmit_index\<close> moves the hard state,
  and a restart (\<open>raft_store_new\<close> on the database left behind) finds everything again.
\<close>

definition log_at :: "'db env \<Rightarrow> 'db raft_store \<Rightarrow> u64 \<Rightarrow> entry option" where
  "log_at E s i = (case entry_by_idx E s i of Ret (Some e) \<Rightarrow> Some e | _ \<Rightarrow> None)"

definition mark_uncommitted :: "entry list \<Rightarrow> (u64 \<Rightarrow> u8 option) \<Rightarrow> u64 \<Rightarrow> u8 option" where
  "mark_uncommitted es m = fold (\<lambda>e m. m(e_index e \<mapsto> 1)) es m"

text \<open>The uncommitted indexes on disk are those in memory, each listed once.\<close>

definition uncommit_saved :: "'db env \<Rightarrow> 'db raft_store \<Rightarrow> bool" where
  "uncommit_saved E s \<longleftrightarrow>
     map_of (read_uncommit_index E (rs_db s)) = map_of (rs_uncommit_index s) \<and>
     distinct (map fst (read_uncommit_index E (rs_db s)))"

definition distinct_uncommit :: "'db raft_store \<Rightarrow> bool" where
  "distinct_uncommit s \<longleftrightarrow> distinct (map fst (rs_uncommit_index s))"

text \<open>The batches \<open>append\<close> accepts.\<close>

definition append_allowed :: "'db env \<Rightarrow> 'db raft_store \<Rightarrow> entry list \<Rightarrow> bool" where
  "append_allowed E s es \<longleftrightarrow>
     es = [] \<or> (first_index E s \<le> e_index (hd es) \<and> e_index (hd es) \<le> last_index E s + 1)"

context storage_env
begin

lemma log_at_cell:
  "log_at E s i = (case vec_at E (rcell E s (key_name_by_entry i)) of
     Inr (Some b) \<Rightarrow> (case pb_decode (pb_entry E) b of Inr e \<Rightarrow> Some e | Inl _ \<Rightarrow> None) | _ \<Rightarrow> None)"
  by (auto simp: log_at_def entry_by_idx_cell split: sum.splits option.splits)

lemma log_at_cong:
  "(\<And>i. rcell E s (key_name_by_entry i) = rcell E t (key_name_by_entry i)) \<Longrightarrow> log_at E s = log_at E t"
  by (rule ext) (simp add: log_at_cell)

subsection \<open>append\<close>

lemma append_entry_effect:
  "\<exists>s'. append_entry E s e = (s', Ret ()) \<and>
     (\<forall>k. rcell E s' k =
        (if k = key_name_by_last_index then Some (u64_cell E (e_index e))
         else if k = key_name_by_entry (e_index e) then Some (vec_cell E (pb_encode (pb_entry E) e))
         else rcell E s k)) \<and>
     rs_uncommit_index s' = AList.update (e_index e) 1 (rs_uncommit_index s) \<and>
     rs_snapshot_metadata s' = rs_snapshot_metadata s \<and>
     rs_trigger_snap_unavailable s' = rs_trigger_snap_unavailable s"
proof -
  let ?w = "write_vec E (rs_db s) (key_name_by_entry (e_index e)) (pb_encode (pb_entry E) e)"
  let ?s2 = "s\<lparr>rs_db := fst ?w, rs_uncommit_index := AList.update (e_index e) 1 (rs_uncommit_index s)\<rparr>"
  have "append_entry E s e = (fst (save_last_index E ?s2 (e_index e)), Ret ())"
    using save_last_index_effect(1) [of ?s2 "e_index e"]
    by (cases "save_last_index E ?s2 (e_index e)") (simp add: append_entry_def Let_def)
  then show ?thesis by simp
qed

lemma append_loop_effect:
  "\<exists>s'. append_loop E s es = (s', Ret ()) \<and>
     log_at E s' = log_override e_index es (log_at E s) \<and>
     rcell E s' key_name_by_last_index =
       (if es = [] then rcell E s key_name_by_last_index else Some (u64_cell E (e_index (last es)))) \<and>
     (\<forall>k. k \<noteq> key_name_by_last_index \<longrightarrow> k \<notin> key_name_by_entry ` e_index ` set es \<longrightarrow>
        rcell E s' k = rcell E s k) \<and>
     map_of (rs_uncommit_index s') = mark_uncommitted es (map_of (rs_uncommit_index s)) \<and>
     (distinct_uncommit s \<longrightarrow> distinct_uncommit s') \<and>
     rs_snapshot_metadata s' = rs_snapshot_metadata s \<and>
     rs_trigger_snap_unavailable s' = rs_trigger_snap_unavailable s \<and>
     ((\<forall>i. \<exists>r. entry_by_idx E s i = Ret r) \<longrightarrow> (\<forall>i. \<exists>r. entry_by_idx E s' i = Ret r))"
proof (induction es arbitrary: s)
  case Nil
  then show ?case by (simp add: log_override_def mark_uncommitted_def)
next
  case (Cons e es)
  obtain s1 where s1: "append_entry E s e = (s1, Ret ())"
    and cells: "\<And>k. rcell E s1 k =
        (if k = key_name_by_last_index then Some (u64_cell E (e_index e))
         else if k = key_name_by_entry (e_index e) then Some (vec_cell E (pb_encode (pb_entry E) e))
         else rcell E s k)"
    and unc: "rs_uncommit_index s1 = AList.update (e_index e) 1 (rs_uncommit_index s)"
    and meta: "rs_snapshot_metadata s1 = rs_snapshot_metadata s"
      "rs_trigger_snap_unavailable s1 = rs_trigger_snap_unavailable s"
    using append_entry_effect [of s e] by blast
  have log1: "log_at E s1 = (log_at E s)(e_index e \<mapsto> e)"
    by (rule ext) (simp add: log_at_cell cells)
  have read1: "(\<forall>i. \<exists>r. entry_by_idx E s i = Ret r) \<longrightarrow> (\<forall>i. \<exists>r. entry_by_idx E s1 i = Ret r)"
    by (simp add: entry_by_idx_cell cells)
  have d1: "distinct_uncommit s \<longrightarrow> distinct_uncommit s1"
    by (simp add: distinct_uncommit_def unc distinct_update)
  have u1: "map_of (rs_uncommit_index s1) = (map_of (rs_uncommit_index s))(e_index e \<mapsto> 1)"
    by (simp add: unc update_conv')
  from Cons.IH [of s1] obtain s' where s': "append_loop E s1 es = (s', Ret ())"
    "log_at E s' = log_override e_index es (log_at E s1)"
    "rcell E s' key_name_by_last_index =
       (if es = [] then rcell E s1 key_name_by_last_index else Some (u64_cell E (e_index (last es))))"
    "\<forall>k. k \<noteq> key_name_by_last_index \<longrightarrow> k \<notin> key_name_by_entry ` e_index ` set es \<longrightarrow>
        rcell E s' k = rcell E s1 k"
    "map_of (rs_uncommit_index s') = mark_uncommitted es (map_of (rs_uncommit_index s1))"
    "distinct_uncommit s1 \<longrightarrow> distinct_uncommit s'"
    "rs_snapshot_metadata s' = rs_snapshot_metadata s1"
    "rs_trigger_snap_unavailable s' = rs_trigger_snap_unavailable s1"
    "(\<forall>i. \<exists>r. entry_by_idx E s1 i = Ret r) \<longrightarrow> (\<forall>i. \<exists>r. entry_by_idx E s' i = Ret r)"
    by blast
  show ?case
    by (rule exI [of _ s'])
      (use s' s1 log1 read1 d1 u1 in \<open>simp add: log_override_def mark_uncommitted_def cells meta\<close>)
qed

lemma save_uncommit_effect:
  assumes "distinct_uncommit s"
  shows "\<exists>s'. save_uncommit_index E s = (s', Ret ()) \<and> uncommit_saved E s' \<and>
     (\<forall>k. k \<noteq> key_name_uncommit \<longrightarrow> rcell E s' k = rcell E s k) \<and>
     rs_uncommit_index s' = rs_uncommit_index s \<and>
     rs_snapshot_metadata s' = rs_snapshot_metadata s \<and>
     rs_trigger_snap_unavailable s' = rs_trigger_snap_unavailable s"
proof -
  obtain b m' where b: "bc_serialize (bc_uncommit E) (rs_uncommit_index s) = Inr b"
    "bc_deserialize (bc_uncommit E) b = Inr m'" "map_of m' = map_of (rs_uncommit_index s)"
    "distinct (map fst m')"
    using env_uncommit assms unfolding distinct_uncommit_def by blast
  then show ?thesis
    by (simp add: save_uncommit_index_def uncommit_saved_def read_uncommit_index_cell)
qed

lemma append_effect_up:
  assumes es: "es \<noteq> []" and al: "append_allowed E s es" and d: "distinct_uncommit s"
  shows "\<exists>s'. append E s es = (s', Ret (Inr ())) \<and>
     log_at E s' = log_override e_index es (log_at E s) \<and>
     last_index E s' = e_index (last es) \<and> first_index E s' = first_index E s \<and>
     map_of (rs_uncommit_index s') = mark_uncommitted es (map_of (rs_uncommit_index s)) \<and>
     uncommit_saved E s' \<and> distinct_uncommit s' \<and>
     rs_snapshot_metadata s' = rs_snapshot_metadata s \<and>
     rs_trigger_snap_unavailable s' = rs_trigger_snap_unavailable s \<and>
     (\<forall>k. k \<noteq> key_name_by_last_index \<longrightarrow> k \<noteq> key_name_uncommit \<longrightarrow>
        k \<notin> key_name_by_entry ` e_index ` set es \<longrightarrow> rcell E s' k = rcell E s k) \<and>
     ((\<forall>i. \<exists>r. entry_by_idx E s i = Ret r) \<longrightarrow> (\<forall>i. \<exists>r. entry_by_idx E s' i = Ret r))"
proof -
  from append_loop_effect [of s es] obtain s1 where s1: "append_loop E s es = (s1, Ret ())"
    "log_at E s1 = log_override e_index es (log_at E s)"
    "rcell E s1 key_name_by_last_index = Some (u64_cell E (e_index (last es)))"
    "\<forall>k. k \<noteq> key_name_by_last_index \<longrightarrow> k \<notin> key_name_by_entry ` e_index ` set es \<longrightarrow>
        rcell E s1 k = rcell E s k"
    "map_of (rs_uncommit_index s1) = mark_uncommitted es (map_of (rs_uncommit_index s))"
    "distinct_uncommit s1"
    "rs_snapshot_metadata s1 = rs_snapshot_metadata s"
    "rs_trigger_snap_unavailable s1 = rs_trigger_snap_unavailable s"
    "(\<forall>i. \<exists>r. entry_by_idx E s i = Ret r) \<longrightarrow> (\<forall>i. \<exists>r. entry_by_idx E s1 i = Ret r)"
    using es d by auto
  from save_uncommit_effect [OF s1(6)] obtain s2 where s2: "save_uncommit_index E s1 = (s2, Ret ())"
    "uncommit_saved E s2" "\<forall>k. k \<noteq> key_name_uncommit \<longrightarrow> rcell E s2 k = rcell E s1 k"
    "rs_uncommit_index s2 = rs_uncommit_index s1"
    "rs_snapshot_metadata s2 = rs_snapshot_metadata s1"
    "rs_trigger_snap_unavailable s2 = rs_trigger_snap_unavailable s1" by blast
  obtain e es' where e: "es = e # es'" using es by (cases es) auto
  have "append E s es = (s2, Ret (Inr ()))"
    using al s1(1) s2(1) by (auto simp: append_def e append_allowed_def linorder_not_less simp del: append_loop.simps)
  moreover have "log_at E s2 = log_at E s1" by (rule log_at_cong) (simp add: s2(3))
  moreover have "(\<forall>i. \<exists>r. entry_by_idx E s i = Ret r) \<longrightarrow> (\<forall>i. \<exists>r. entry_by_idx E s2 i = Ret r)"
    using s1(9) by (simp add: entry_by_idx_cell s2(3))
  moreover have "last_index E s2 = e_index (last es)" by (simp add: last_index_cell s2(3) s1(3))
  moreover have "first_index E s2 = first_index E s"
    using s1(4) by (auto simp: first_index_cell s2(3,5) s1(7) image_iff cong: option.case_cong)
  ultimately show ?thesis
    using s1 s2 by (auto simp: distinct_uncommit_def)
qed


lemma append_panics_up:
  assumes "\<not> append_allowed E s es"
  shows "append E s es = (s, Panic ExplicitPanic)"
  using assms by (cases es) (auto simp: append_def append_allowed_def linorder_not_less)

subsection \<open>commmit_index\<close>

lemma commit_effect_up:
  assumes e: "log_at E s idx = Some e" and hs: "read_hard_state E s = Ret hs"
    and d: "distinct_uncommit s"
  shows "\<exists>s'. commmit_index E s idx = (s', Ret (Inr ())) \<and>
     read_hard_state E s' = Ret (hs\<lparr>hs_commit := idx, hs_term := e_term e\<rparr>) \<and>
     map_of (rs_uncommit_index s') = (map_of (rs_uncommit_index s))(idx := None) \<and>
     uncommit_saved E s' \<and> distinct_uncommit s' \<and>
     log_at E s' = log_at E s \<and>
     rs_snapshot_metadata s' = rs_snapshot_metadata s \<and>
     rs_trigger_snap_unavailable s' = rs_trigger_snap_unavailable s \<and>
     (\<forall>k. k \<noteq> key_name_by_hard_state \<longrightarrow> k \<noteq> key_name_uncommit \<longrightarrow> rcell E s' k = rcell E s k)"
proof -
  let ?s0 = "s\<lparr>rs_uncommit_index := AList.delete idx (rs_uncommit_index s)\<rparr>"
  have d0: "distinct_uncommit ?s0" using d by (simp add: distinct_uncommit_def distinct_delete)
  from save_uncommit_effect [OF d0] obtain s1 where s1: "save_uncommit_index E ?s0 = (s1, Ret ())"
    "uncommit_saved E s1" "\<forall>k. k \<noteq> key_name_uncommit \<longrightarrow> rcell E s1 k = rcell E s k"
    "rs_uncommit_index s1 = AList.delete idx (rs_uncommit_index s)"
    "rs_snapshot_metadata s1 = rs_snapshot_metadata s"
    "rs_trigger_snap_unavailable s1 = rs_trigger_snap_unavailable s" by auto
  have h1: "read_hard_state E s1 = Ret hs" using hs by (simp add: read_hard_state_cell s1(3))
  have en: "entry_by_idx E s idx = Ret (Some e)"
    using e by (auto simp: log_at_def split: run.splits option.splits)
  let ?s2 = "fst (save_hard_state E s1 (hs\<lparr>hs_commit := idx, hs_term := e_term e\<rparr>))"
  have "commmit_index E s idx = (?s2, Ret (Inr ()))"
    by (simp add: commmit_index_def en s1(1) h1)
  moreover have "log_at E ?s2 = log_at E s" by (rule log_at_cong) (simp add: s1(3))
  moreover have "uncommit_saved E ?s2"
    using s1(2) by (simp add: uncommit_saved_def read_uncommit_index_cell)
  ultimately show ?thesis
    using d0 s1 by (simp add: read_hard_state_cell distinct_uncommit_def delete_conv')
qed

lemma commit_missing_up:
  assumes e: "entry_by_idx E s idx = Ret None" and hs: "read_hard_state E s = Ret hs"
    and d: "distinct_uncommit s"
  shows "\<exists>s'. commmit_index E s idx = (s', Panic UnwrapNone) \<and> read_hard_state E s' = Ret hs \<and>
     map_of (read_uncommit_index E (rs_db s')) = (map_of (rs_uncommit_index s))(idx := None)"
proof -
  let ?s0 = "s\<lparr>rs_uncommit_index := AList.delete idx (rs_uncommit_index s)\<rparr>"
  have d0: "distinct_uncommit ?s0" using d by (simp add: distinct_uncommit_def distinct_delete)
  from save_uncommit_effect [OF d0] obtain s1 where s1: "save_uncommit_index E ?s0 = (s1, Ret ())"
    "uncommit_saved E s1" "\<forall>k. k \<noteq> key_name_uncommit \<longrightarrow> rcell E s1 k = rcell E s k"
    "rs_uncommit_index s1 = AList.delete idx (rs_uncommit_index s)" by auto
  have h1: "read_hard_state E s1 = Ret hs" using hs by (simp add: read_hard_state_cell s1(3))
  then show ?thesis
    using s1(2) by (simp add: commmit_index_def e s1 uncommit_saved_def delete_conv')
qed

subsection \<open>Restart\<close>

lemma restart_up:
  assumes hs: "read_hard_state E s = Ret hs" and cs: "read_conf_state E s = Ret cs"
    and u: "uncommit_saved E s"
  shows "\<exists>s'. raft_store_new E (rs_db s) = Ret s' \<and> rs_db s' = rs_db s \<and>
     read_hard_state E s' = Ret hs \<and> read_conf_state E s' = Ret cs \<and>
     entry_by_idx E s' = entry_by_idx E s \<and>
     map_of (rs_uncommit_index s') = map_of (rs_uncommit_index s) \<and>
     distinct_uncommit s' \<and> uncommit_saved E s' \<and>
     rs_snapshot_metadata s' = \<lparr>sm_conf_state = cs, sm_index = hs_commit hs, sm_term = hs_term hs\<rparr>"
proof -
  let ?rc = "\<lparr>rs_uncommit_index = read_uncommit_index E (rs_db s), rs_trigger_snap_unavailable = False,
     rs_snapshot_metadata = snapshot_metadata_default, rs_db = rs_db s\<rparr>"
  let ?m = "\<lparr>sm_conf_state = cs, sm_index = hs_commit hs, sm_term = hs_term hs\<rparr>"
  have "read_hard_state E ?rc = Ret hs" "read_conf_state E ?rc = Ret cs"
    using hs cs by (simp_all add: read_hard_state_def read_conf_state_def)
  then have "raft_store_new E (rs_db s) = Ret (?rc\<lparr>rs_snapshot_metadata := ?m\<rparr>)"
    by (simp add: raft_store_new_def create_snapshot_metadata_def snapshot_metadata_default_def)
  moreover have "entry_by_idx E (?rc\<lparr>rs_snapshot_metadata := ?m\<rparr>) = entry_by_idx E s"
    by (rule ext) (simp add: entry_by_idx_def)
  ultimately show ?thesis
    using hs cs u by (simp add: read_hard_state_def read_conf_state_def uncommit_saved_def distinct_uncommit_def)
qed


end

subsection \<open>Well-formed stores\<close>

text \<open>
  The metadata and every entry can be read, and the uncommitted indexes on disk are those in
  memory.
\<close>

definition raft_ok :: "'db env \<Rightarrow> 'db raft_store \<Rightarrow> bool" where
  "raft_ok E s \<longleftrightarrow>
     (\<exists>hs. read_hard_state E s = Ret hs) \<and> (\<exists>cs. read_conf_state E s = Ret cs) \<and>
     (\<forall>i. \<exists>r. entry_by_idx E s i = Ret r) \<and> distinct_uncommit s \<and> uncommit_saved E s"

lemma raft_okE:
  assumes "raft_ok E s"
  obtains hs cs where "read_hard_state E s = Ret hs" "read_conf_state E s = Ret cs"
    "\<And>i. \<exists>r. entry_by_idx E s i = Ret r" "distinct_uncommit s" "uncommit_saved E s"
  using assms by (auto simp: raft_ok_def)

context storage_env
begin

lemma append_obtain:
  assumes "raft_ok E s" and "append_allowed E s es" and "es \<noteq> []"
  obtains s' where "append E s es = (s', Ret (Inr ()))"
    "log_at E s' = log_override e_index es (log_at E s)"
    "last_index E s' = e_index (last es)" "first_index E s' = first_index E s"
    "map_of (rs_uncommit_index s') = mark_uncommitted es (map_of (rs_uncommit_index s))"
    "rs_snapshot_metadata s' = rs_snapshot_metadata s"
    "rs_trigger_snap_unavailable s' = rs_trigger_snap_unavailable s"
    "\<And>k. k \<noteq> key_name_by_last_index \<Longrightarrow> k \<noteq> key_name_uncommit \<Longrightarrow>
        k \<notin> key_name_by_entry ` e_index ` set es \<Longrightarrow> rcell E s' k = rcell E s k"
    "read_hard_state E s' = read_hard_state E s" "read_conf_state E s' = read_conf_state E s"
    "raft_ok E s'"
proof -
  from assms(1) have ok: "\<forall>i. \<exists>r. entry_by_idx E s i = Ret r" "distinct_uncommit s"
    by (simp_all add: raft_ok_def)
  from append_effect_up [OF assms(3,2) ok(2)] obtain s' where s': "append E s es = (s', Ret (Inr ()))"
    "log_at E s' = log_override e_index es (log_at E s)"
    "last_index E s' = e_index (last es)" "first_index E s' = first_index E s"
    "map_of (rs_uncommit_index s') = mark_uncommitted es (map_of (rs_uncommit_index s))"
    "uncommit_saved E s'" "distinct_uncommit s'"
    "rs_snapshot_metadata s' = rs_snapshot_metadata s"
    "rs_trigger_snap_unavailable s' = rs_trigger_snap_unavailable s"
    "\<forall>k. k \<noteq> key_name_by_last_index \<longrightarrow> k \<noteq> key_name_uncommit \<longrightarrow>
        k \<notin> key_name_by_entry ` e_index ` set es \<longrightarrow> rcell E s' k = rcell E s k"
    "\<forall>i. \<exists>r. entry_by_idx E s' i = Ret r" using ok(1) by blast
  have cells: "rcell E s' k = rcell E s k" if "k \<noteq> key_name_by_last_index" "k \<noteq> key_name_uncommit"
    "k \<notin> key_name_by_entry ` e_index ` set es" for k
    using s'(10) that by blast
  have "rcell E s' key_name_by_hard_state = rcell E s key_name_by_hard_state"
    "rcell E s' key_name_by_conf_state = rcell E s key_name_by_conf_state"
    by (rule cells; auto)+
  then have hc: "read_hard_state E s' = read_hard_state E s" "read_conf_state E s' = read_conf_state E s"
    by (simp_all add: read_hard_state_cell read_conf_state_cell)
  have "raft_ok E s'" using assms(1) s'(6,7,11) hc by (simp add: raft_ok_def)
  with that s' cells hc show ?thesis by blast
qed

lemma append_Nil_eq [simp]: "append E s [] = (s, Ret (Inr ()))"
  by (simp add: append_def)

lemma append_ok: "raft_ok E s \<Longrightarrow> append_allowed E s es \<Longrightarrow> raft_ok E (fst (append E s es))"
  by (cases "es = []", simp, rule append_obtain [of s es], assumption+, simp only: fst_conv)

lemma append_log:
  "raft_ok E s \<Longrightarrow> append_allowed E s es \<Longrightarrow>
     log_at E (fst (append E s es)) = log_override e_index es (log_at E s)"
  by (cases "es = []", simp, rule append_obtain [of s es], assumption+, simp only: fst_conv)

lemma commit_ok:
  "raft_ok E s \<Longrightarrow> log_at E s i = Some e \<Longrightarrow> raft_ok E (fst (commmit_index E s i))"
proof -
  assume ok: "raft_ok E s" and e: "log_at E s i = Some e"
  from ok obtain hs cs where r: "read_hard_state E s = Ret hs" "read_conf_state E s = Ret cs"
    "\<And>i. \<exists>r. entry_by_idx E s i = Ret r" "distinct_uncommit s" "uncommit_saved E s"
    by (rule raft_okE) blast
  from commit_effect_up [OF e r(1) r(4)] obtain s' where s': "commmit_index E s i = (s', Ret (Inr ()))"
    "read_hard_state E s' = Ret (hs\<lparr>hs_commit := i, hs_term := e_term e\<rparr>)"
    "uncommit_saved E s'" "distinct_uncommit s'"
    "\<forall>k. k \<noteq> key_name_by_hard_state \<longrightarrow> k \<noteq> key_name_uncommit \<longrightarrow> rcell E s' k = rcell E s k"
    by blast
  have "read_conf_state E s' = Ret cs" using r(2) by (simp add: read_conf_state_cell s'(5))
  moreover have "\<And>i. \<exists>r. entry_by_idx E s' i = Ret r" using r(3) by (simp add: entry_by_idx_cell s'(5))
  ultimately show ?thesis using s' by (simp add: raft_ok_def)
qed

end

sublocale storage_env \<subseteq> raft_log: replicated_log "\<lambda>s es. fst (append E s es)" "log_at E" e_index
  "raft_ok E" "append_allowed E"
  by unfold_locales (simp_all add: append_ok append_log)

context storage_env
begin

lemmas raft_log_behaviour = raft_log.read_back raft_log.stays_full raft_log.own_index

end

subsection \<open>A concrete store\<close>

text \<open>A fresh store over the empty reference database, and one holding two entries.\<close>

definition ref_store :: "mem_db raft_store" where
  "ref_store = \<lparr>rs_uncommit_index = [], rs_trigger_snap_unavailable = False,
     rs_snapshot_metadata = snapshot_metadata_default, rs_db = []\<rparr>"

definition ref_entry :: "u64 \<Rightarrow> u64 \<Rightarrow> entry" where
  "ref_entry t i = \<lparr>e_type = EntryNormal, e_term = t, e_index = i, e_data = [1, 2],
     e_context = [], e_sync_log = False\<rparr>"

definition ref_batch :: "entry list" where
  "ref_batch = [ref_entry 3 1, ref_entry 3 2]"

definition ref_logged :: "mem_db raft_store" where
  "ref_logged = fst (append ref_env ref_store ref_batch)"

lemma ref_entry_sel [simp]: "e_index (ref_entry t i) = i" "e_term (ref_entry t i) = t"
  by (simp_all add: ref_entry_def)

lemma ref_store_cell [simp]: "rcell ref_env ref_store k = None"
  by (simp add: ref_store_def)

lemma ref_store_facts [simp]:
  "first_index ref_env ref_store = 1" "last_index ref_env ref_store = 0"
  "read_hard_state ref_env ref_store = Ret hard_state_default"
  "read_conf_state ref_env ref_store = Ret conf_state_default"
  "entry_by_idx ref_env ref_store i = Ret None"
  "distinct_uncommit ref_store" "uncommit_saved ref_env ref_store" "raft_ok ref_env ref_store"
proof -
  show "first_index ref_env ref_store = 1" "last_index ref_env ref_store = 0"
    unfolding ref.first_index_cell ref.last_index_cell ref_store_cell
    by (simp_all add: ref_store_def snapshot_metadata_default_def u64_at_def)
  show hs: "read_hard_state ref_env ref_store = Ret hard_state_default"
    and cs: "read_conf_state ref_env ref_store = Ret conf_state_default"
    and en: "\<And>i. entry_by_idx ref_env ref_store i = Ret None" for i
    unfolding ref.read_hard_state_cell ref.read_conf_state_cell ref.entry_by_idx_cell ref_store_cell
    by (simp_all add: vec_at_def)
  show d: "distinct_uncommit ref_store" by (simp add: distinct_uncommit_def ref_store_def)
  show u: "uncommit_saved ref_env ref_store"
    unfolding uncommit_saved_def ref.read_uncommit_index_cell ref_store_cell
    by (simp add: vec_at_def ref_store_def)
  show "raft_ok ref_env ref_store" using hs cs en d u by (simp add: raft_ok_def)
qed

lemma ref_batch_allowed [simp]: "append_allowed ref_env ref_store ref_batch"
  by (simp add: append_allowed_def ref_batch_def)

lemma ref_batch_simps [simp]: "ref_batch \<noteq> []" "e_index (last ref_batch) = 2"
  by (simp_all add: ref_batch_def)

lemma ref_logged_facts [simp]:
  "raft_ok ref_env ref_logged"
  "log_at ref_env ref_logged = [1 \<mapsto> ref_entry 3 1, 2 \<mapsto> ref_entry 3 2]"
  "last_index ref_env ref_logged = 2" "first_index ref_env ref_logged = 1"
  "read_hard_state ref_env ref_logged = Ret hard_state_default"
  "read_conf_state ref_env ref_logged = Ret conf_state_default"
proof -
  have "log_at ref_env ref_store = (\<lambda>i. None)"
    by (rule ext) (simp add: log_at_def)
  then have "log_override e_index ref_batch (log_at ref_env ref_store) =
      [1 \<mapsto> ref_entry 3 1, 2 \<mapsto> ref_entry 3 2]"
    by (simp add: ref_batch_def)
  moreover obtain s' where "append ref_env ref_store ref_batch = (s', Ret (Inr ()))"
    "log_at ref_env s' = log_override e_index ref_batch (log_at ref_env ref_store)"
    "last_index ref_env s' = e_index (last ref_batch)"
    "first_index ref_env s' = first_index ref_env ref_store"
    "read_hard_state ref_env s' = read_hard_state ref_env ref_store"
    "read_conf_state ref_env s' = read_conf_state ref_env ref_store" "raft_ok ref_env s'"
    by (rule ref.append_obtain [OF ref_store_facts(8) ref_batch_allowed ref_batch_simps(1)])
  ultimately show "raft_ok ref_env ref_logged"
    "log_at ref_env ref_logged = [1 \<mapsto> ref_entry 3 1, 2 \<mapsto> ref_entry 3 2]"
    "last_index ref_env ref_logged = 2" "first_index ref_env ref_logged = 1"
    "read_hard_state ref_env ref_logged = Ret hard_state_default"
    "read_conf_state ref_env ref_logged = Ret conf_state_default"
    by (simp_all add: ref_logged_def)
qed


subsection \<open>Properties\<close>

text \<open>
  C7: A batch accepted by \<open>append\<close> is in the log afterwards: each index holds the last entry of the
  batch with that index and every other index what it held; the last index is that of the last
  entry (so a shorter conflicting suffix cuts the log), the first index does not move, exactly
  the batch's indexes become uncommitted, on disk as well as in memory, and hard state and
  configuration stay as they were.
\<close>

theorem append_overrides_log:
  assumes "env_up E" and "raft_ok E s" and "append_allowed E s es" and "es \<noteq> []"
  shows "\<exists>s'. append E s es = (s', Ret (Inr ())) \<and> raft_ok E s' \<and>
     log_at E s' = log_override e_index es (log_at E s) \<and>
     last_index E s' = e_index (last es) \<and> first_index E s' = first_index E s \<and>
     map_of (rs_uncommit_index s') = mark_uncommitted es (map_of (rs_uncommit_index s)) \<and>
     map_of (read_uncommit_index E (rs_db s')) = map_of (rs_uncommit_index s') \<and>
     raft_state E s' = raft_state E s"
proof -
  obtain s' where s': "append E s es = (s', Ret (Inr ()))"
    "log_at E s' = log_override e_index es (log_at E s)"
    "last_index E s' = e_index (last es)" "first_index E s' = first_index E s"
    "map_of (rs_uncommit_index s') = mark_uncommitted es (map_of (rs_uncommit_index s))"
    "read_hard_state E s' = read_hard_state E s" "read_conf_state E s' = read_conf_state E s"
    "raft_ok E s'"
    by (rule storage_env.append_obtain [OF storage_env.intro [OF assms(1)] assms(2-4)])
  then show ?thesis
    by (simp add: raft_ok_def uncommit_saved_def raft_state_def cong: run.case_cong)
qed

lemma append_overrides_log_witness:
  "\<exists>s'. append ref_env ref_store ref_batch = (s', Ret (Inr ())) \<and> last_index ref_env s' = 2"
  using append_overrides_log [OF ref_env_up, of ref_store ref_batch] by auto

text \<open>
  \<open>append\<close> panics exactly on a batch that would overwrite compacted entries or leave a gap, and
  then it has written nothing.
\<close>

lemma append_rejects:
  assumes "env_up E" and "raft_ok E s"
  shows "((\<exists>p. snd (append E s es) = Panic p) \<longleftrightarrow>
     es \<noteq> [] \<and> (e_index (hd es) < first_index E s \<or> last_index E s + 1 < e_index (hd es))) \<and>
    (\<forall>p. snd (append E s es) = Panic p \<longrightarrow> fst (append E s es) = s)"
proof (cases "append_allowed E s es")
  case True
  have "snd (append E s es) = Ret (Inr ())"
  proof (cases "es = []")
    case False
    obtain s' where "append E s es = (s', Ret (Inr ()))"
      by (rule storage_env.append_obtain [OF storage_env.intro [OF assms(1)] assms(2) True False])
    then show ?thesis by simp
  qed (simp add: append_def)
  with True show ?thesis by (auto simp: append_allowed_def linorder_not_less)
next
  case False
  then show ?thesis
    using storage_env.append_panics_up [OF storage_env.intro [OF assms(1)] False]
    by (auto simp: append_allowed_def linorder_not_le)
qed

lemma append_rejects_witness:
  "(\<exists>p. snd (append ref_env ref_store [ref_entry 3 5]) = Panic p) \<and>
   fst (append ref_env ref_store [ref_entry 3 5]) = ref_store"
  using append_rejects [OF ref_env_up, of ref_store "[ref_entry 3 5]"] by auto

text \<open>
  C18: Committing an index whose entry is in the log moves the hard state's commit to it, takes the
  index (and no other) out of the uncommitted set in memory and on disk, and keeps every entry;
  it also overwrites the hard state's term by the entry's term, even when that is older.
\<close>

theorem commit_advances:
  assumes "env_up E" and "raft_ok E s" and "read_hard_state E s = Ret hs"
    and "log_at E s idx = Some e"
  shows "\<exists>s'. commmit_index E s idx = (s', Ret (Inr ())) \<and> raft_ok E s' \<and>
     read_hard_state E s' = Ret (hs\<lparr>hs_commit := idx, hs_term := e_term e\<rparr>) \<and>
     map_of (rs_uncommit_index s') = (map_of (rs_uncommit_index s))(idx := None) \<and>
     map_of (read_uncommit_index E (rs_db s')) = map_of (rs_uncommit_index s') \<and>
     log_at E s' = log_at E s"
proof -
  have env: "storage_env E" using assms(1) by (rule storage_env.intro)
  have d: "distinct_uncommit s" using assms(2) by (simp add: raft_ok_def)
  show ?thesis
    using storage_env.commit_effect_up [OF env assms(4,3) d]
      storage_env.commit_ok [OF env assms(2,4)]
    by (auto simp: uncommit_saved_def)
qed

lemma commit_advances_witness:
  "\<exists>s'. commmit_index ref_env ref_logged 2 = (s', Ret (Inr ())) \<and>
     read_hard_state ref_env s' = Ret \<lparr>hs_term = 3, hs_vote = 0, hs_commit = 2\<rparr>"
  using commit_advances [OF ref_env_up, of ref_logged hard_state_default 2 "ref_entry 3 2"]
  by (auto simp: hard_state_default_def)

text \<open>
  Committing an index whose entry is missing does not stop at the log line that announces it:
  the call panics, after it has already removed the index from the uncommitted set on disk, and
  leaves the hard state as it was.
\<close>

lemma commit_missing_panics:
  assumes "env_up E" and "raft_ok E s" and "read_hard_state E s = Ret hs"
    and "log_at E s idx = None"
  shows "\<exists>s'. commmit_index E s idx = (s', Panic UnwrapNone) \<and> read_hard_state E s' = Ret hs \<and>
     map_of (read_uncommit_index E (rs_db s')) = (map_of (rs_uncommit_index s))(idx := None)"
proof -
  obtain r where r: "entry_by_idx E s idx = Ret r" using assms(2) by (auto simp: raft_ok_def)
  then have "entry_by_idx E s idx = Ret None"
    using assms(4) by (auto simp: log_at_def split: option.splits)
  then show ?thesis
    using storage_env.commit_missing_up [OF storage_env.intro [OF assms(1)]] assms(2,3)
    by (simp add: raft_ok_def)
qed

lemma commit_missing_panics_witness:
  "\<exists>s'. commmit_index ref_env ref_logged 9 = (s', Panic UnwrapNone)"
  using commit_missing_panics [OF ref_env_up, of ref_logged hard_state_default 9] by auto



end
