(* ===== verification/Raft_Snapshot.thy ===== *)
theory Raft_Snapshot
  imports Raft_Log
begin

section \<open>Snapshots of RaftMachineStorage\<close>

text \<open>
  What \<open>create_snapshot\<close> puts into a snapshot (every text cell of the column family, Raft metadata
  included) and what \<open>apply_snapshot\<close> does with it on another store: it merges the dump into the
  receiver's cells and overwrites hard state and configuration.
\<close>

text \<open>The cells a dump carries: those whose key and value are valid UTF-8.\<close>

definition exported :: "'db env \<Rightarrow> 'db \<Rightarrow> string \<Rightarrow> bytes option" where
  "exported E db k =
     (case cell (rocks E) db k of
        None \<Rightarrow> None
      | Some b \<Rightarrow> if rust_str k \<and> utf8_valid b then Some b else None)"

definition dump_pairs :: "'db env \<Rightarrow> 'db \<Rightarrow> (string \<times> string) list" where
  "dump_pairs E db =
     map (\<lambda>k. (bytes_str k, bytes_str (the (db_view (rocks E) db cf_cluster k))))
       (filter (\<lambda>k. utf8_valid k \<and> utf8_valid (the (db_view (rocks E) db cf_cluster k)))
         (sorted_list_of_set (dom (db_view (rocks E) db cf_cluster))))"

lemma map_of_map_keys:
  "inj_on f (set ks) \<Longrightarrow> map_of (map (\<lambda>k. (f k, g k)) ks) x =
     (if x \<in> f ` set ks then Some (g (inv_into (set ks) f x)) else None)"
proof (induction ks)
  case Nil
  then show ?case by simp
next
  case (Cons a ks)
  then have inj: "inj_on f (set ks)" by simp
  have a: "inv_into (set (a # ks)) f (f a) = a" using Cons.prems by (rule inv_into_f_f) simp
  have "inv_into (set (a # ks)) f (f k) = inv_into (set ks) f (f k)" if "k \<in> set ks" for k
    using Cons.prems inj that by (metis inv_into_f_f list.set_intros(2))
  with Cons.IH [OF inj] a show ?case by auto
qed

lemma bytes_str_inject [simp]: "bytes_str a = bytes_str b \<longleftrightarrow> a = b"
  by (metis str_bytes_bytes_str)

lemma inj_bytes_str: "inj_on bytes_str A"
  by (simp add: inj_on_def)

definition restored :: "(string \<times> string) list \<Rightarrow> (string \<Rightarrow> bytes option) \<Rightarrow> string \<Rightarrow> bytes option" where
  "restored kvs m k = (case map_of kvs k of Some v \<Rightarrow> Some (str_bytes v) | None \<Rightarrow> m k)"

context storage_env
begin

lemma map_of_dump: "map_of (dump_pairs E db) k = map_option bytes_str (exported E db k)"
proof -
  let ?v = "db_view (rocks E) db cf_cluster"
  let ?ks = "filter (\<lambda>k. utf8_valid k \<and> utf8_valid (the (?v k))) (sorted_list_of_set (dom ?v))"
  have mem: "k \<in> bytes_str ` set ?ks \<longleftrightarrow> (\<exists>b. ?v (str_bytes k) = Some b \<and> rust_str k \<and> utf8_valid b)"
    by (auto simp: rust_str_def image_iff domI) (metis domI option.sel bytes_str_str_bytes)?
  have inv: "inv_into (set ?ks) bytes_str k = str_bytes k" if "k \<in> bytes_str ` set ?ks"
    using that by (metis (no_types, lifting) f_inv_into_f str_bytes_bytes_str)
  show ?thesis
    unfolding dump_pairs_def map_of_map_keys [OF inj_bytes_str]
    using mem inv by (auto simp: exported_def cell_def split: option.splits)
qed

lemma distinct_dump: "distinct (map fst (dump_pairs E db))"
  by (auto simp: dump_pairs_def distinct_map comp_def inj_on_def)

lemma read_all_dump:
  "read_all (rocks E) db = [(''cluster'', map (\<lambda>kv. [kv]) (dump_pairs E db))]"
  by (simp add: read_all_def column_family_list_def DB_COLUMN_FAMILY_CLUSTER_def get_column_family_def
      read_all_by_cf_exact dump_pairs_def comp_def cf_cluster_def)

lemma flat_dump_read_all: "flat_dump (read_all (rocks E) db)"
  by (auto simp: read_all_dump flat_dump_def)

lemma fold_restored:
  "cell (rocks E) (fold (\<lambda>raw db. write_pairs E db raw) (map (\<lambda>kv. [kv]) kvs) db) k =
     restored (rev kvs) (cell (rocks E) db) k"
proof (induction kvs arbitrary: db)
  case Nil
  then show ?case by (simp add: restored_def)
next
  case (Cons kv kvs)
  obtain a b where kv: "kv = (a, b)" by (cases kv)
  have "cell (rocks E) (fst (db_write_str (rocks E) db get_column_family a b)) k =
      (if k = a then Some (str_bytes b) else cell (rocks E) db k)"
    by (simp add: get_column_family_def cell_db_write_str)
  with Cons show ?case
    by (auto simp: kv restored_def map_add_def split: option.splits)
qed

lemma restored_rev: "distinct (map fst kvs) \<Longrightarrow> restored (rev kvs) m k = restored kvs m k"
  using map_of_inject_set [of "rev kvs" kvs] by (simp add: restored_def rev_map [symmetric])

lemma write_all_effect:
  assumes "bc_deserialize (bc_dump E) d = Inr (read_all (rocks E) db)" and "d \<noteq> []"
  shows "rcell E (write_all E s d) k =
       (case exported E db k of Some b \<Rightarrow> Some b | None \<Rightarrow> rcell E s k)"
    and "rs_uncommit_index (write_all E s d) = rs_uncommit_index s"
    and "rs_snapshot_metadata (write_all E s d) = rs_snapshot_metadata s"
    and "rs_trigger_snap_unavailable (write_all E s d) = rs_trigger_snap_unavailable s"
proof -
  have w: "write_all E s d = s\<lparr>rs_db :=
      fold (\<lambda>raw db. write_pairs E db raw) (map (\<lambda>kv. [kv]) (dump_pairs E db)) (rs_db s)\<rparr>"
    using assms by (simp add: write_all_def read_all_dump)
  show "rcell E (write_all E s d) k =
       (case exported E db k of Some b \<Rightarrow> Some b | None \<Rightarrow> rcell E s k)"
    by (simp add: w fold_restored restored_rev distinct_dump)
      (simp add: restored_def map_of_dump split: option.split)
qed (simp_all add: write_all_def assms)

subsection \<open>create_snapshot and snapshot\<close>

lemma create_snapshot_obtain:
  assumes "read_hard_state E s = Ret hs" and "read_conf_state E s = Ret cs"
  obtains s' d where "create_snapshot E s = (s', Ret ())"
    "d \<noteq> []" "bc_deserialize (bc_dump E) d = Inr (read_all (rocks E) (rs_db s))"
    "\<forall>k. rcell E s' k =
       (if k = key_name_snapshot then Some (vec_cell E (pb_encode (pb_snapshot E)
            \<lparr>snap_data = d, snap_metadata =
               \<lparr>sm_conf_state = cs, sm_index = hs_commit hs, sm_term = hs_term hs\<rparr>\<rparr>))
        else if k = key_name_by_first_index then Some (u64_cell E (hs_commit hs))
        else rcell E s k)"
    "rs_uncommit_index s' = rs_uncommit_index s"
    "rs_snapshot_metadata s' = \<lparr>sm_conf_state = cs, sm_index = hs_commit hs, sm_term = hs_term hs\<rparr>"
    "rs_trigger_snap_unavailable s' = rs_trigger_snap_unavailable s"
proof -
  let ?m = "\<lparr>sm_conf_state = cs, sm_index = hs_commit hs, sm_term = hs_term hs\<rparr>"
  have meta: "create_snapshot_metadata E s = Ret ?m"
    using assms by (simp add: create_snapshot_metadata_def snapshot_metadata_default_def)
  obtain d where d: "bc_serialize (bc_dump E) (read_all (rocks E) (rs_db s)) = Inr d" "d \<noteq> []"
    "bc_deserialize (bc_dump E) d = Inr (read_all (rocks E) (rs_db s))"
    using env_dump [OF flat_dump_read_all] by blast
  let ?s1 = "fst (save_first_index E s (hs_commit hs))"
  let ?s2 = "save_snapshot_data E ?s1 \<lparr>snap_data = d, snap_metadata = ?m\<rparr>"
  have "create_snapshot E s = (?s2\<lparr>rs_snapshot_metadata := ?m\<rparr>, Ret ())"
    by (simp add: create_snapshot_def meta d(1) snapshot_default_def Let_def)
  then show ?thesis using that [of "?s2\<lparr>rs_snapshot_metadata := ?m\<rparr>" d] d(2,3) by simp
qed

lemma make_snapshot_obtain:
  assumes "read_hard_state E s = Ret hs" and "read_conf_state E s = Ret cs"
  obtains s' d where "make_snapshot E s = (s', Ret \<lparr>snap_data = d, snap_metadata =
       \<lparr>sm_conf_state = cs, sm_index = hs_commit hs, sm_term = hs_term hs\<rparr>\<rparr>)"
    "create_snapshot E s = (s', Ret ())"
    "d \<noteq> []" "bc_deserialize (bc_dump E) d = Inr (read_all (rocks E) (rs_db s))"
proof -
  obtain s' d where c: "create_snapshot E s = (s', Ret ())" "d \<noteq> []"
    "bc_deserialize (bc_dump E) d = Inr (read_all (rocks E) (rs_db s))"
    "\<forall>k. rcell E s' k =
       (if k = key_name_snapshot then Some (vec_cell E (pb_encode (pb_snapshot E)
            \<lparr>snap_data = d, snap_metadata =
               \<lparr>sm_conf_state = cs, sm_index = hs_commit hs, sm_term = hs_term hs\<rparr>\<rparr>))
        else if k = key_name_by_first_index then Some (u64_cell E (hs_commit hs))
        else rcell E s k)"
    by (rule create_snapshot_obtain [OF assms])
  have "make_snapshot E s = (s', Ret \<lparr>snap_data = d, snap_metadata =
       \<lparr>sm_conf_state = cs, sm_index = hs_commit hs, sm_term = hs_term hs\<rparr>\<rparr>)"
    by (simp add: make_snapshot_def c(1) read_vec_cell c(4))
  with that c(1,2,3) show ?thesis by blast
qed

subsection \<open>apply_snapshot\<close>

lemma exported_readable:
  assumes "read_hard_state E s = Ret hs" and "read_conf_state E s = Ret cs"
    and "read_hard_state E t = Ret ht" and "read_conf_state E t = Ret ct"
    and "\<And>k. rcell E w k = (case exported E (rs_db s) k of Some b \<Rightarrow> Some b | None \<Rightarrow> rcell E t k)"
  shows "\<exists>h. read_hard_state E w = Ret h \<and>
     (if rcell E s key_name_by_hard_state = None then h = ht else h = hs)"
proof (cases "rcell E s key_name_by_hard_state")
  case None
  then have "rcell E w key_name_by_hard_state = rcell E t key_name_by_hard_state"
    by (simp add: assms(5) exported_def)
  with assms(3) None show ?thesis by (simp add: read_hard_state_cell)
next
  case (Some b)
  have "utf8_valid b"
  proof (rule ccontr)
    assume "\<not> utf8_valid b"
    then have "read_hard_state E s = Panic UnwrapErr"
      by (simp add: read_hard_state_cell Some vec_at_def decode_cell_def from_utf8_def)
    with assms(1) show False by simp
  qed
  then have "rcell E w key_name_by_hard_state = Some b"
    by (simp add: assms(5) exported_def Some)
  with assms(1) Some show ?thesis by (simp add: read_hard_state_cell)
qed

lemma apply_snapshot_obtain:
  assumes s: "read_hard_state E s = Ret hs" "read_conf_state E s = Ret cs"
    and t: "read_hard_state E t = Ret ht" "read_conf_state E t = Ret ct"
    and d: "d \<noteq> []" "bc_deserialize (bc_dump E) d = Inr (read_all (rocks E) (rs_db s))"
    and index: "first_index E t \<le> sm_index meta"
  obtains t' h where "apply_snapshot E t \<lparr>snap_data = d, snap_metadata = meta\<rparr> = (t', Ret (Inr ()))"
    "if rcell E s key_name_by_hard_state = None then h = ht else h = hs"
    "read_hard_state E t' = Ret (h\<lparr>hs_term := max (hs_term h) (sm_term meta), hs_commit := sm_index meta\<rparr>)"
    "read_conf_state E t' = Ret (sm_conf_state meta)"
    "rs_snapshot_metadata t' = meta"
    "rs_uncommit_index t' = rs_uncommit_index t"
    "rs_trigger_snap_unavailable t' = rs_trigger_snap_unavailable t"
    "\<forall>k. k \<noteq> key_name_by_hard_state \<longrightarrow> k \<noteq> key_name_by_conf_state \<longrightarrow>
       rcell E t' k = (case exported E (rs_db s) k of Some b \<Rightarrow> Some b | None \<Rightarrow> rcell E t k)"
proof -
  let ?t1 = "t\<lparr>rs_snapshot_metadata := meta\<rparr>"
  let ?t2 = "write_all E ?t1 d"
  note w = write_all_effect [OF d(2,1), of ?t1]
  have w1: "rcell E ?t2 k = (case exported E (rs_db s) k of Some b \<Rightarrow> Some b | None \<Rightarrow> rcell E t k)" for k
    using w(1) [of k] by (simp cong: option.case_cong)
  from exported_readable [OF s t w1] obtain h where h: "read_hard_state E ?t2 = Ret h"
    "if rcell E s key_name_by_hard_state = None then h = ht else h = hs" by blast
  let ?h = "h\<lparr>hs_term := max (hs_term h) (sm_term meta), hs_commit := sm_index meta\<rparr>"
  let ?t3 = "fst (save_hard_state E ?t2 ?h)"
  let ?t4 = "fst (save_conf_state E ?t3 (sm_conf_state meta))"
  have "apply_snapshot E t \<lparr>snap_data = d, snap_metadata = meta\<rparr> = (?t4, Ret (Inr ()))"
    using index h(1) by (simp add: apply_snapshot_def Let_def)
  moreover have "read_hard_state E ?t4 = Ret ?h" by (simp add: read_hard_state_cell)
  moreover have "read_conf_state E ?t4 = Ret (sm_conf_state meta)" by (simp add: read_conf_state_cell)
  ultimately show ?thesis using that [of ?t4 h] h(2) w w1 by simp
qed

lemma out_of_date:
  "sm_index (snap_metadata sn) < first_index E t \<Longrightarrow>
     apply_snapshot E t sn = (t, Ret (Inl SnapshotOutOfDate))"
  by (simp add: apply_snapshot_def Let_def)

end


subsection \<open>Properties\<close>


definition ref_committed :: "mem_db raft_store" where
  "ref_committed = fst (commmit_index ref_env ref_logged 2)"

lemma ref_committed_facts [simp]:
  "raft_ok ref_env ref_committed"
  "read_hard_state ref_env ref_committed = Ret \<lparr>hs_term = 3, hs_vote = 0, hs_commit = 2\<rparr>"
  "\<exists>cs. read_conf_state ref_env ref_committed = Ret cs"
proof -
  have "distinct_uncommit ref_logged" using ref_logged_facts(1) by (simp add: raft_ok_def)
  then show "read_hard_state ref_env ref_committed = Ret \<lparr>hs_term = 3, hs_vote = 0, hs_commit = 2\<rparr>"
    using ref.commit_effect_up [of ref_logged 2 "ref_entry 3 2" hard_state_default]
    by (auto simp: ref_committed_def hard_state_default_def)
  show ok: "raft_ok ref_env ref_committed"
    unfolding ref_committed_def using ref.commit_ok [of ref_logged 2 "ref_entry 3 2"] by simp
  then show "\<exists>cs. read_conf_state ref_env ref_committed = Ret cs" by (simp add: raft_ok_def)
qed

lemma ref_snapshot:
  "\<exists>s' sn. make_snapshot ref_env ref_committed = (s', Ret sn) \<and> sm_index (snap_metadata sn) = 2"
proof -
  obtain cs where cs: "read_conf_state ref_env ref_committed = Ret cs" using ref_committed_facts(3) by blast
  show ?thesis
    by (rule ref.make_snapshot_obtain [OF ref_committed_facts(2) cs]) simp
qed


lemma kv_get_exported:
  assumes "env_up E" and "kv_readable E db" and "kv_user_key k" and "rust_str k"
    and "cell (rocks E) db' k = (case exported E db k of Some b \<Rightarrow> Some b | None \<Rightarrow> cell (rocks E) db2 k)"
  shows "kv_get E db' k = (case kv_get E db k of Inr None \<Rightarrow> kv_get E db2 k | r \<Rightarrow> r)"
proof -
  note env = storage_env.intro [OF assms(1)]
  show ?thesis
  proof (cases "cell (rocks E) db k")
    case None
    then show ?thesis
      using assms(5) by (simp add: storage_env.kv_get_cell [OF env] exported_def)
  next
    case (Some b)
    then obtain v where v: "cell_value E b = Inr v"
      using assms(2,3) by (auto simp: kv_readable_def is_ok_iff)
    then have "utf8_valid b"
      by (auto simp: cell_value_def decode_cell_def from_utf8_def split: if_splits)
    then have "cell (rocks E) db' k = Some b" using assms(4,5) Some by (simp add: exported_def)
    then show ?thesis using Some v by (simp add: storage_env.kv_get_cell [OF env])
  qed
qed

end
