(* ===== verification/Raft_Reach.thy ===== *)
theory Raft_Reach
  imports Raft_Snapshot
begin

section \<open>Reachable states of a Raft store\<close>

text \<open>
  The operations a node performs on its store as a step relation, with the guarantees raft-rs
  documents for its calls (a batch of consecutive entries above the commit position, a commit
  position that only grows and stays inside the log), interleaved with \<open>KvStorage\<close>
  calls on keys outside the Raft namespace, snapshots and restarts.  Installing a foreign snapshot
  is not a step here: \<^verbatim>\<open>Raft_Snapshot\<close> says what it does.
\<close>

inductive raft_step :: "'db env \<Rightarrow> 'db raft_store \<Rightarrow> 'db raft_store \<Rightarrow> bool" for E where
  step_append: "append_allowed E s es \<Longrightarrow> es \<noteq> [] \<Longrightarrow> batch e_index k es \<Longrightarrow>
     read_hard_state E s = Ret hs \<Longrightarrow> hs_commit hs < k \<Longrightarrow> raft_step E s (fst (append E s es))"
| step_commit: "read_hard_state E s = Ret hs \<Longrightarrow> hs_commit hs < i \<Longrightarrow> i \<le> last_index E s \<Longrightarrow>
     raft_step E s (fst (commmit_index E s i))"
| step_hard_state: "read_hard_state E s = Ret h \<Longrightarrow> hs_commit h \<le> hs_commit hs \<Longrightarrow>
     hs_commit hs \<le> last_index E s \<Longrightarrow> raft_step E s (fst (save_hard_state E s hs))"
| step_hard_state_commit: "read_hard_state E s = Ret h \<Longrightarrow> hs_commit h \<le> c \<Longrightarrow>
     c \<le> last_index E s \<Longrightarrow> raft_step E s (fst (set_hard_state_commit E s c))"
| step_conf_state: "raft_step E s (fst (save_conf_state E s cs))"
| step_snapshot: "raft_step E s (fst (create_snapshot E s))"

inductive node_step :: "'db env \<Rightarrow> 'db raft_store \<Rightarrow> 'db raft_store \<Rightarrow> bool" for E where
  node_raft: "raft_step E s s' \<Longrightarrow> node_step E s s'"
| node_kv_set: "kv_user_key k \<Longrightarrow> node_step E s (s\<lparr>rs_db := fst (kv_set E now (rs_db s) k v)\<rparr>)"
| node_kv_delete: "kv_user_key k \<Longrightarrow> node_step E s (s\<lparr>rs_db := fst (kv_delete E (rs_db s) k)\<rparr>)"
| node_restart: "raft_store_new E (rs_db s) = Ret s' \<Longrightarrow> node_step E s s'"

inductive node_reachable :: "'db env \<Rightarrow> 'db raft_store \<Rightarrow> bool" for E where
  reach_init: "(\<forall>k. cell (rocks E) db k = None) \<Longrightarrow> raft_store_new E db = Ret s \<Longrightarrow> node_reachable E s"
| reach_step: "node_reachable E s \<Longrightarrow> node_step E s s' \<Longrightarrow> node_reachable E s'"

inductive_cases raft_stepE: "raft_step E s s'"
inductive_cases node_stepE: "node_step E s s'"

text \<open>
  The invariant: the store is well formed, the log has no hole from 1 to its last index, the commit
  position lies inside it, the snapshot index and the first index do not pass the commit position
  (the first index by more than one), and a store that never saved a last index has committed
  nothing.
\<close>

definition raft_inv :: "'db env \<Rightarrow> 'db raft_store \<Rightarrow> bool" where
  "raft_inv E s \<longleftrightarrow>
     raft_ok E s \<and> log_full e_index (log_at E s) 1 (last_index E s) \<and>
     unat (last_index E s) < 2 ^ 64 - 1 \<and>
     (\<exists>hs. read_hard_state E s = Ret hs \<and> hs_commit hs \<le> last_index E s \<and>
        sm_index (rs_snapshot_metadata s) \<le> hs_commit hs \<and>
        unat (first_index E s) \<le> unat (hs_commit hs) + 1 \<and>
        (u64_at E (rcell E s key_name_by_last_index) = None \<longrightarrow> hs_commit hs = 0))"

lemma raft_invI:
  assumes "raft_ok E s" and "log_full e_index (log_at E s) 1 (last_index E s)"
    and "unat (last_index E s) < 2 ^ 64 - 1" and "read_hard_state E s = Ret hs"
    and "hs_commit hs \<le> last_index E s" and "sm_index (rs_snapshot_metadata s) \<le> hs_commit hs"
    and "unat (first_index E s) \<le> unat (hs_commit hs) + 1"
    and "u64_at E (rcell E s key_name_by_last_index) = None \<Longrightarrow> hs_commit hs = 0"
  shows "raft_inv E s"
  using assms by (simp add: raft_inv_def)

lemma raft_invE:
  assumes "raft_inv E s"
  obtains hs where "raft_ok E s" "log_full e_index (log_at E s) 1 (last_index E s)"
    "unat (last_index E s) < 2 ^ 64 - 1" "read_hard_state E s = Ret hs"
    "hs_commit hs \<le> last_index E s" "sm_index (rs_snapshot_metadata s) \<le> hs_commit hs"
    "unat (first_index E s) \<le> unat (hs_commit hs) + 1"
    "u64_at E (rcell E s key_name_by_last_index) = None \<longrightarrow> hs_commit hs = 0"
  using assms by (auto simp: raft_inv_def)

lemma raft_okI:
  "read_hard_state E s = Ret hs \<Longrightarrow> read_conf_state E s = Ret cs \<Longrightarrow>
     (\<And>i. \<exists>r. entry_by_idx E s i = Ret r) \<Longrightarrow> distinct_uncommit s \<Longrightarrow> uncommit_saved E s \<Longrightarrow>
     raft_ok E s"
  by (simp add: raft_ok_def)

lemma user_key_ne:
  assumes "kv_user_key k"
  shows "k \<noteq> key_name_by_last_index" "k \<noteq> key_name_by_first_index" "k \<noteq> key_name_uncommit"
    "k \<noteq> key_name_by_hard_state" "k \<noteq> key_name_by_conf_state" "k \<noteq> key_name_snapshot"
    "k \<notin> key_name_by_entry ` A"
  using assms by (auto simp: kv_user_key_def)

context storage_env
begin

text \<open>Stores with the same Raft cells and the same uncommitted map are equally well formed.\<close>

lemma raft_ok_cong:
  assumes "\<And>k. raft_namespace k \<Longrightarrow> rcell E s' k = rcell E s k"
    and "rs_uncommit_index s' = rs_uncommit_index s"
  shows "raft_ok E s' \<longleftrightarrow> raft_ok E s"
proof -
  have "read_uncommit_index E (rs_db s') = read_uncommit_index E (rs_db s)"
    using readers_cong(4) [of s' s] assms(1) by simp
  then show ?thesis
    by (simp add: raft_ok_def readers_cong(1,2,3) [of s' s] assms uncommit_saved_def
        distinct_uncommit_def)
qed

lemma raft_inv_cong:
  assumes "\<And>k. raft_namespace k \<Longrightarrow> rcell E s' k = rcell E s k"
    and "rs_uncommit_index s' = rs_uncommit_index s"
    and "rs_snapshot_metadata s' = rs_snapshot_metadata s"
  shows "raft_inv E s' \<longleftrightarrow> raft_inv E s"
proof -
  have "log_at E s' = log_at E s" by (rule log_at_cong) (simp add: assms)
  then show ?thesis
    by (simp add: raft_inv_def raft_ok_cong [of s' s] index_cong [of s' s]
        readers_cong(1) [of s' s] assms)
qed

text \<open>Writing one metadata cell: the log and its bounds do not move.\<close>

lemma save_hard_state_inv:
  assumes "raft_inv E s" and "read_hard_state E s = Ret h"
    and "hs_commit h \<le> hs_commit hs" and "hs_commit hs \<le> last_index E s"
  shows "raft_inv E (fst (save_hard_state E s hs))"
proof -
  let ?s' = "fst (save_hard_state E s hs)"
  have log: "log_at E ?s' = log_at E s" by (rule log_at_cong) simp
  have idx: "last_index E ?s' = last_index E s" "first_index E ?s' = first_index E s"
    by (simp_all add: last_index_cell first_index_cell cong: option.case_cong)
  have hs: "read_hard_state E ?s' = Ret hs" by (simp add: read_hard_state_cell)
  show ?thesis
  proof (rule raft_invE [OF assms(1)])
    fix hs0
    assume ok: "raft_ok E s" and s: "log_full e_index (log_at E s) 1 (last_index E s)"
      "unat (last_index E s) < 2 ^ 64 - 1" "read_hard_state E s = Ret hs0"
      "hs_commit hs0 \<le> last_index E s" "sm_index (rs_snapshot_metadata s) \<le> hs_commit hs0"
      "unat (first_index E s) \<le> unat (hs_commit hs0) + 1"
      "u64_at E (rcell E s key_name_by_last_index) = None \<longrightarrow> hs_commit hs0 = 0"
    have h: "hs0 = h" using s(3) assms(2) by simp
    have "raft_ok E ?s'"
      using ok by (simp add: raft_ok_def read_hard_state_cell read_conf_state_cell entry_by_idx_cell
          uncommit_saved_def read_uncommit_index_cell distinct_uncommit_def)
    moreover have "hs_commit hs = 0" if "u64_at E (rcell E s key_name_by_last_index) = None"
      using that s(5,7) assms(4) h by (simp add: last_index_cell)
    ultimately show ?thesis
      using s assms(3,4) h
      by (intro raft_invI [where hs = hs]) (auto simp: log idx hs word_le_nat_alt)
  qed
qed

lemma save_conf_state_inv:
  assumes "raft_inv E s"
  shows "raft_inv E (fst (save_conf_state E s cs))"
proof -
  let ?s' = "fst (save_conf_state E s cs)"
  have "log_at E ?s' = log_at E s" by (rule log_at_cong) simp
  moreover have "last_index E ?s' = last_index E s" "first_index E ?s' = first_index E s"
    by (simp_all add: last_index_cell first_index_cell cong: option.case_cong)
  moreover have "read_hard_state E ?s' = read_hard_state E s" by (simp add: read_hard_state_cell)
  moreover have "raft_ok E s \<Longrightarrow> raft_ok E ?s'"
    by (simp add: raft_ok_def read_hard_state_cell read_conf_state_cell entry_by_idx_cell
        uncommit_saved_def read_uncommit_index_cell distinct_uncommit_def)
  ultimately show ?thesis using assms by (simp add: raft_inv_def)
qed

lemma append_inv:
  assumes inv: "raft_inv E s" and al: "append_allowed E s es" and ne: "es \<noteq> []"
    and b: "batch e_index k es" and hs: "read_hard_state E s = Ret hs" "hs_commit hs < k"
  shows "raft_inv E (fst (append E s es))"
proof (rule raft_invE [OF inv])
  fix h
  assume ok: "raft_ok E s" and s: "log_full e_index (log_at E s) 1 (last_index E s)"
    "unat (last_index E s) < 2 ^ 64 - 1" "read_hard_state E s = Ret h"
    "hs_commit h \<le> last_index E s" "sm_index (rs_snapshot_metadata s) \<le> hs_commit h"
    "unat (first_index E s) \<le> unat (hs_commit h) + 1"
  have h: "h = hs" using s(3) hs(1) by simp
  obtain s' where s': "append E s es = (s', Ret (Inr ()))"
    "log_at E s' = log_override e_index es (log_at E s)"
    "last_index E s' = e_index (last es)" "first_index E s' = first_index E s"
    "rs_snapshot_metadata s' = rs_snapshot_metadata s"
    "read_hard_state E s' = read_hard_state E s" "raft_ok E s'"
    by (rule append_obtain [OF ok al ne])
  obtain e es' where es: "es = e # es'" using ne by (cases es) auto
  have k: "e_index (hd es) = k" using b es by (simp add: batch_Cons)
  have last: "unat (last_index E s') = unat k + length es - 1"
    using batch_last [OF b ne] by (simp add: s'(3))
  have lt: "unat k + length es < 2 ^ 64" using b by (simp add: batch_def)
  have "unat (last_index E s + 1) = unat (last_index E s) + 1"
    using s(2) by (simp add: unat_plus_if')
  then have kl: "unat k \<le> unat (last_index E s) + 1"
    using al ne k by (simp add: append_allowed_def word_le_nat_alt)
  have full: "log_full e_index (log_at E s') 1 (last_index E s')"
    unfolding s'(2,3) by (rule log_full_override [OF s(1) b ne kl])
  have cl: "unat k \<le> unat (last_index E s')" using last ne by (cases es) simp_all
  show ?thesis
  proof (unfold s'(1) fst_conv, rule raft_invI [where hs = hs])
    show "raft_ok E s'" by (rule s'(7))
    show "log_full e_index (log_at E s') 1 (last_index E s')" by (rule full)
    show "unat (last_index E s') < 2 ^ 64 - 1" using last lt ne by (cases es) simp_all
    show "read_hard_state E s' = Ret hs" using s'(6) hs(1) by simp
    show "hs_commit hs \<le> last_index E s'" using hs(2) cl by (simp add: word_le_nat_alt word_less_nat_alt)
    show "sm_index (rs_snapshot_metadata s') \<le> hs_commit hs" using s(5) h s'(5) by simp
    show "unat (first_index E s') \<le> unat (hs_commit hs) + 1" using s(6) h s'(4) by simp
    show "hs_commit hs = 0" if "u64_at E (rcell E s' key_name_by_last_index) = None"
    proof -
      have "last_index E s' = sm_index (rs_snapshot_metadata s')" using that by (simp add: last_index_cell)
      then have "unat (last_index E s') \<le> unat (hs_commit hs)"
        using s(5) h s'(5) by (simp add: word_le_nat_alt)
      with cl hs(2) show ?thesis by (simp add: word_less_nat_alt)
    qed
  qed
qed

text \<open>
  Committing an index of the log that neither the snapshot nor the first index is ahead of; the
  commit position may move in either direction.
\<close>

lemma commit_any_inv:
  assumes inv: "raft_inv E s" and i: "0 < i" "i \<le> last_index E s"
    and snap: "sm_index (rs_snapshot_metadata s) \<le> i" "unat (first_index E s) \<le> unat i + 1"
  shows "\<exists>s' h. commmit_index E s i = (s', Ret (Inr ())) \<and> raft_inv E s' \<and>
    read_hard_state E s' = Ret h \<and> hs_commit h = i \<and> last_index E s' = last_index E s \<and>
    first_index E s' = first_index E s \<and> rs_snapshot_metadata s' = rs_snapshot_metadata s"
proof (rule raft_invE [OF inv])
  fix hs
  assume s: "raft_ok E s" "log_full e_index (log_at E s) 1 (last_index E s)"
    "unat (last_index E s) < 2 ^ 64 - 1" "read_hard_state E s = Ret hs"
    "hs_commit hs \<le> last_index E s" "sm_index (rs_snapshot_metadata s) \<le> hs_commit hs"
    "u64_at E (rcell E s key_name_by_last_index) = None \<longrightarrow> hs_commit hs = 0"
  obtain e where e: "log_at E s i = Some e" using log_full_at [OF s(2) i] by blast
  have d: "distinct_uncommit s" using s(1) by (simp add: raft_ok_def)
  let ?h = "hs\<lparr>hs_commit := i, hs_term := e_term e\<rparr>"
  from commit_effect_up [OF e s(4) d] obtain s' where s': "commmit_index E s i = (s', Ret (Inr ()))"
    "read_hard_state E s' = Ret ?h" "log_at E s' = log_at E s"
    "rs_snapshot_metadata s' = rs_snapshot_metadata s"
    "\<forall>k. k \<noteq> key_name_by_hard_state \<longrightarrow> k \<noteq> key_name_uncommit \<longrightarrow> rcell E s' k = rcell E s k"
    by blast
  have idx: "last_index E s' = last_index E s" "first_index E s' = first_index E s"
    by (simp_all add: last_index_cell first_index_cell s'(4,5) cong: option.case_cong)
  have ok': "raft_ok E s'" using commit_ok [OF s(1) e] by (simp add: s'(1))
  have zero: "u64_at E (rcell E s key_name_by_last_index) \<noteq> None"
  proof
    assume none: "u64_at E (rcell E s key_name_by_last_index) = None"
    then have "last_index E s = sm_index (rs_snapshot_metadata s)" by (simp add: last_index_cell)
    also have "\<dots> = 0" using s(6,7) none by simp
    finally show False using i by simp
  qed
  have "raft_inv E s'"
    by (rule raft_invI [OF ok' _ _ s'(2)])
      (use s i snap zero in \<open>simp_all add: s' idx\<close>)
  then show ?thesis using s'(1,2,4) idx by fastforce
qed

lemma commit_inv:
  assumes inv: "raft_inv E s" and hs: "read_hard_state E s = Ret hs" "hs_commit hs < i"
    and i: "i \<le> last_index E s"
  shows "snd (commmit_index E s i) = Ret (Inr ())" and "raft_inv E (fst (commmit_index E s i))"
proof -
  have "0 < i" using hs(2) by (cases "i = 0") (auto simp: word_gt_0)
  moreover have "sm_index (rs_snapshot_metadata s) \<le> i" "unat (first_index E s) \<le> unat i + 1"
    using inv hs by (auto simp: raft_inv_def word_le_nat_alt word_less_nat_alt)
  ultimately show "snd (commmit_index E s i) = Ret (Inr ())" and "raft_inv E (fst (commmit_index E s i))"
    using commit_any_inv [OF inv _ i] by auto
qed

lemma create_snapshot_inv:
  assumes inv: "raft_inv E s"
  shows "snd (create_snapshot E s) = Ret ()" and "raft_inv E (fst (create_snapshot E s))"
proof -
  have ok: "raft_ok E s" using inv by (simp add: raft_inv_def)
  then obtain hs cs where r: "read_hard_state E s = Ret hs" "read_conf_state E s = Ret cs"
    by (auto simp: raft_ok_def)
  obtain s' d where s': "create_snapshot E s = (s', Ret ())"
    "d \<noteq> []" "bc_deserialize (bc_dump E) d = Inr (read_all (rocks E) (rs_db s))"
    "\<forall>k. rcell E s' k =
       (if k = key_name_snapshot then Some (vec_cell E (pb_encode (pb_snapshot E)
            \<lparr>snap_data = d, snap_metadata =
               \<lparr>sm_conf_state = cs, sm_index = hs_commit hs, sm_term = hs_term hs\<rparr>\<rparr>))
        else if k = key_name_by_first_index then Some (u64_cell E (hs_commit hs))
        else rcell E s k)"
    "rs_uncommit_index s' = rs_uncommit_index s"
    "rs_snapshot_metadata s' = \<lparr>sm_conf_state = cs, sm_index = hs_commit hs, sm_term = hs_term hs\<rparr>"
    "rs_trigger_snap_unavailable s' = rs_trigger_snap_unavailable s"
    by (rule create_snapshot_obtain [OF r])
  show "snd (create_snapshot E s) = Ret ()" by (simp add: s'(1))
  have log: "log_at E s' = log_at E s" by (rule log_at_cong) (simp add: s'(4))
  have hs': "read_hard_state E s' = Ret hs" using r by (simp add: read_hard_state_cell s'(4))
  have ok': "raft_ok E s'"
    using ok by (simp add: raft_ok_def read_hard_state_cell read_conf_state_cell entry_by_idx_cell
        uncommit_saved_def read_uncommit_index_cell distinct_uncommit_def s'(4,5))
  have fi: "first_index E s' = hs_commit hs" by (simp add: first_index_cell s'(4))
  show "raft_inv E (fst (create_snapshot E s))"
  proof (rule raft_invE [OF inv])
    fix h
    assume s: "log_full e_index (log_at E s) 1 (last_index E s)"
      "unat (last_index E s) < 2 ^ 64 - 1" "read_hard_state E s = Ret h"
      "hs_commit h \<le> last_index E s" "sm_index (rs_snapshot_metadata s) \<le> hs_commit h"
      "unat (first_index E s) \<le> unat (hs_commit h) + 1"
      "u64_at E (rcell E s key_name_by_last_index) = None \<longrightarrow> hs_commit h = 0"
    have h: "h = hs" using s(3) r by simp
    have "last_index E s' = last_index E s"
      using s(5,7) h by (auto simp: last_index_cell s'(4,6) split: option.splits)
    then show ?thesis
      using s ok' h
      by (intro raft_invI [where hs = hs]) (simp_all add: s'(1,4,6) log hs' fi)
  qed
qed

lemma set_hard_state_commit_inv:
  assumes "raft_inv E s" and "read_hard_state E s = Ret h"
    and "hs_commit h \<le> c" and "c \<le> last_index E s"
  shows "raft_inv E (fst (set_hard_state_commit E s c))"
  using save_hard_state_inv [OF assms(1,2), of "h\<lparr>hs_commit := c\<rparr>"] assms(3,4)
  by (simp add: set_hard_state_commit_def assms(2) Let_def case_prod_beta)

lemma raft_step_inv: "raft_step E s s' \<Longrightarrow> raft_inv E s \<Longrightarrow> raft_inv E s'"
  by (induction rule: raft_step.induct)
    (simp_all add: append_inv commit_inv save_hard_state_inv set_hard_state_commit_inv
      save_conf_state_inv create_snapshot_inv)

lemma restart_inv:
  assumes inv: "raft_inv E s" and new: "raft_store_new E (rs_db s) = Ret s'"
  shows "raft_inv E s'"
proof -
  have ok: "raft_ok E s" using inv by (simp add: raft_inv_def)
  then obtain hs cs where r: "read_hard_state E s = Ret hs" "read_conf_state E s = Ret cs"
    "uncommit_saved E s" by (auto simp: raft_ok_def)
  from restart_up [OF r] new have s': "rs_db s' = rs_db s"
    "read_hard_state E s' = Ret hs" "read_conf_state E s' = Ret cs"
    "entry_by_idx E s' = entry_by_idx E s" "distinct_uncommit s'" "uncommit_saved E s'"
    "rs_snapshot_metadata s' = \<lparr>sm_conf_state = cs, sm_index = hs_commit hs, sm_term = hs_term hs\<rparr>"
    by auto
  have ok': "raft_ok E s'" using ok s' by (simp add: raft_ok_def)
  have log: "log_at E s' = log_at E s" by (rule ext) (simp add: log_at_def s'(4))
  show ?thesis
  proof (rule raft_invE [OF inv])
    fix h
    assume s: "log_full e_index (log_at E s) 1 (last_index E s)"
      "unat (last_index E s) < 2 ^ 64 - 1" "read_hard_state E s = Ret h"
      "hs_commit h \<le> last_index E s" "sm_index (rs_snapshot_metadata s) \<le> hs_commit h"
      "unat (first_index E s) \<le> unat (hs_commit h) + 1"
      "u64_at E (rcell E s key_name_by_last_index) = None \<longrightarrow> hs_commit h = 0"
    have h: "h = hs" using s(3) r by simp
    have li: "last_index E s' = last_index E s"
      using s(5,7) h by (auto simp: last_index_cell s'(1,7) split: option.splits)
    have "unat (hs_commit hs) < 2 ^ 64 - 1" using s(2,4) h by (simp add: word_le_nat_alt)
    then have "unat (hs_commit hs + 1) = unat (hs_commit hs) + 1" by (simp add: unat_plus_if')
    then have "unat (first_index E s') \<le> unat (hs_commit hs) + 1"
      using s(6) h by (auto simp: first_index_cell s'(1,7) split: option.splits)
    then show ?thesis
      using s ok' h by (intro raft_invI [where hs = hs]) (simp_all add: s' log li)
  qed
qed

lemma restart_found:
  assumes inv: "raft_inv E s"
  shows "\<exists>s'. raft_store_new E (rs_db s) = Ret s' \<and> raft_inv E s'"
proof -
  obtain hs cs where "read_hard_state E s = Ret hs" "read_conf_state E s = Ret cs" "uncommit_saved E s"
    using inv by (auto simp: raft_inv_def raft_ok_def)
  from restart_up [OF this] obtain s' where "raft_store_new E (rs_db s) = Ret s'" by blast
  with restart_inv [OF inv] show ?thesis by blast
qed

lemma init_inv:
  assumes db: "\<forall>k. cell (rocks E) db k = None" and new: "raft_store_new E db = Ret s"
  shows "raft_inv E s"
proof -
  let ?s0 = "\<lparr>rs_uncommit_index = [], rs_trigger_snap_unavailable = False,
     rs_snapshot_metadata = snapshot_metadata_default, rs_db = db\<rparr>"
  have r: "read_hard_state E ?s0 = Ret hard_state_default" "read_conf_state E ?s0 = Ret conf_state_default"
    by (simp_all add: read_hard_state_cell read_conf_state_cell db)
  have ok: "raft_ok E ?s0"
    by (rule raft_okI [OF r])
      (simp_all add: entry_by_idx_cell db distinct_uncommit_def uncommit_saved_def read_uncommit_index_cell)
  have idx: "last_index E ?s0 = 0" "first_index E ?s0 = 1"
    by (simp_all add: last_index_cell first_index_cell db snapshot_metadata_default_def)
  have sm: "sm_index snapshot_metadata_default = 0" by (simp add: snapshot_metadata_default_def)
  have "raft_inv E ?s0"
    by (rule raft_invI [OF ok _ _ r(1)])
      (simp_all add: idx log_full_def hard_state_default_def sm word_le_nat_alt)
  from restart_inv [OF this, of s] new show ?thesis by simp
qed

lemma node_step_inv:
  assumes "node_step E s s'" and "raft_inv E s"
  shows "raft_inv E s'"
  using assms
proof (induction rule: node_step.induct)
  case (node_raft s s')
  then show ?case by (rule raft_step_inv)
next
  case (node_kv_set k s now v)
  have "raft_inv E (s\<lparr>rs_db := fst (kv_set E now (rs_db s) k v)\<rparr>) \<longleftrightarrow> raft_inv E s"
    by (rule raft_inv_cong) (use node_kv_set(1) in \<open>auto simp: cell_kv_set kv_user_key_def\<close>)
  with node_kv_set(2) show ?case by simp
next
  case (node_kv_delete k s)
  have "raft_inv E (s\<lparr>rs_db := fst (kv_delete E (rs_db s) k)\<rparr>) \<longleftrightarrow> raft_inv E s"
    by (rule raft_inv_cong) (use node_kv_delete(1) in \<open>auto simp: cell_kv_delete kv_user_key_def\<close>)
  with node_kv_delete(2) show ?case by simp
next
  case (node_restart s s')
  then show ?case by (blast intro: restart_inv)
qed

lemma node_reachable_inv: "node_reachable E s \<Longrightarrow> raft_inv E s"
  by (induction rule: node_reachable.induct) (blast intro: init_inv node_step_inv)+

text \<open>Raft steps leave the cells outside the Raft namespace alone.\<close>

lemma raft_step_user_cells:
  assumes "raft_step E s s'" and "raft_inv E s" and k: "kv_user_key k"
  shows "rcell E s' k = rcell E s k"
  using assms(1,2)
proof (induction rule: raft_step.induct)
  case (step_append s es j hs)
  have ok: "raft_ok E s" using step_append(6) by (simp add: raft_inv_def)
  have d: "distinct_uncommit s" using ok by (simp add: raft_ok_def)
  note ne = user_key_ne [OF k]
  from append_effect_up [OF step_append(2,1) d] obtain s1 where
    "append E s es = (s1, Ret (Inr ()))"
    "\<forall>k. k \<noteq> key_name_by_last_index \<longrightarrow> k \<noteq> key_name_uncommit \<longrightarrow>
       k \<notin> key_name_by_entry ` e_index ` set es \<longrightarrow> rcell E s1 k = rcell E s k" by blast
  with ne show ?case by simp
next
  case (step_commit s hs i)
  have "0 < i" using step_commit(2) by (cases "i = 0") (auto simp: word_less_nat_alt)
  then have "1 \<le> i" by (simp add: word_le_nat_alt word_less_nat_alt Suc_le_eq)
  then obtain e where e: "log_at E s i = Some e"
    using step_commit(3,4) by (auto simp: raft_inv_def log_full_def)
  have "distinct_uncommit s" using step_commit(4) by (simp add: raft_inv_def raft_ok_def)
  from commit_effect_up [OF e step_commit(1) this] user_key_ne [OF k] show ?case by auto
next
  case (step_snapshot s)
  then obtain hs cs where r: "read_hard_state E s = Ret hs" "read_conf_state E s = Ret cs"
    by (auto simp: raft_inv_def raft_ok_def)
  have "k \<noteq> key_name_snapshot" "k \<noteq> key_name_by_first_index" using k by (auto simp: kv_user_key_def)
  then show ?case by - (rule create_snapshot_obtain [OF r]; simp)
next
  case (step_hard_state_commit s h c)
  have "k \<noteq> key_name_by_hard_state" using k by (auto simp: kv_user_key_def)
  with step_hard_state_commit(1) show ?case
    by (simp add: set_hard_state_commit_def Let_def case_prod_beta)
qed (use k in \<open>auto simp: kv_user_key_def\<close>)

end


subsection \<open>Properties\<close>


lemma ref_store_new: "raft_store_new ref_env [] = Ret ref_store"
proof -
  have h: "create_snapshot_metadata ref_env ref_store = Ret snapshot_metadata_default"
    by (simp add: create_snapshot_metadata_def hard_state_default_def snapshot_metadata_default_def)
  have u: "read_uncommit_index ref_env [] = []"
    by (simp add: ref.read_uncommit_index_cell)
  show ?thesis using h by (simp add: raft_store_new_def u ref_store_def)
qed

lemma ref_store_reachable: "node_reachable ref_env ref_store"
  by (rule reach_init [where db = "[]"]) (simp_all add: ref_store_new)

lemma ref_batch_batch: "batch e_index 1 ref_batch"
  by (simp add: batch_def ref_batch_def nth_Cons split: nat.splits)

lemma ref_logged_step: "raft_step ref_env ref_store ref_logged"
  unfolding ref_logged_def
  by (rule step_append [OF _ _ ref_batch_batch ref_store_facts(3)]) (simp_all add: hard_state_default_def)

lemma ref_committed_step: "raft_step ref_env ref_logged ref_committed"
  unfolding ref_committed_def
  by (rule step_commit [OF ref_logged_facts(5)]) (simp_all add: hard_state_default_def)

lemma ref_committed_reachable: "node_reachable ref_env ref_committed"
  by (meson ref_store_reachable ref_logged_step ref_committed_step reach_step node_raft)




text \<open>
  The Raft side never touches a client's key: a Raft step on a well-formed store leaves what
  \<open>KvStorage\<close> reads at every key outside the Raft namespace as it was.
\<close>

lemma raft_steps_keep_kv:
  assumes "env_up E" and "raft_inv E s" and "raft_step E s s'" and "kv_user_key k"
  shows "kv_get E (rs_db s') k = kv_get E (rs_db s) k"
  using storage_env.raft_step_user_cells [OF storage_env.intro [OF assms(1)] assms(3,2,4)]
  by (simp add: storage_env.kv_get_cell [OF storage_env.intro [OF assms(1)]])

lemma raft_steps_keep_kv_witness:
  "kv_get ref_env (rs_db ref_committed) ''k1'' = kv_get ref_env (rs_db ref_logged) ''k1''"
proof (rule raft_steps_keep_kv [OF ref_env_up _ ref_committed_step])
  have "node_reachable ref_env ref_logged"
    by (meson ref_store_reachable ref_logged_step reach_step node_raft)
  then show "raft_inv ref_env ref_logged" by (rule ref.node_reachable_inv)
qed simp

text \<open>
  C33: The converse protection is missing: \<open>KvStorage::set\<close> accepts any key, and setting the key
  under which Raft keeps its hard state leaves a database on which the hard state can no longer be
  read, so that opening the store panics (a JSON object is not a JSON array of bytes).
\<close>

theorem kv_set_can_brick_raft:
  assumes "env_up E"
    and "\<And>w. \<not> is_ok (js_from_str (js_bytes E) (js_text (js_wrap E) w))"
  shows "snd (kv_set E now db key_name_by_hard_state v) = Inr () \<and>
     raft_store_new E (fst (kv_set E now db key_name_by_hard_state v)) = Panic UnwrapErr"
proof -
  note env = storage_env.intro [OF assms(1)]
  let ?db = "fst (kv_set E now db key_name_by_hard_state v)"
  let ?w = "storage_data_wrap_new now (str_bytes (js_text (js_string E) v))"
  have c: "cell (rocks E) ?db key_name_by_hard_state = Some (kv_cell E now v)"
    by (simp add: storage_env.cell_kv_set [OF env])
  have w: "serde_type (js_wrap E)" using assms(1) by (simp add: env_up_def env_laws_def serde_type.intro)
  obtain x where "js_from_str (js_bytes E) (js_text (js_wrap E) ?w) = Inl x"
    using assms(2) [of ?w] by (cases "js_from_str (js_bytes E) (js_text (js_wrap E) ?w)") auto
  then have "vec_at E (Some (kv_cell E now v)) = Inl (''Failed to deserialize: '' @ err_debug x)"
    by (simp add: vec_at_def decode_cell_def kv_cell_def serde_type.text_utf8 [OF w])
  then have "read_hard_state E s = Panic UnwrapErr" if "rs_db s = ?db" for s
    using that c by (simp add: storage_env.read_hard_state_cell [OF env])
  then show ?thesis
    by (simp add: storage_env.kv_set_ok [OF env] raft_store_new_def create_snapshot_metadata_def)
qed

lemma kv_set_can_brick_raft_witness:
  "raft_store_new ref_env (fst (kv_set ref_env 1 [] key_name_by_hard_state ''x'')) = Panic UnwrapErr"
proof -
  have "\<not> is_ok (js_from_str (js_bytes ref_env) (js_text (js_wrap ref_env) w))" for w
    by (simp add: ref_env_def env_over_def ref_serde_def js_text_def ref_json_text_def ref_json_parse_def)
  from kv_set_can_brick_raft [OF ref_env_up this] show ?thesis by blast
qed

text \<open>
  What an installed snapshot means for \<open>KvStorage\<close>: every key the sender has reads as on the
  sender, but a key the sender does not have (one it has deleted) still reads as it did on the
  receiver before.
\<close>

lemma snapshot_kv_merge:
  assumes "env_up E" and "raft_ok E s" and "raft_ok E t" and "kv_readable E (rs_db s)"
    and "make_snapshot E s = (s', Ret sn)"
    and "first_index E t \<le> sm_index (snap_metadata sn)"
    and "kv_user_key k" and "rust_str k"
  shows "kv_get E (rs_db (fst (apply_snapshot E t sn))) k =
     (case kv_get E (rs_db s) k of Inr None \<Rightarrow> kv_get E (rs_db t) k | r \<Rightarrow> r)"
proof -
  note env = storage_env.intro [OF assms(1)]
  obtain hs cs where s: "read_hard_state E s = Ret hs" "read_conf_state E s = Ret cs"
    using assms(2) by (auto simp: raft_ok_def)
  obtain ht ct where t: "read_hard_state E t = Ret ht" "read_conf_state E t = Ret ct"
    using assms(3) by (auto simp: raft_ok_def)
  let ?m = "\<lparr>sm_conf_state = cs, sm_index = hs_commit hs, sm_term = hs_term hs\<rparr>"
  obtain s1 d where m: "make_snapshot E s = (s1, Ret \<lparr>snap_data = d, snap_metadata = ?m\<rparr>)"
    "create_snapshot E s = (s1, Ret ())"
    "d \<noteq> []" "bc_deserialize (bc_dump E) d = Inr (read_all (rocks E) (rs_db s))"
    by (rule storage_env.make_snapshot_obtain [OF env s])
  then have sn: "sn = \<lparr>snap_data = d, snap_metadata = ?m\<rparr>" using assms(5) by simp
  have idx: "first_index E t \<le> sm_index ?m" using assms(6) by (simp add: sn)
  obtain t' h where t': "apply_snapshot E t \<lparr>snap_data = d, snap_metadata = ?m\<rparr> = (t', Ret (Inr ()))"
    "if rcell E s key_name_by_hard_state = None then h = ht else h = hs"
    "read_hard_state E t' = Ret (h\<lparr>hs_term := max (hs_term h) (sm_term ?m), hs_commit := sm_index ?m\<rparr>)"
    "read_conf_state E t' = Ret (sm_conf_state ?m)"
    "rs_snapshot_metadata t' = ?m"
    "rs_uncommit_index t' = rs_uncommit_index t"
    "rs_trigger_snap_unavailable t' = rs_trigger_snap_unavailable t"
    "\<forall>k. k \<noteq> key_name_by_hard_state \<longrightarrow> k \<noteq> key_name_by_conf_state \<longrightarrow>
       rcell E t' k = (case exported E (rs_db s) k of Some b \<Rightarrow> Some b | None \<Rightarrow> rcell E t k)"
    by (rule storage_env.apply_snapshot_obtain [OF env s t m(3,4) idx])
  have "k \<noteq> key_name_by_hard_state" "k \<noteq> key_name_by_conf_state"
    using assms(7) by (auto simp: kv_user_key_def)
  with t'(8) have "rcell E t' k = (case exported E (rs_db s) k of Some b \<Rightarrow> Some b | None \<Rightarrow> rcell E t k)"
    by blast
  from kv_get_exported [OF assms(1,4,7,8) this] show ?thesis by (simp add: sn t'(1))
qed

definition ref_kv :: "mem_db raft_store" where
  "ref_kv = ref_store\<lparr>rs_db := fst (kv_set ref_env 1 (rs_db ref_store) ''k1'' ''a'')\<rparr>"

lemma ref_kv_facts:
  "raft_ok ref_env ref_kv" "first_index ref_env ref_kv = 1"
  "kv_get ref_env (rs_db ref_kv) ''k1'' = Inr (Some ''a'')"
proof -
  have c: "rcell ref_env ref_kv k = rcell ref_env ref_store k" if "raft_namespace k" for k
  proof -
    have "k \<noteq> ''k1''" using that kv_user_key_simps(1) by (auto simp: kv_user_key_def)
    then show ?thesis by (simp add: ref_kv_def ref.cell_kv_set)
  qed
  have "raft_ok ref_env ref_kv = raft_ok ref_env ref_store"
    by (rule ref.raft_ok_cong) (simp add: c, simp add: ref_kv_def)
  then show "raft_ok ref_env ref_kv" by simp
  have "first_index ref_env ref_kv = first_index ref_env ref_store"
    by (rule ref.index_cong) (simp add: c, simp add: ref_kv_def)
  then show "first_index ref_env ref_kv = 1" by simp
  have "cell (rocks ref_env) (rs_db ref_kv) ''k1'' = Some (kv_cell ref_env 1 ''a'')"
    by (simp add: ref_kv_def ref.cell_kv_set)
  then show "kv_get ref_env (rs_db ref_kv) ''k1'' = Inr (Some ''a'')"
    unfolding ref.kv_get_cell by simp
qed

lemma ref_committed_user_cells:
  assumes "kv_user_key k"
  shows "rcell ref_env ref_committed k = None"
proof -
  have r: "node_reachable ref_env ref_logged"
    by (meson ref_store_reachable ref_logged_step reach_step node_raft)
  have "rcell ref_env ref_committed k = rcell ref_env ref_logged k"
    by (rule ref.raft_step_user_cells [OF ref_committed_step ref.node_reachable_inv [OF r] assms])
  also have "\<dots> = rcell ref_env ref_store k"
    by (rule ref.raft_step_user_cells [OF ref_logged_step ref.node_reachable_inv [OF ref_store_reachable] assms])
  finally show ?thesis by simp
qed

lemma snapshot_kv_merge_witness:
  "\<exists>sn. kv_get ref_env (rs_db (fst (apply_snapshot ref_env ref_kv sn))) ''k1'' = Inr (Some ''a'') \<and>
     kv_get ref_env (rs_db ref_committed) ''k1'' = Inr None"
proof -
  from ref_snapshot obtain s' sn where sn: "make_snapshot ref_env ref_committed = (s', Ret sn)"
    "sm_index (snap_metadata sn) = 2" by blast
  have rd: "kv_readable ref_env (rs_db ref_committed)"
    using ref_committed_user_cells by (simp add: kv_readable_def)
  have none: "kv_get ref_env (rs_db ref_committed) ''k1'' = Inr None"
    using ref_committed_user_cells [of "''k1''"] unfolding ref.kv_get_cell by simp
  have "kv_get ref_env (rs_db (fst (apply_snapshot ref_env ref_kv sn))) ''k1'' = Inr (Some ''a'')"
    by (subst snapshot_kv_merge [OF ref_env_up ref_committed_facts(1) ref_kv_facts(1) rd sn(1)])
      (simp_all add: sn ref_kv_facts none rust_str_ascii char_byte_def)
  with none show ?thesis by blast
qed

end
