(* ===== verification/Raft_Trait.thy ===== *)
theory Raft_Trait
  imports Raft_Reach
begin

section \<open>RaftRocksDBStorage (src/placement-center/src/raft/storage.rs)\<close>

text \<open>
  The adapter through which raft-rs sees the store: the writers, which drop the results of
  \<^verbatim>\<open>Raft_Storage\<close> and answer \<open>Ok\<close>, and the \<open>raft::Storage\<close> trait.  The \<open>RwLock\<close> around the
  store makes every method atomic; a poisoned lock is not modelled.
\<close>

subsection \<open>Writers\<close>

text \<open>\<open>let _ = ...; Ok(())\<close> after a method that may panic.\<close>

definition drop_result :: "'s \<times> 'r run \<Rightarrow> 's \<times> (raft_error + unit) run" where
  "drop_result m = bind_run m (\<lambda>s _. (s, Ret (Inr ())))"

lemma drop_result_Ret [simp]: "drop_result (s, Ret r) = (s, Ret (Inr ()))"
  by (simp add: drop_result_def)

lemma drop_result_ok: "snd (drop_result m) = Ret r \<longleftrightarrow> r = Inr () \<and> (\<exists>x. snd m = Ret x)"
  by (cases m; cases "snd m") (auto simp: drop_result_def)

definition st_apply_snapshot ::
  "'db env \<Rightarrow> 'db raft_store \<Rightarrow> snapshot \<Rightarrow> 'db raft_store \<times> (raft_error + unit) run" where
  "st_apply_snapshot E s sn = drop_result (apply_snapshot E s sn)"

definition st_append ::
  "'db env \<Rightarrow> 'db raft_store \<Rightarrow> entry list \<Rightarrow> 'db raft_store \<times> (raft_error + unit) run" where
  "st_append E s es = drop_result (append E s es)"

definition st_commmit_index ::
  "'db env \<Rightarrow> 'db raft_store \<Rightarrow> u64 \<Rightarrow> 'db raft_store \<times> (raft_error + unit) run" where
  "st_commmit_index E s idx = drop_result (commmit_index E s idx)"

definition st_set_hard_state ::
  "'db env \<Rightarrow> 'db raft_store \<Rightarrow> hard_state \<Rightarrow> 'db raft_store \<times> (raft_error + unit) run" where
  "st_set_hard_state E s hs = (fst (save_hard_state E s hs), Ret (Inr ()))"

definition st_set_hard_state_comit ::
  "'db env \<Rightarrow> 'db raft_store \<Rightarrow> u64 \<Rightarrow> 'db raft_store \<times> (raft_error + unit) run" where
  "st_set_hard_state_comit E s c = drop_result (set_hard_state_commit E s c)"

definition st_set_conf_state ::
  "'db env \<Rightarrow> 'db raft_store \<Rightarrow> conf_state \<Rightarrow> 'db raft_store \<times> (raft_error + unit) run" where
  "st_set_conf_state E s cs = (fst (save_conf_state E s cs), Ret (Inr ()))"

definition st_create_snapshot ::
  "'db env \<Rightarrow> 'db raft_store \<Rightarrow> 'db raft_store \<times> (raft_error + unit) run" where
  "st_create_snapshot E s = drop_result (create_snapshot E s)"

subsection \<open>The raft::Storage trait\<close>

definition st_initial_state :: "'db env \<Rightarrow> 'db raft_store \<Rightarrow> (raft_error + raft_state_rec) run" where
  "st_initial_state E s = (case raft_state E s of Ret r \<Rightarrow> Ret (Inr r) | Panic p \<Rightarrow> Panic p)"

text \<open>\<open>initialized\<close> is \<open>RaftState::initialized\<close> of raft-rs.\<close>

definition st_initialize_with_conf_state ::
  "(raft_state_rec \<Rightarrow> bool) \<Rightarrow> 'db env \<Rightarrow> 'db raft_store \<Rightarrow> conf_state \<Rightarrow> 'db raft_store \<times> unit run" where
  "st_initialize_with_conf_state initialized E s cs =
     (case st_initial_state E s of
        Panic p \<Rightarrow> (s, Panic p)
      | Ret (Inl _) \<Rightarrow> (s, Panic UnwrapErr)
      | Ret (Inr r) \<Rightarrow>
          (if initialized r then (s, Panic AssertFailed)
           else (fst (save_conf_state E s cs), Ret ())))"

definition st_new_with_conf_state ::
  "(raft_state_rec \<Rightarrow> bool) \<Rightarrow> ('t \<Rightarrow> conf_state) \<Rightarrow> 'db env \<Rightarrow> 'db raft_store \<Rightarrow> 't \<Rightarrow> 'db raft_store \<times> unit run" where
  "st_new_with_conf_state initialized conf_state_from E s conf_state =
     st_initialize_with_conf_state initialized E s (conf_state_from conf_state)"

definition st_entries :: "'db env \<Rightarrow> 'db raft_store \<Rightarrow> u64 \<Rightarrow> u64 \<Rightarrow> (raft_error + entry list) run" where
  "st_entries E s low high =
     (if low < first_index E s then Ret (Inl Compacted)
      else if last_index E s + 1 < high then Panic ExplicitPanic
      else (case collect_entries E s (indexes low high) of
              Panic p \<Rightarrow> Panic p
            | Ret es \<Rightarrow> Ret (Inr es)))"

definition st_term :: "'db env \<Rightarrow> 'db raft_store \<Rightarrow> u64 \<Rightarrow> (raft_error + u64) run" where
  "st_term E s idx =
     (if idx = sm_index (rs_snapshot_metadata s) then Ret (Inr (sm_index (rs_snapshot_metadata s)))
      else if idx < first_index E s then Ret (Inl Compacted)
      else if last_index E s < idx then Ret (Inl Unavailable)
      else (case entry_by_idx E s idx of
              Panic p \<Rightarrow> Panic p
            | Ret (Some value) \<Rightarrow> Ret (Inr (e_term value))
            | Ret None \<Rightarrow> Ret (Inr (sm_term (rs_snapshot_metadata s)))))"

definition st_first_index :: "'db env \<Rightarrow> 'db raft_store \<Rightarrow> raft_error + u64" where
  "st_first_index E s = Inr (first_index E s)"

definition st_last_index :: "'db env \<Rightarrow> 'db raft_store \<Rightarrow> raft_error + u64" where
  "st_last_index E s = Inr (last_index E s)"

definition st_snapshot ::
  "'db env \<Rightarrow> 'db raft_store \<Rightarrow> u64 \<Rightarrow> u64 \<Rightarrow> 'db raft_store \<times> (raft_error + snapshot) run" where
  "st_snapshot E s request_index to =
     (if rs_trigger_snap_unavailable s then (s, Ret (Inl SnapshotTemporarilyUnavailable))
      else bind_run (make_snapshot E s) (\<lambda>s' snap.
        (s', Ret (Inr
           (if sm_index (snap_metadata snap) < request_index
            then snap\<lparr>snap_metadata := (snap_metadata snap)\<lparr>sm_index := request_index\<rparr>\<rparr>
            else snap)))))"

subsection \<open>Reading a range\<close>

lemma collect_entries_full:
  "(\<And>i. i \<in> set is \<Longrightarrow> \<exists>r. entry_by_idx E s i = Ret r) \<Longrightarrow>
     collect_entries E s is = Ret (List.map_filter (log_at E s) is)"
proof (induction "is")
  case Nil
  then show ?case by (simp add: List.map_filter_simps)
next
  case (Cons i "is")
  then obtain r where "entry_by_idx E s i = Ret r" by force
  with Cons show ?case
    by (cases r) (simp_all add: List.map_filter_simps log_at_def)
qed

lemma set_indexes: "set (indexes low high) = {i. low \<le> i \<and> i \<le> high}"
proof -
  have "i \<in> set (indexes low high) \<longleftrightarrow> low \<le> i \<and> i \<le> high" for i
  proof
    assume "i \<in> set (indexes low high)"
    then obtain n where n: "i = of_nat n" "unat low \<le> n" "n \<le> unat high"
      by (auto simp: indexes_def)
    have "unat high < 2 ^ 64" using unsigned_less [of high, where ?'a = nat] by simp
    with n have "unat i = n" by (simp add: unat_of_nat take_bit_eq_mod)
    with n show "low \<le> i \<and> i \<le> high" by (simp add: word_le_nat_alt)
  next
    assume "low \<le> i \<and> i \<le> high"
    then have "unat i \<in> {unat low ..< Suc (unat high)}" by (auto simp: word_le_nat_alt)
    then show "i \<in> set (indexes low high)"
      by (auto simp: indexes_def image_iff simp del: upt_Suc intro!: bexI [of _ "unat i"])
  qed
  then show ?thesis by auto
qed

lemma map_filter_some:
  "(\<And>i. i \<in> set is \<Longrightarrow> f i \<noteq> None) \<Longrightarrow> List.map_filter f is = map (\<lambda>i. the (f i)) is"
  by (induction "is") (force simp: List.map_filter_simps split: option.splits)+

lemma indexes_snoc: "low \<le> high \<Longrightarrow> 0 < high \<Longrightarrow> low \<noteq> high \<Longrightarrow>
    indexes low high = indexes low (high - 1) @ [high]"
proof -
  assume a: "low \<le> high" "0 < high" "low \<noteq> high"
  have h: "unat (high - 1) = unat high - 1" using a(2) by (simp add: unat_minus_one word_neq_0_conv)
  have "unat low < unat high" using a by (simp add: word_le_nat_alt word_unat_eq_iff)
  then have "[unat low ..< Suc (unat high)] = [unat low ..< Suc (unat high - 1)] @ [unat high]"
    by simp
  then show ?thesis by (simp add: indexes_def h)
qed

lemma map_filter_append: "List.map_filter f (xs @ ys) = List.map_filter f xs @ List.map_filter f ys"
  by (induction xs) (auto simp: List.map_filter_simps split: option.splits)

subsection \<open>Properties\<close>

text \<open>
  C38: \<open>entries(low, high)\<close> answers a range inside the log without panicking, in index order, and
  with one entry more than the documented \<open>[low, high)\<close>: the entry at \<open>high\<close> comes along
  whenever the database holds one, even when \<open>high\<close> is past the last index (an entry cut off by
  a conflicting append).
\<close>

theorem entries_inclusive:
  assumes "env_up E" and "raft_inv E s" and "first_index E s \<le> low" and "0 < low"
    and "low < high" and "high \<le> last_index E s + 1"
  shows "st_entries E s low high = Ret (Inr
     (map (\<lambda>i. the (log_at E s i)) (indexes low (high - 1)) @
      (case log_at E s high of Some e \<Rightarrow> [e] | None \<Rightarrow> []))) \<and>
    map (\<lambda>i. e_index (the (log_at E s i))) (indexes low (high - 1)) = indexes low (high - 1)"
proof -
  have ok: "\<And>i. \<exists>r. entry_by_idx E s i = Ret r" and full: "log_full e_index (log_at E s) 1 (last_index E s)"
    using assms(2) by (simp_all add: raft_inv_def raft_ok_def)
  have pos: "0 < high" using assms(4,5) by (simp add: word_less_nat_alt)
  have h1: "unat (high - 1) = unat high - 1" using pos by (simp add: unat_minus_one word_neq_0_conv)
  have l1: "unat (last_index E s + 1) = unat (last_index E s) + 1"
    using assms(2) by (auto simp: raft_inv_def unat_plus_if')
  have lt: "unat low < unat high" using assms(5) by (simp add: word_less_nat_alt)
  have inside: "\<exists>e. log_at E s i = Some e \<and> e_index e = i" if "i \<in> set (indexes low (high - 1))" for i
  proof -
    have "low \<le> i" "i \<le> high - 1" using that by (simp_all add: set_indexes)
    then have "unat 1 \<le> unat i" "unat i \<le> unat (last_index E s)"
      using assms(4,6) h1 l1 lt by (simp_all add: word_le_nat_alt word_less_nat_alt)
    then show ?thesis using full by (simp add: log_full_def word_le_nat_alt)
  qed
  have ne: "low \<le> high" "low \<noteq> high" using lt by (auto simp: word_le_nat_alt)
  have "List.map_filter (log_at E s) (indexes low (high - 1)) =
      map (\<lambda>i. the (log_at E s i)) (indexes low (high - 1))"
    by (rule map_filter_some) (use inside in force)
  then have "collect_entries E s (indexes low high) = Ret
     (map (\<lambda>i. the (log_at E s i)) (indexes low (high - 1)) @
      (case log_at E s high of Some e \<Rightarrow> [e] | None \<Rightarrow> []))"
    by (simp add: collect_entries_full ok indexes_snoc [OF ne(1) pos ne(2)] map_filter_append
        List.map_filter_simps split: option.split)
  moreover have "map (\<lambda>i. e_index (the (log_at E s i))) (indexes low (high - 1)) = indexes low (high - 1)"
    by (rule map_idI) (use inside in force)
  ultimately show ?thesis
    using assms(3,6) by (simp add: st_entries_def linorder_not_less)
qed

lemma entries_inclusive_witness:
  "st_entries ref_env ref_logged 1 2 = Ret (Inr [ref_entry 3 1, ref_entry 3 2])"
proof -
  have "node_reachable ref_env ref_logged"
    by (meson ref_store_reachable ref_logged_step reach_step node_raft)
  then have "raft_inv ref_env ref_logged" by (rule ref.node_reachable_inv)
  from entries_inclusive [OF ref_env_up this, of 1 2] show ?thesis
    by (simp add: indexes_def)
qed

text \<open>
  C39: \<open>term(idx)\<close> answers the entry's term for the indexes of the log, but at the snapshot's index it
  answers the snapshot's index instead of its term.
\<close>

theorem term_answers:
  assumes "env_up E" and "raft_inv E s" and "0 < idx" and "idx \<le> last_index E s"
    and "first_index E s \<le> idx"
  shows "st_term E s idx = Ret (Inr
     (if idx = sm_index (rs_snapshot_metadata s) then idx else e_term (the (log_at E s idx))))"
proof -
  have "log_full e_index (log_at E s) 1 (last_index E s)" using assms(2) by (simp add: raft_inv_def)
  with log_full_at [OF this assms(3,4)] obtain e where e: "log_at E s idx = Some e" by blast
  then have "entry_by_idx E s idx = Ret (Some e)"
    by (auto simp: log_at_def split: run.splits option.splits)
  then show ?thesis using assms(4,5) by (auto simp: st_term_def e)
qed

definition ref_snapped :: "mem_db raft_store" where
  "ref_snapped = fst (create_snapshot ref_env ref_committed)"

lemma term_answers_witness:
  "st_term ref_env ref_snapped 2 = Ret (Inr 2) \<and> sm_term (rs_snapshot_metadata ref_snapped) = 3"
proof -
  have inv: "raft_inv ref_env ref_committed"
    by (rule ref.node_reachable_inv [OF ref_committed_reachable])
  then have inv': "raft_inv ref_env ref_snapped"
    unfolding ref_snapped_def by (rule ref.create_snapshot_inv)
  obtain cs where cs: "read_conf_state ref_env ref_committed = Ret cs" using ref_committed_facts(3) by blast
  obtain s' d where s': "create_snapshot ref_env ref_committed = (s', Ret ())"
    "rs_snapshot_metadata s' = \<lparr>sm_conf_state = cs, sm_index = 2, sm_term = 3\<rparr>"
    "\<forall>k. rcell ref_env s' k =
       (if k = key_name_snapshot then Some (vec_cell ref_env (pb_encode (pb_snapshot ref_env)
            \<lparr>snap_data = d, snap_metadata = \<lparr>sm_conf_state = cs, sm_index = 2, sm_term = 3\<rparr>\<rparr>))
        else if k = key_name_by_first_index then Some (u64_cell ref_env 2)
        else rcell ref_env ref_committed k)"
    by (rule ref.create_snapshot_obtain [OF ref_committed_facts(2) cs]) simp
  have "2 \<le> last_index ref_env ref_snapped" "first_index ref_env ref_snapped \<le> 2"
  proof -
    obtain hs where "read_hard_state ref_env ref_snapped = Ret hs" "sm_index (rs_snapshot_metadata ref_snapped) \<le> hs_commit hs"
      "hs_commit hs \<le> last_index ref_env ref_snapped"
      using inv' by (auto simp: raft_inv_def)
    then show "2 \<le> last_index ref_env ref_snapped"
      using s'(1,2) by (simp add: ref_snapped_def)
    show "first_index ref_env ref_snapped \<le> 2"
      using s'(1,3) by (simp add: ref_snapped_def ref.first_index_cell)
  qed
  from term_answers [OF ref_env_up inv' _ this] show ?thesis
    using s'(1,2) by (simp add: ref_snapped_def)
qed

text \<open>
  \<open>snapshot(request_index, to)\<close> on a well-formed store returns a snapshot whose index is at
  least the requested one; when the request is ahead of the commit position it gets there by
  relabelling the snapshot, whose data and term stay those of the commit position.
\<close>

lemma snapshot_index_at_least_requested:
  assumes "env_up E" and "raft_ok E s" and "\<not> rs_trigger_snap_unavailable s"
    and "read_hard_state E s = Ret hs" and "make_snapshot E s = (s', Ret sn)"
  shows "\<exists>sn'. st_snapshot E s req to = (s', Ret (Inr sn')) \<and>
     sm_index (snap_metadata sn') = max (hs_commit hs) req \<and>
     sm_term (snap_metadata sn') = hs_term hs \<and> snap_data sn' = snap_data sn"
proof -
  note env = storage_env.intro [OF assms(1)]
  obtain cs where cs: "read_conf_state E s = Ret cs" using assms(2) by (auto simp: raft_ok_def)
  obtain s1 d where "make_snapshot E s = (s1, Ret \<lparr>snap_data = d, snap_metadata =
       \<lparr>sm_conf_state = cs, sm_index = hs_commit hs, sm_term = hs_term hs\<rparr>\<rparr>)"
    by (rule storage_env.make_snapshot_obtain [OF env assms(4) cs])
  then show ?thesis
    using assms(3,5) by (auto simp: st_snapshot_def max_def)
qed

lemma snapshot_index_at_least_requested_witness:
  "\<exists>s' sn'. st_snapshot ref_env ref_committed 7 1 = (s', Ret (Inr sn')) \<and>
     sm_index (snap_metadata sn') = 7 \<and> sm_term (snap_metadata sn') = 3"
proof -
  from ref_snapshot obtain s' sn where sn: "make_snapshot ref_env ref_committed = (s', Ret sn)" by blast
  have "distinct_uncommit ref_logged" using ref_logged_facts(1) by (simp add: raft_ok_def)
  then have "rs_trigger_snap_unavailable ref_committed = rs_trigger_snap_unavailable ref_logged"
    using ref.commit_effect_up [of ref_logged 2 "ref_entry 3 2" hard_state_default]
    by (auto simp: ref_committed_def)
  also have "\<dots> = rs_trigger_snap_unavailable ref_store"
    using ref.append_effect_up [of ref_batch ref_store] by (auto simp: ref_logged_def)
  finally have "\<not> rs_trigger_snap_unavailable ref_committed" by (simp add: ref_store_def)
  from snapshot_index_at_least_requested [OF ref_env_up ref_committed_facts(1) this ref_committed_facts(2) sn, of 7 1]
  show ?thesis by (auto simp: max_def)
qed

text \<open>
  The adapter never reports an error of the store: an outdated snapshot, which the store refuses
  and does not install, is answered with \<open>Ok\<close>, and so is every other write that does not panic.
\<close>

lemma adapter_hides_errors:
  "(sm_index (snap_metadata sn) < first_index E s \<longrightarrow>
      snd (apply_snapshot E s sn) = Ret (Inl SnapshotOutOfDate) \<and>
      st_apply_snapshot E s sn = (s, Ret (Inr ()))) \<and>
   (\<forall>r. snd (st_apply_snapshot E s sn) = Ret r \<longrightarrow> r = Inr ()) \<and>
   (\<forall>r. snd (st_append E s es) = Ret r \<longrightarrow> r = Inr ()) \<and>
   (\<forall>r. snd (st_commmit_index E s i) = Ret r \<longrightarrow> r = Inr ()) \<and>
   (\<forall>r. snd (st_set_hard_state_comit E s i) = Ret r \<longrightarrow> r = Inr ())"
proof -
  have "apply_snapshot E s sn = (s, Ret (Inl SnapshotOutOfDate))"
    if "sm_index (snap_metadata sn) < first_index E s"
    using that by (simp add: apply_snapshot_def Let_def)
  then show ?thesis
    by (simp add: st_apply_snapshot_def st_append_def st_commmit_index_def
        st_set_hard_state_comit_def drop_result_ok)
qed

lemma adapter_hides_errors_witness:
  "st_apply_snapshot ref_env ref_store snapshot_default = (ref_store, Ret (Inr ()))"
proof -
  have "sm_index (snap_metadata snapshot_default) < first_index ref_env ref_store"
    by (simp add: snapshot_default_def snapshot_metadata_default_def)
  with conjunct1 [OF adapter_hides_errors [of snapshot_default ref_env ref_store]] show ?thesis
    by blast
qed

end
