(* ===== verification/Raft_Apply.thy ===== *)
theory Raft_Apply
  imports Kv_Storage
begin

section \<open>Proposals and their application (src/placement-center/src/raft/apply.rs, route.rs)\<close>

text \<open>
  \<open>RaftMachineApply\<close> turns a request into a message for the state machine's queue and waits for
  the answer on a one-shot channel; \<open>DataRoute\<close> applies committed data to \<open>KvStorage\<close>.  A
  channel's sending half is a value of an arbitrary type \<open>'c\<close>; what the receiving half saw within
  the 30 seconds of the timeout is a \<open>reply\<close>.
\<close>

subsection \<open>Messages\<close>

datatype raft_response = Success | Fail

datatype ('m, 'cc, 'c) raft_message =
    ConfChange 'cc 'c
  | Raft 'm 'c
  | TransferLeader u64 'c
  | Propose bytes 'c

datatype storage_data_type = KvSet | KvDelete

record storage_data =
  sd_data_type :: storage_data_type
  sd_value :: bytes

definition storage_data_new :: "storage_data_type \<Rightarrow> bytes \<Rightarrow> storage_data" where
  "storage_data_new t v = \<lparr>sd_data_type = t, sd_value = v\<rparr>"

text \<open>The \<open>Display\<close> of \<open>StorageData\<close>, over the derived \<open>Debug\<close> of its fields.\<close>

fun data_type_debug :: "storage_data_type \<Rightarrow> string" where
  "data_type_debug KvSet = ''KvSet''"
| "data_type_debug KvDelete = ''KvDelete''"

fun comma_separated :: "string list \<Rightarrow> string" where
  "comma_separated [] = []"
| "comma_separated [s] = s"
| "comma_separated (s # t # ts) = s @ '', '' @ comma_separated (t # ts)"

definition storage_data_string :: "storage_data \<Rightarrow> string" where
  "storage_data_string d =
     ''('' @ data_type_debug (sd_data_type d) @ '', ['' @ comma_separated (map (\<lambda>b. show_nat (unat b)) (sd_value d)) @ ''])''"

record set_request =
  set_key :: string
  set_value :: string

record delete_request =
  del_key :: string

text \<open>The codecs of the data that goes through the Raft log.\<close>

record route_codecs =
  bc_storage_data :: "storage_data bincode"
  pb_set_request :: "set_request prost"
  pb_delete_request :: "delete_request prost"

subsection \<open>RaftMachineApply\<close>

text \<open>What the receiver saw: an answer, a dropped sender, or nothing before the timeout.\<close>

datatype reply = Replied raft_response | SenderDropped | TimedOut

definition recv_value :: "reply \<Rightarrow> raft_response option" where
  "recv_value r =
     (case r of Replied val \<Rightarrow> Some val | SenderDropped \<Rightarrow> Some Fail | TimedOut \<Rightarrow> None)"

definition wait_recv_chan_resp :: "reply \<Rightarrow> bool" where
  "wait_recv_chan_resp r = (case recv_value r of Some _ \<Rightarrow> True | None \<Rightarrow> False)"

text \<open>The message sent (a failed send drops it) and the result, given what the channel will do.\<close>

definition apply_raft_status_machine_message ::
  "('m, 'cc, 'c) raft_message \<Rightarrow> string \<Rightarrow> reply \<Rightarrow>
   ('m, 'cc, 'c) raft_message \<times> (robust_error + unit)" where
  "apply_raft_status_machine_message message action rx =
     (message, if \<not> wait_recv_chan_resp rx then Inl (RaftLogCommitTimeout action) else Inr ())"

definition transfer_leader ::
  "u64 \<Rightarrow> 'c \<Rightarrow> reply \<Rightarrow> ('m, 'cc, 'c) raft_message \<times> (robust_error + unit)" where
  "transfer_leader node_id sx rx =
     apply_raft_status_machine_message (TransferLeader node_id sx) ''transfer_leader'' rx"

definition apply_propose_message ::
  "route_codecs \<Rightarrow> storage_data \<Rightarrow> string \<Rightarrow> 'c \<Rightarrow> reply \<Rightarrow>
   (('m, 'cc, 'c) raft_message \<times> (robust_error + unit)) run" where
  "apply_propose_message W d action sx rx =
     (case bc_serialize (bc_storage_data W) d of
        Inl _ \<Rightarrow> Panic UnwrapErr
      | Inr b \<Rightarrow> Ret (apply_raft_status_machine_message (Propose b sx) action rx))"

definition apply_raft_message ::
  "'m \<Rightarrow> string \<Rightarrow> 'c \<Rightarrow> reply \<Rightarrow> ('m, 'cc, 'c) raft_message \<times> (robust_error + unit)" where
  "apply_raft_message message action sx rx =
     apply_raft_status_machine_message (Raft message sx) action rx"

definition apply_conf_raft_message ::
  "'cc \<Rightarrow> string \<Rightarrow> 'c \<Rightarrow> reply \<Rightarrow> ('m, 'cc, 'c) raft_message \<times> (robust_error + unit)" where
  "apply_conf_raft_message change action sx rx =
     apply_raft_status_machine_message (ConfChange change sx) action rx"

subsection \<open>DataRoute\<close>

definition route ::
  "'db env \<Rightarrow> route_codecs \<Rightarrow> u64 \<Rightarrow> 'db \<Rightarrow> bytes \<Rightarrow> 'db \<times> (robust_error + unit) run" where
  "route E W now db data =
     (case bc_deserialize (bc_storage_data W) data of
        Inl _ \<Rightarrow> (db, Panic UnwrapErr)
      | Inr storage_data \<Rightarrow>
          (case sd_data_type storage_data of
             KvSet \<Rightarrow>
               (case pb_decode (pb_set_request W) data of
                  Inl _ \<Rightarrow> (db, Panic UnwrapErr)
                | Inr req \<Rightarrow>
                    (let (db', r) = kv_set E now db (set_key req) (set_value req) in (db', Ret r)))
           | KvDelete \<Rightarrow>
               (case pb_decode (pb_delete_request W) data of
                  Inl _ \<Rightarrow> (db, Panic UnwrapErr)
                | Inr req \<Rightarrow>
                    (let (db', r) = kv_delete E db (del_key req) in (db', Ret r)))))"

subsection \<open>Properties\<close>

text \<open>
  What the two wire formats promise: bincode writes an enum's variant index first (a little-endian
  \<open>u32\<close>), and a protobuf message cannot start with a byte below 8, whose field number would be
  zero.
\<close>

fun variant_index :: "storage_data_type \<Rightarrow> u8" where
  "variant_index KvSet = 0"
| "variant_index KvDelete = 1"

definition wire_formats :: "route_codecs \<Rightarrow> bool" where
  "wire_formats W \<longleftrightarrow>
     bincode_laws (bc_storage_data W) \<and>
     (\<forall>d. \<exists>rest. bc_bytes (bc_storage_data W) d = variant_index (sd_data_type d) # rest) \<and>
     (\<forall>b rest. b < 8 \<longrightarrow> \<not> is_ok (pb_decode (pb_set_request W) (b # rest))) \<and>
     (\<forall>b rest. b < 8 \<longrightarrow> \<not> is_ok (pb_decode (pb_delete_request W) (b # rest)))"

lemma route_panics:
  assumes "wire_formats W"
    and "apply_propose_message W d action sx rx =
      Ret (Propose data sx :: ('m, 'cc, 'c) raft_message, r)"
  shows "route E W now db data = (db, Panic UnwrapErr)"
proof -
  have law: "bincode_laws (bc_storage_data W)" using assms(1) by (simp add: wire_formats_def)
  have data: "data = bc_bytes (bc_storage_data W) d"
    using assms(2) bincode_serialize_eq [OF law, of d]
    by (simp add: apply_propose_message_def apply_raft_status_machine_message_def)
  have de: "bc_deserialize (bc_storage_data W) data = Inr d"
    using bincode_roundtrip [OF law] data by simp
  obtain rest where rest: "data = variant_index (sd_data_type d) # rest"
    using assms(1) data unfolding wire_formats_def by blast
  have v: "variant_index t < 8" for t by (cases t) simp_all
  have "\<not> is_ok (pb_decode (pb_set_request W) data)" "\<not> is_ok (pb_decode (pb_delete_request W) data)"
    using assms(1) v [of "sd_data_type d"] by (simp_all add: wire_formats_def rest)
  then show ?thesis
    by (cases "pb_decode (pb_set_request W) data"; cases "pb_decode (pb_delete_request W) data";
        cases "sd_data_type d") (simp_all add: route_def de)
qed

text \<open>
  No proposal can be applied: \<open>route\<close> decodes the request from the envelope's bytes instead of
  from the value inside it, so on the data of every proposal that \<open>apply_propose_message\<close> sends,
  it panics and leaves the store unchanged.
\<close>

lemma route_never_applies:
  assumes "wire_formats W"
    and "apply_propose_message W d action sx rx =
      Ret (Propose data sx :: ('m, 'cc, 'c) raft_message, r)"
  shows "route E W now db data = (db, Panic UnwrapErr)"
  using assms by (rule route_panics)

definition fmt_storage_data :: "storage_data fmt" where
  "fmt_storage_data = fmt_map (\<lambda>d. (variant_index (sd_data_type d), sd_value d))
     (\<lambda>(t, v). \<lparr>sd_data_type = (if t = 0 then KvSet else KvDelete), sd_value = v\<rparr>)
     (fmt_pair fmt_u8 fmt_bytes)"

text \<open>Requests as a tagged string pair: the tag is a legal protobuf key.\<close>

definition tagged_prost :: "'a fmt \<Rightarrow> 'a prost" where
  "tagged_prost f =
     \<lparr>pb_encode = (\<lambda>v. 10 # put_fmt f v),
      pb_decode = (\<lambda>b. case b of [] \<Rightarrow> Inl parse_error
        | t # r \<Rightarrow> if t < 8 then Inl parse_error
                   else (case get_fmt f r of None \<Rightarrow> Inl parse_error | Some (v, _) \<Rightarrow> Inr v))\<rparr>"

definition ref_codecs :: route_codecs where
  "ref_codecs =
     \<lparr>bc_storage_data = ref_bincode fmt_storage_data,
      pb_set_request = tagged_prost (fmt_map (\<lambda>r. (set_key r, set_value r))
         (\<lambda>(k, v). \<lparr>set_key = k, set_value = v\<rparr>) (fmt_pair fmt_string fmt_string)),
      pb_delete_request = tagged_prost (fmt_map del_key (\<lambda>k. \<lparr>del_key = k\<rparr>) fmt_string)\<rparr>"

lemma fmt_storage_data_ok [simp]: "fmt_ok fmt_storage_data"
  unfolding fmt_storage_data_def
proof (rule fmt_map_ok)
  fix d :: storage_data
  show "(case (variant_index (sd_data_type d), sd_value d) of
      (t, v) \<Rightarrow> \<lparr>sd_data_type = (if t = 0 then KvSet else KvDelete), sd_value = v\<rparr>) = d"
    by (cases d; cases "sd_data_type d") simp_all
qed simp

lemma ref_wire_formats: "wire_formats ref_codecs"
proof -
  have "\<exists>rest. bc_bytes (ref_bincode fmt_storage_data) d = variant_index (sd_data_type d) # rest" for d
    by (simp add: bc_bytes_def ref_bincode_def fmt_storage_data_def fmt_map_def fmt_pair_def fmt_u8_def)
  then show ?thesis
    by (simp add: wire_formats_def ref_codecs_def ref_bincode_laws tagged_prost_def)
qed

definition ref_proposal :: storage_data where
  "ref_proposal = storage_data_new KvSet
     (pb_encode (pb_set_request ref_codecs) \<lparr>set_key = ''k1'', set_value = ''a''\<rparr>)"

lemma route_never_applies_witness:
  "route ref_env ref_codecs 1 [] (bc_bytes (bc_storage_data ref_codecs) ref_proposal) = ([], Panic UnwrapErr)"
proof (rule route_never_applies [OF ref_wire_formats])
  have "bincode_laws (bc_storage_data ref_codecs)" using ref_wire_formats by (simp add: wire_formats_def)
  then show "apply_propose_message ref_codecs ref_proposal ''set'' () (Replied Success) =
      Ret (Propose (bc_bytes (bc_storage_data ref_codecs) ref_proposal) () :: (unit, unit, unit) raft_message, Inr ())"
    by (simp add: apply_propose_message_def bincode_serialize_eq apply_raft_status_machine_message_def
        wait_recv_chan_resp_def recv_value_def)
qed

text \<open>
  A call through the state machine fails only when nothing comes back in time: an explicit
  \<open>Fail\<close> and a channel dropped without an answer are both reported to the caller as success.
\<close>

lemma apply_fails_only_on_timeout:
  "snd (apply_raft_status_machine_message m action rx) =
     (if rx = TimedOut then Inl (RaftLogCommitTimeout action) else Inr ())"
  by (cases rx) (simp_all add: apply_raft_status_machine_message_def wait_recv_chan_resp_def
      recv_value_def)

end
