(* ===== verification/Config.thy ===== *)
theory Config
  imports Rust_Text Errors
begin

section \<open>Configuration and files (src/common/base)\<close>

text \<open>
  \<open>config/placement_center.rs\<close>, \<open>tools.rs\<close> and \<open>log/placement_center.rs\<close>.  The file system, the
  TOML and YAML parsers and log4rs are arguments.  The global \<open>OnceLock\<close> is an option that the
  initializer returns.  A TOML table is the list of its pairs; of a value the code asks only
  whether it is a string.
\<close>

record log_conf =
  log_config :: string
  log_path :: string

datatype toml_value = TomlString string | TomlOther string

record placement_config =
  pc_cluster_name :: string
  pc_addr :: string
  pc_node_id :: u64
  pc_grpc_port :: u64
  pc_nodes :: "(string \<times> toml_value) list"
  pc_http_port :: u64
  pc_data_path :: string
  pc_log :: log_conf

definition default_node_id :: u64 where
  "default_node_id = 1"

definition default_grpc_port :: u64 where
  "default_grpc_port = 9982"

text \<open>\<open>Value::as_str\<close> of toml.\<close>

fun toml_as_str :: "toml_value \<Rightarrow> string option" where
  "toml_as_str (TomlString s) = Some s"
| "toml_as_str (TomlOther t) = None"

subsection \<open>Files\<close>

text \<open>
  The file system: what exists, what a text file holds (\<open>None\<close> when it cannot be read), and which
  directories can be created.
\<close>

record file_system =
  fs_exists :: "string \<Rightarrow> bool"
  fs_read :: "string \<Rightarrow> ext_error + string"
  fs_create_dir_all :: "string \<Rightarrow> ext_error + unit"

text \<open>\<open>now\<close> is the time since the epoch, or an error if the clock is set before it.\<close>

definition now_second :: "ext_error + u64 \<Rightarrow> u64 run" where
  "now_second now = unwrap_res now"

definition create_fold :: "file_system \<Rightarrow> string \<Rightarrow> robust_error + unit" where
  "create_fold F dir =
     (if \<not> fs_exists F dir then map_err IOJsonError (fs_create_dir_all F dir) else Inr ())"

definition file_exists :: "file_system \<Rightarrow> string \<Rightarrow> bool" where
  "file_exists F path = fs_exists F path"

definition read_file :: "file_system \<Rightarrow> string \<Rightarrow> robust_error + string" where
  "read_file F path =
     (if \<not> fs_exists F path then Inl (CommmonError (''File '' @ path @ '' does not exist''))
      else map_err IOJsonError (fs_read F path))"

subsection \<open>The global configuration\<close>

definition init_placement_center_conf_by_path ::
  "file_system \<Rightarrow> (string \<Rightarrow> ext_error + placement_config) \<Rightarrow> placement_config option \<Rightarrow> string \<Rightarrow>
   placement_config option \<times> placement_config run" where
  "init_placement_center_conf_by_path F parse_toml lock config_path =
     (case lock of
        Some config \<Rightarrow> (lock, Ret config)
      | None \<Rightarrow>
          (case read_file F config_path of
             Inl _ \<Rightarrow> (None, Panic ExplicitPanic)
           | Inr content \<Rightarrow>
               (case parse_toml content of
                  Inl _ \<Rightarrow> (None, Panic UnwrapErr)
                | Inr config \<Rightarrow> (Some config, Ret config))))"

definition placement_center_conf :: "placement_config option \<Rightarrow> placement_config run" where
  "placement_center_conf lock =
     (case lock of Some config \<Rightarrow> Ret config | None \<Rightarrow> Panic ExplicitPanic)"

text \<open>
  The first initialization that succeeds decides: every later one, whatever its path, returns
  the same configuration, and a failed one leaves the lock open for another try.
\<close>

lemma conf_init_sticks:
  "init_placement_center_conf_by_path F p lock path = (lock', Ret c) \<Longrightarrow>
     lock' = Some c \<and> init_placement_center_conf_by_path F' p' lock' path' = (Some c, Ret c) \<and>
     placement_center_conf lock' = Ret c"
  by (auto simp: init_placement_center_conf_by_path_def placement_center_conf_def
      split: option.splits sum.splits)

lemma conf_init_panic:
  "init_placement_center_conf_by_path F p lock path = (lock', Panic e) \<Longrightarrow> lock = None \<and> lock' = None"
  by (auto simp: init_placement_center_conf_by_path_def split: option.splits sum.splits)

subsection \<open>The log configuration\<close>

text \<open>\<open>str::replace\<close> of a non-empty pattern, left to right.\<close>

function str_replace :: "string \<Rightarrow> string \<Rightarrow> string \<Rightarrow> string" where
  "str_replace pat new [] = []"
| "str_replace pat new (c # s) =
     (if pat \<noteq> [] \<and> prefix pat (c # s) then new @ str_replace pat new (drop (length pat) (c # s))
      else c # str_replace pat new s)"
  by pat_completeness auto
termination
  by (relation "measure (\<lambda>(pat, new, s). length s)") (auto simp: Suc_diff_le)

definition init_placement_center_log ::
  "file_system \<Rightarrow> (string \<Rightarrow> ext_error + 'y) \<Rightarrow> ('y \<Rightarrow> ext_error + unit) \<Rightarrow> placement_config option \<Rightarrow>
   unit run" where
  "init_placement_center_log F parse_yaml init_raw_config lock =
     (case placement_center_conf lock of
        Panic p \<Rightarrow> Panic p
      | Ret conf \<Rightarrow>
          (if \<not> file_exists F (log_config (pc_log conf)) then Panic ExplicitPanic
           else (case create_fold F (log_path (pc_log conf)) of
             Inl _ \<Rightarrow> Panic ExplicitPanic
           | Inr _ \<Rightarrow>
               (case read_file F (log_config (pc_log conf)) of
                  Inl _ \<Rightarrow> Panic ExplicitPanic
                | Inr content \<Rightarrow>
                    (case parse_yaml (str_replace ''{$path}'' (log_path (pc_log conf)) content) of
                       Inl _ \<Rightarrow> Panic ExplicitPanic
                     | Inr config \<Rightarrow>
                         (case init_raw_config config of
                            Inl _ \<Rightarrow> Panic ExplicitPanic
                          | Inr _ \<Rightarrow> Ret ()))))))"

end
