(* ===== verification/Raft_Metadata.thy ===== *)
theory Raft_Metadata
  imports Config
begin

section \<open>Cluster metadata (src/placement-center/src/raft/metadata.rs, node.rs)\<close>

text \<open>
  What a node of the raft-rs path knows of its group: itself, its peers from the configuration,
  its Raft role and the leader.  The peers' \<open>HashMap\<close> is an association list.
\<close>

datatype cluster_type = PlacementCenter | JournalServer | MqttBrokerServer | AmqpBrokerServer

fun as_str_name :: "cluster_type \<Rightarrow> string" where
  "as_str_name PlacementCenter = ''PlacementCenter''"
| "as_str_name JournalServer = ''JournalServer''"
| "as_str_name MqttBrokerServer = ''MQTTBrokerServer''"
| "as_str_name AmqpBrokerServer = ''AMQPBrokerServer''"

definition from_str_name :: "string \<Rightarrow> cluster_type option" where
  "from_str_name value =
     (if value = ''PlacementCenter'' then Some PlacementCenter
      else if value = ''JournalServer'' then Some JournalServer
      else if value = ''MQTTBrokerServer'' then Some MqttBrokerServer
      else if value = ''AMQPBrokerServer'' then Some AmqpBrokerServer
      else None)"

lemma from_as_str_name [simp]: "from_str_name (as_str_name t) = Some t"
  by (cases t) (simp_all add: from_str_name_def)

record broker_node =
  bn_cluster_name :: string
  bn_cluster_type :: string
  bn_node_id :: u64
  bn_node_ip :: string
  bn_node_inner_addr :: string
  bn_extend :: string
  bn_create_time :: "128 word"

definition broker_node_default :: broker_node where
  "broker_node_default =
     \<lparr>bn_cluster_name = [], bn_cluster_type = [], bn_node_id = 0, bn_node_ip = [],
      bn_node_inner_addr = [], bn_extend = [], bn_create_time = 0\<rparr>"

text \<open>\<open>to_vec\<close> is \<open>serde_json::to_vec\<close>.\<close>

definition broker_node_encode :: "(broker_node \<Rightarrow> ext_error + bytes) \<Rightarrow> broker_node \<Rightarrow> bytes run" where
  "broker_node_encode to_vec node = unwrap_res (to_vec node)"

datatype node_state = Running | Starting | Stoping | Stop

datatype state_role = Follower | Candidate | Leader | PreCandidate

text \<open>The derived order of \<open>NodeState\<close>: that of the declaration.\<close>

fun node_state_rank :: "node_state \<Rightarrow> nat" where
  "node_state_rank Running = 0"
| "node_state_rank Starting = 1"
| "node_state_rank Stoping = 2"
| "node_state_rank Stop = 3"

instantiation node_state :: linorder
begin

definition less_eq_node_state :: "node_state \<Rightarrow> node_state \<Rightarrow> bool" where
  "less_eq_node_state a b \<longleftrightarrow> node_state_rank a \<le> node_state_rank b"

definition less_node_state :: "node_state \<Rightarrow> node_state \<Rightarrow> bool" where
  "less_node_state a b \<longleftrightarrow> node_state_rank a < node_state_rank b"

instance
proof
  fix a b :: node_state
  show "a \<le> b \<Longrightarrow> b \<le> a \<Longrightarrow> a = b"
    by (cases a; cases b) (simp_all add: less_eq_node_state_def)
qed (auto simp: less_eq_node_state_def less_node_state_def)

end

record raft_group_metadata =
  gm_local :: broker_node
  gm_leader :: "broker_node option"
  gm_state :: node_state
  gm_raft_role :: state_role
  gm_peers :: "(u64 \<times> broker_node) list"

subsection \<open>Strings of the configuration\<close>

definition split_once :: "char \<Rightarrow> string \<Rightarrow> (string \<times> string) option" where
  "split_once c s =
     (case dropWhile (\<lambda>x. x \<noteq> c) s of
        [] \<Rightarrow> None
      | _ # rest \<Rightarrow> Some (takeWhile (\<lambda>x. x \<noteq> c) s, rest))"

lemma split_once_append: "c \<notin> set s \<Longrightarrow> split_once c (s @ c # t) = Some (s, t)"
proof -
  assume c: "c \<notin> set s"
  have "dropWhile (\<lambda>x. x \<noteq> c) (s @ c # t) = c # t"
    by (subst dropWhile_append2) (use c in auto)
  moreover have "takeWhile (\<lambda>x. x \<noteq> c) (s @ c # t) = s"
    by (subst takeWhile_append2) (use c in auto)
  ultimately show ?thesis by (simp add: split_once_def)
qed

text \<open>
  \<open>str::trim\<close>: the White_Space characters of Unicode in UTF-8, at both ends.  \<open>ws_first\<close> and
  \<open>ws_last\<close> give the rest of a string after its first, before its last such character.
\<close>

definition ws_codes :: "nat list list" where
  "ws_codes =
     [[9], [10], [11], [12], [13], [32], [0xC2, 0x85], [0xC2, 0xA0], [0xE1, 0x9A, 0x80],
      [0xE2, 0x80, 0xA8], [0xE2, 0x80, 0xA9], [0xE2, 0x80, 0xAF], [0xE2, 0x81, 0x9F],
      [0xE3, 0x80, 0x80]] @ map (\<lambda>b. [0xE2, 0x80, b]) [0x80 ..< 0x8B]"

definition ws_chars :: "string list" where
  "ws_chars = map (map char_of) ws_codes"

definition ws_first :: "string \<Rightarrow> string option" where
  "ws_first s = map_option (\<lambda>w. drop (length w) s) (find (\<lambda>w. prefix w s) ws_chars)"

definition ws_last :: "string \<Rightarrow> string option" where
  "ws_last s = map_option (\<lambda>w. take (length s - length w) s) (find (\<lambda>w. suffix w s) ws_chars)"

lemma ws_chars_ne: "w \<in> set ws_chars \<Longrightarrow> w \<noteq> []"
  by (auto simp: ws_chars_def ws_codes_def)

lemma ws_first_shorter: "ws_first s = Some t \<Longrightarrow> length t < length s"
proof -
  assume "ws_first s = Some t"
  then obtain w where w: "find (\<lambda>w. prefix w s) ws_chars = Some w" "t = drop (length w) s"
    by (auto simp: ws_first_def)
  then have "w \<in> set ws_chars" "prefix w s" by (auto simp: find_Some_iff)
  then have "0 < length w" "length w \<le> length s" using ws_chars_ne by (auto dest: prefix_length_le)
  then have "length s - length w < length s" by linarith
  then show ?thesis using w by simp
qed

lemma ws_last_shorter: "ws_last s = Some t \<Longrightarrow> length t < length s"
proof -
  assume "ws_last s = Some t"
  then obtain w where w: "find (\<lambda>w. suffix w s) ws_chars = Some w" "t = take (length s - length w) s"
    by (auto simp: ws_last_def)
  then have "w \<in> set ws_chars" "suffix w s" by (auto simp: find_Some_iff)
  then have "0 < length w" "length w \<le> length s" using ws_chars_ne by (auto dest: suffix_length_le)
  then have "length s - length w < length s" by linarith
  then show ?thesis using w by simp
qed

function trim_start :: "string \<Rightarrow> string" where
  "trim_start s = (case ws_first s of None \<Rightarrow> s | Some t \<Rightarrow> trim_start t)"
  by pat_completeness auto
termination
  by (relation "measure length") (auto dest: ws_first_shorter)

function trim_end :: "string \<Rightarrow> string" where
  "trim_end s = (case ws_last s of None \<Rightarrow> s | Some t \<Rightarrow> trim_end t)"
  by pat_completeness auto
termination
  by (relation "measure length") (auto dest: ws_last_shorter)

declare trim_start.simps [simp del] trim_end.simps [simp del]

definition str_trim :: "string \<Rightarrow> string" where
  "str_trim s = trim_end (trim_start s)"

subsection \<open>RaftGroupMetadata\<close>

text \<open>
  One peer of the loop of \<open>new\<close>; \<open>toml_to_string\<close> is \<open>toml::Value::to_string\<close>.
\<close>

definition peer_of ::
  "(toml_value \<Rightarrow> string) \<Rightarrow> placement_config \<Rightarrow> string \<times> toml_value \<Rightarrow> (u64 \<times> broker_node) run" where
  "peer_of toml_to_string config entry =
     (case entry of (node_id, addr) \<Rightarrow>
        (case toml_as_str addr of
           None \<Rightarrow> Panic UnwrapNone
         | Some a \<Rightarrow>
             (case split_once CHR '':'' a of
                None \<Rightarrow> Panic UnwrapNone
              | Some (ip, _) \<Rightarrow>
                  (case parse_u64 (str_trim node_id) of
                     None \<Rightarrow> Panic UnwrapErr
                   | Some nid \<Rightarrow>
                       Ret (nid, broker_node_default
                         \<lparr>bn_cluster_type := as_str_name PlacementCenter,
                          bn_cluster_name := pc_cluster_name config,
                          bn_node_inner_addr := toml_to_string addr,
                          bn_node_ip := ip,
                          bn_node_id := nid\<rparr>)))))"

fun peers_of ::
  "(toml_value \<Rightarrow> string) \<Rightarrow> placement_config \<Rightarrow> (string \<times> toml_value) list \<Rightarrow>
   (u64 \<times> broker_node) list \<Rightarrow> (u64 \<times> broker_node) list run" where
  "peers_of ts config [] peers = Ret peers"
| "peers_of ts config (entry # rest) peers =
     (case peer_of ts config entry of
        Panic p \<Rightarrow> Panic p
      | Ret (nid, node) \<Rightarrow> peers_of ts config rest (AList.update nid node peers))"

definition local_node :: "placement_config \<Rightarrow> broker_node" where
  "local_node config =
     broker_node_default
       \<lparr>bn_cluster_type := as_str_name PlacementCenter,
        bn_cluster_name := pc_cluster_name config,
        bn_node_inner_addr := pc_addr config @ '':'' @ show_u64 (pc_grpc_port config),
        bn_node_ip := pc_addr config,
        bn_node_id := pc_node_id config\<rparr>"

definition raft_group_metadata_new ::
  "(toml_value \<Rightarrow> string) \<Rightarrow> placement_config option \<Rightarrow> raft_group_metadata run" where
  "raft_group_metadata_new ts lock =
     (case placement_center_conf lock of
        Panic p \<Rightarrow> Panic p
      | Ret config \<Rightarrow>
          (case peers_of ts config (pc_nodes config) [] of
             Panic p \<Rightarrow> Panic p
           | Ret peers \<Rightarrow>
               Ret \<lparr>gm_local = local_node config, gm_leader = None, gm_state = Starting,
                    gm_raft_role = Follower, gm_peers = peers\<rparr>))"

definition get_node_by_id :: "raft_group_metadata \<Rightarrow> u64 \<Rightarrow> broker_node option" where
  "get_node_by_id m nid = map_of (gm_peers m) nid"

definition add_peer :: "raft_group_metadata \<Rightarrow> u64 \<Rightarrow> broker_node \<Rightarrow> raft_group_metadata" where
  "add_peer m nid node = m\<lparr>gm_peers := AList.update nid node (gm_peers m)\<rparr>"

definition remove_peer :: "raft_group_metadata \<Rightarrow> u64 \<Rightarrow> raft_group_metadata" where
  "remove_peer m nid = m\<lparr>gm_peers := AList.delete nid (gm_peers m)\<rparr>"

definition is_leader :: "raft_group_metadata \<Rightarrow> bool" where
  "is_leader m \<longleftrightarrow> gm_raft_role m = Leader"

definition set_role :: "raft_group_metadata \<Rightarrow> state_role \<Rightarrow> raft_group_metadata" where
  "set_role m role = m\<lparr>gm_raft_role := role\<rparr>"

definition node_ids :: "raft_group_metadata \<Rightarrow> u64 list" where
  "node_ids m = map fst (gm_peers m)"

definition leader_addr :: "raft_group_metadata \<Rightarrow> string" where
  "leader_addr m = (case gm_leader m of Some leader \<Rightarrow> bn_node_inner_addr leader | None \<Rightarrow> [])"

definition leader_alive :: "raft_group_metadata \<Rightarrow> bool" where
  "leader_alive m \<longleftrightarrow> gm_leader m \<noteq> None"

subsection \<open>The life of the metadata\<close>

text \<open>Everything the program does to the metadata after \<open>new\<close>.\<close>

inductive metadata_reachable ::
  "(toml_value \<Rightarrow> string) \<Rightarrow> placement_config \<Rightarrow> raft_group_metadata \<Rightarrow> bool" for ts config where
  meta_new: "raft_group_metadata_new ts (Some config) = Ret m \<Longrightarrow> metadata_reachable ts config m"
| meta_add: "metadata_reachable ts config m \<Longrightarrow> metadata_reachable ts config (add_peer m i node)"
| meta_remove: "metadata_reachable ts config m \<Longrightarrow> metadata_reachable ts config (remove_peer m i)"
| meta_role: "metadata_reachable ts config m \<Longrightarrow> metadata_reachable ts config (set_role m r)"

lemma peers_of_distinct:
  "peers_of ts config es ps = Ret ps' \<Longrightarrow> distinct (map fst ps) \<Longrightarrow> distinct (map fst ps')"
  by (induction es arbitrary: ps) (auto split: run.splits intro: distinct_update)

lemma raft_group_metadata_newD:
  assumes "raft_group_metadata_new ts (Some config) = Ret m"
  shows "gm_leader m = None" "gm_local m = local_node config" "distinct (map fst (gm_peers m))"
  using assms peers_of_distinct [of ts config "pc_nodes config" "[]"]
  by (auto simp: raft_group_metadata_new_def placement_center_conf_def split: run.splits)

lemma metadata_reachable_invariant:
  "metadata_reachable ts config m \<Longrightarrow>
     gm_leader m = None \<and> gm_local m = local_node config \<and> distinct (map fst (gm_peers m))"
proof (induction rule: metadata_reachable.induct)
  case (meta_new m)
  then show ?case using raft_group_metadata_newD by blast
qed (simp_all add: add_peer_def remove_peer_def set_role_def distinct_update distinct_delete)

lemma leader_addr_empty: "metadata_reachable ts config m \<Longrightarrow> leader_addr m = []"
  using metadata_reachable_invariant [of ts config m] by (simp add: leader_addr_def)

text \<open>
  Through any sequence of peer additions, removals and role changes the node keeps its own
  identity and at most one entry per peer, and never learns a leader: \<open>leader_addr\<close> stays empty
  and \<open>leader_alive\<close> false for ever, although \<open>is_leader\<close> follows the role.
\<close>

lemma leader_never_known:
  assumes "metadata_reachable ts config m"
  shows "leader_addr m = [] \<and> \<not> leader_alive m \<and> gm_local m = local_node config \<and>
     distinct (node_ids m)"
  using metadata_reachable_invariant [OF assms]
  by (simp add: leader_addr_def leader_alive_def node_ids_def)

definition ref_config :: placement_config where
  "ref_config = \<lparr>pc_cluster_name = ''c1'', pc_addr = ''127.0.0.1'', pc_node_id = 1,
     pc_grpc_port = 1228, pc_nodes = [(''1'', TomlString ''127.0.0.1:1228'')],
     pc_http_port = 1227, pc_data_path = ''d'', pc_log = \<lparr>log_config = ''l'', log_path = ''p''\<rparr>\<rparr>"

text \<open>\<open>toml::Value::to_string\<close> writes a string in quotes.\<close>

fun quoted :: "toml_value \<Rightarrow> string" where
  "quoted (TomlString s) = CHR 34 # s @ [CHR 34]"
| "quoted (TomlOther t) = t"

lemma trim_clean: "ws_first s = None \<Longrightarrow> ws_last s = None \<Longrightarrow> str_trim s = s"
  by (simp add: str_trim_def trim_start.simps [of s] trim_end.simps [of s])

lemma digit_clean: "ws_first ''1'' = None" "ws_last ''1'' = None"
  by (simp_all add: ws_first_def ws_last_def ws_chars_def ws_codes_def suffix_def char_of_def upt_rec)

lemma ref_metadata:
  "\<exists>m. raft_group_metadata_new quoted (Some ref_config) = Ret m \<and>
     map_option bn_node_inner_addr (get_node_by_id m 1) = Some (CHR 34 # ''127.0.0.1:1228'' @ [CHR 34])"
  by (simp add: raft_group_metadata_new_def placement_center_conf_def ref_config_def peer_of_def
      split_once_def trim_clean digit_clean parse_u64_def char_digit_def get_node_by_id_def)

lemma leader_never_known_witness:
  "\<exists>m. metadata_reachable quoted ref_config (set_role m Leader) \<and> leader_addr (set_role m Leader) = [] \<and>
     is_leader (set_role m Leader)"
proof -
  obtain m where "raft_group_metadata_new quoted (Some ref_config) = Ret m" using ref_metadata by blast
  then have "metadata_reachable quoted ref_config (set_role m Leader)" by (intro meta_new meta_role)
  with leader_never_known [OF this] show ?thesis by (auto simp: is_leader_def set_role_def)
qed

end
