(* ===== verification/Raft_Machine.thy ===== *)
theory Raft_Machine
  imports Raft_Trait Raft_Apply Raft_Metadata
begin

section \<open>The state machine loop (src/placement-center/src/raft/machine.rs, peer.rs)\<close>

text \<open>
  \<open>RaftMachine\<close> drives a raft-rs \<open>RawNode\<close>.  The node is not code of this repository: it is a
  record of operations, each of which may read and write the store it owns.  The machine's state
  holds the node, the store, the cluster metadata, the two counters and the pending answer
  channels; \<open>mc_answers\<close> and \<open>mc_dropped\<close> list the channels answered and the channels dropped
  without an answer, and \<open>mc_peer_queue\<close> the messages handed to the peers' queue, each by a task
  of its own.
\<close>

subsection \<open>What raft-rs provides\<close>

datatype conf_change_type = AddNode | RemoveNode | AddLearnerNode

record conf_change =
  cc_type :: conf_change_type
  cc_node_id :: u64
  cc_context :: bytes

record 'm ready =
  rd_messages :: "'m list"
  rd_snapshot :: snapshot
  rd_entries :: "entry list"
  rd_committed :: "entry list"
  rd_hs :: "hard_state option"
  rd_persisted :: "'m list"

record 'm light_ready =
  lr_commit :: "u64 option"
  lr_messages :: "'m list"
  lr_committed :: "entry list"

record ('n, 'm, 'db) raw_node =
  rn_propose :: "'n \<Rightarrow> 'db raft_store \<Rightarrow> bytes \<Rightarrow> bytes \<Rightarrow> ('n \<times> 'db raft_store) \<times> (ext_error + unit)"
  rn_propose_conf_change ::
    "'n \<Rightarrow> 'db raft_store \<Rightarrow> bytes \<Rightarrow> conf_change \<Rightarrow> ('n \<times> 'db raft_store) \<times> (ext_error + unit)"
  rn_step :: "'n \<Rightarrow> 'db raft_store \<Rightarrow> 'm \<Rightarrow> ('n \<times> 'db raft_store) \<times> (ext_error + unit)"
  rn_transfer_leader :: "'n \<Rightarrow> 'db raft_store \<Rightarrow> u64 \<Rightarrow> 'n \<times> 'db raft_store"
  rn_tick :: "'n \<Rightarrow> 'db raft_store \<Rightarrow> 'n \<times> 'db raft_store"
  rn_role :: "'n \<Rightarrow> state_role"
  rn_has_ready :: "'n \<Rightarrow> bool"
  rn_ready :: "'n \<Rightarrow> 'db raft_store \<Rightarrow> ('n \<times> 'db raft_store) \<times> 'm ready"
  rn_advance :: "'n \<Rightarrow> 'db raft_store \<Rightarrow> 'm ready \<Rightarrow> ('n \<times> 'db raft_store) \<times> 'm light_ready"
  rn_advance_apply :: "'n \<Rightarrow> 'db raft_store \<Rightarrow> 'n \<times> 'db raft_store"
  rn_apply_conf_change :: "'n \<Rightarrow> conf_change \<Rightarrow> 'n \<times> (ext_error + conf_state)"
  rn_msg_to :: "'m \<Rightarrow> u64"
  rn_msg_encode :: "'m \<Rightarrow> bytes"

text \<open>Everything foreign the machine uses: the node, the store's environment and the codecs.\<close>

record ('n, 'm, 'db) machine_env =
  me_raw :: "('n, 'm, 'db) raw_node"
  me_env :: "'db env"
  me_route :: route_codecs
  me_seq :: "u64 bincode"
  me_node :: "broker_node bincode"
  me_conf_change :: "conf_change prost"

subsection \<open>The machine\<close>

record peer_message =
  pm_to :: string
  pm_data :: bytes

record ('n, 'db, 'c) machine =
  mc_cluster :: raft_group_metadata
  mc_seqnum :: u64
  mc_resp_channel :: "(u64 \<times> 'c) list"
  mc_entry_num :: u64
  mc_node :: 'n
  mc_store :: "'db raft_store"
  mc_answers :: "('c \<times> raft_response) list"
  mc_dropped :: "'c list"
  mc_peer_queue :: "peer_message list"

text \<open>\<open>RaftMachine::new\<close>; the node and the store are those of \<open>new_node\<close>.\<close>

definition machine_new :: "raft_group_metadata \<Rightarrow> 'n \<Rightarrow> 'db raft_store \<Rightarrow> ('n, 'db, 'c) machine" where
  "machine_new cluster node store =
     \<lparr>mc_cluster = cluster, mc_seqnum = 1, mc_resp_channel = [], mc_entry_num = 1,
      mc_node = node, mc_store = store, mc_answers = [], mc_dropped = [], mc_peer_queue = []\<rparr>"

abbreviation set_raw :: "('n, 'db, 'c) machine \<Rightarrow> 'n \<times> 'db raft_store \<Rightarrow> ('n, 'db, 'c) machine" where
  "set_raw M ns \<equiv> M\<lparr>mc_node := fst ns, mc_store := snd ns\<rparr>"

definition answer :: "('n, 'db, 'c) machine \<Rightarrow> 'c \<Rightarrow> ('n, 'db, 'c) machine" where
  "answer M chan = M\<lparr>mc_answers := mc_answers M @ [(chan, Success)]\<rparr>"

definition drop_chan :: "('n, 'db, 'c) machine \<Rightarrow> 'c \<Rightarrow> ('n, 'db, 'c) machine" where
  "drop_chan M chan = M\<lparr>mc_dropped := mc_dropped M @ [chan]\<rparr>"

text \<open>\<open>HashMap::insert\<close> drops the value it replaces.\<close>

definition insert_chan :: "('n, 'db, 'c) machine \<Rightarrow> u64 \<Rightarrow> 'c \<Rightarrow> ('n, 'db, 'c) machine" where
  "insert_chan M seq chan =
     (case map_of (mc_resp_channel M) seq of
        Some old \<Rightarrow> drop_chan (M\<lparr>mc_resp_channel := AList.update seq chan (mc_resp_channel M)\<rparr>) old
      | None \<Rightarrow> M\<lparr>mc_resp_channel := AList.update seq chan (mc_resp_channel M)\<rparr>)"

text \<open>The four arms of the \<open>match\<close> on a received message.\<close>

definition propose_with ::
  "('n, 'm, 'db) machine_env \<Rightarrow>
   ('n \<Rightarrow> 'db raft_store \<Rightarrow> bytes \<Rightarrow> ('n \<times> 'db raft_store) \<times> (ext_error + unit)) \<Rightarrow> 'c \<Rightarrow>
   ('n, 'db, 'c) machine \<Rightarrow> ('n, 'db, 'c) machine \<times> unit run" where
  "propose_with X f chan M =
     (let seq = mc_seqnum M; M1 = M\<lparr>mc_seqnum := seq + 1\<rparr> in
      (case bc_serialize (me_seq X) seq of
         Inl _ \<Rightarrow> (drop_chan M1 chan, Panic UnwrapErr)
       | Inr ctx \<Rightarrow>
           (case f (mc_node M1) (mc_store M1) ctx of
              (ns, Inr _) \<Rightarrow> (insert_chan (set_raw M1 ns) seq chan, Ret ())
            | (ns, Inl _) \<Rightarrow> (drop_chan (set_raw M1 ns) chan, Ret ()))))"

fun handle_message ::
  "('n, 'm, 'db) machine_env \<Rightarrow> ('m, conf_change, 'c) raft_message \<Rightarrow> ('n, 'db, 'c) machine \<Rightarrow>
   ('n, 'db, 'c) machine \<times> unit run" where
  "handle_message X (ConfChange change chan) M =
     propose_with X (\<lambda>n s ctx. rn_propose_conf_change (me_raw X) n s ctx change) chan M"
| "handle_message X (Raft message chan) M =
     (case rn_step (me_raw X) (mc_node M) (mc_store M) message of
        (ns, Inr _) \<Rightarrow> (answer (set_raw M ns) chan, Ret ())
      | (ns, Inl _) \<Rightarrow> (drop_chan (set_raw M ns) chan, Ret ()))"
| "handle_message X (TransferLeader node_id chan) M =
     (answer (set_raw M (rn_transfer_leader (me_raw X) (mc_node M) (mc_store M) node_id)) chan, Ret ())"
| "handle_message X (Propose d chan) M =
     propose_with X (\<lambda>n s ctx. rn_propose (me_raw X) n s ctx d) chan M"

subsection \<open>Messages to peers\<close>

definition send_peer_message :: "('n, 'db, 'c) machine \<Rightarrow> u64 \<Rightarrow> bytes \<Rightarrow> ('n, 'db, 'c) machine" where
  "send_peer_message M to msg =
     (case get_node_by_id (mc_cluster M) to of
        Some node \<Rightarrow> M\<lparr>mc_peer_queue := mc_peer_queue M @
             [\<lparr>pm_to = bn_node_inner_addr node, pm_data = msg\<rparr>]\<rparr>
      | None \<Rightarrow> M)"

fun send_message ::
  "('n, 'm, 'db) machine_env \<Rightarrow> 'm list \<Rightarrow> ('n, 'db, 'c) machine \<Rightarrow> ('n, 'db, 'c) machine" where
  "send_message X [] M = M"
| "send_message X (msg # msgs) M =
     send_message X msgs
       (send_peer_message M (rn_msg_to (me_raw X) msg) (rn_msg_encode (me_raw X) msg))"

subsection \<open>Committed entries\<close>

text \<open>\<open>RaftMachine::create_snapshot\<close>: every thousandth entry.\<close>

definition count_and_snapshot ::
  "('n, 'm, 'db) machine_env \<Rightarrow> ('n, 'db, 'c) machine \<Rightarrow> ('n, 'db, 'c) machine \<times> unit run" where
  "count_and_snapshot X M =
     (let num = mc_entry_num M; M1 = M\<lparr>mc_entry_num := num + 1\<rparr> in
      if num mod 1000 = 0 then
        (case st_create_snapshot (me_env X) (mc_store M1) of
           (s, Ret (Inr _)) \<Rightarrow> (M1\<lparr>mc_store := s\<rparr>, Ret ())
         | (s, Ret (Inl _)) \<Rightarrow> (M1\<lparr>mc_store := s\<rparr>, Panic UnwrapErr)
         | (s, Panic p) \<Rightarrow> (M1\<lparr>mc_store := s\<rparr>, Panic p))
      else (M1, Ret ()))"

definition apply_conf_entry ::
  "('n, 'm, 'db) machine_env \<Rightarrow> entry \<Rightarrow> ('n, 'db, 'c) machine \<Rightarrow> ('n, 'db, 'c) machine \<times> unit run" where
  "apply_conf_entry X e M =
     (case pb_decode (me_conf_change X) (e_data e) of
        Inl _ \<Rightarrow> (M, Panic UnwrapErr)
      | Inr change \<Rightarrow>
          bind_run
            (case cc_type change of
               AddNode \<Rightarrow>
                 (case bc_deserialize (me_node X) (cc_context change) of
                    Inr node \<Rightarrow> (M\<lparr>mc_cluster := add_peer (mc_cluster M) (cc_node_id change) node\<rparr>, Ret ())
                  | Inl _ \<Rightarrow> (M, Ret ()))
             | RemoveNode \<Rightarrow> (M\<lparr>mc_cluster := remove_peer (mc_cluster M) (cc_node_id change)\<rparr>, Ret ())
             | AddLearnerNode \<Rightarrow> (M, Panic ExplicitPanic))
            (\<lambda>M1 _.
              (case rn_apply_conf_change (me_raw X) (mc_node M1) change of
                 (n, Inr cs) \<Rightarrow>
                   (let (s, r) = st_set_conf_state (me_env X) (mc_store M1) cs
                    in (M1\<lparr>mc_node := n, mc_store := s\<rparr>, case r of Ret _ \<Rightarrow> Ret () | Panic p \<Rightarrow> Panic p))
               | (n, Inl _) \<Rightarrow> (M1\<lparr>mc_node := n\<rparr>, Ret ()))))"

definition apply_entry_data ::
  "('n, 'm, 'db) machine_env \<Rightarrow> u64 \<Rightarrow> entry \<Rightarrow> ('n, 'db, 'c) machine \<Rightarrow>
   ('n, 'db, 'c) machine \<times> unit run" where
  "apply_entry_data X now e M =
     (if e_data e = [] then (M, Ret ())
      else (case e_type e of
              EntryNormal \<Rightarrow>
                (let (db, r) = route (me_env X) (me_route X) now (rs_db (mc_store M)) (e_data e)
                 in (M\<lparr>mc_store := (mc_store M)\<lparr>rs_db := db\<rparr>\<rparr>,
                     case r of Ret _ \<Rightarrow> Ret () | Panic p \<Rightarrow> Panic p))
            | EntryConfChange \<Rightarrow> apply_conf_entry X e M
            | EntryConfChangeV2 \<Rightarrow> (M, Ret ())))"

definition answer_seq ::
  "('n, 'm, 'db) machine_env \<Rightarrow> bytes \<Rightarrow> ('n, 'db, 'c) machine \<Rightarrow> ('n, 'db, 'c) machine" where
  "answer_seq X ctx M =
     (case bc_deserialize (me_seq X) ctx of
        Inl _ \<Rightarrow> M
      | Inr seq \<Rightarrow>
          (case map_of (mc_resp_channel M) seq of
             Some chan \<Rightarrow> answer (M\<lparr>mc_resp_channel := AList.delete seq (mc_resp_channel M)\<rparr>) chan
           | None \<Rightarrow> M))"

definition handle_committed_entry ::
  "('n, 'm, 'db) machine_env \<Rightarrow> u64 \<Rightarrow> entry \<Rightarrow> ('n, 'db, 'c) machine \<Rightarrow>
   ('n, 'db, 'c) machine \<times> unit run" where
  "handle_committed_entry X now e M =
     bind_run (apply_entry_data X now e M) (\<lambda>M1 _.
       (let (s, r) = st_commmit_index (me_env X) (mc_store M1) (e_index e);
            M2 = M1\<lparr>mc_store := s\<rparr>
        in (case r of
              Panic p \<Rightarrow> (M2, Panic p)
            | Ret _ \<Rightarrow> count_and_snapshot X (answer_seq X (e_context e) M2))))"

fun handle_committed_entries ::
  "('n, 'm, 'db) machine_env \<Rightarrow> u64 \<Rightarrow> entry list \<Rightarrow> ('n, 'db, 'c) machine \<Rightarrow>
   ('n, 'db, 'c) machine \<times> unit run" where
  "handle_committed_entries X now [] M = (M, Ret ())"
| "handle_committed_entries X now (e # es) M =
     bind_run (handle_committed_entry X now e M) (\<lambda>M1 _. handle_committed_entries X now es M1)"

subsection \<open>on_ready\<close>

text \<open>A call on the store whose \<open>RaftResult\<close> is unwrapped.\<close>

definition store_step ::
  "('db raft_store \<Rightarrow> 'db raft_store \<times> (raft_error + unit) run) \<Rightarrow> ('n, 'db, 'c) machine \<Rightarrow>
   ('n, 'db, 'c) machine \<times> unit run" where
  "store_step f M =
     (let (s, r) = f (mc_store M)
      in (M\<lparr>mc_store := s\<rparr>,
          case r of Ret (Inr _) \<Rightarrow> Ret () | Ret (Inl _) \<Rightarrow> Panic UnwrapErr | Panic p \<Rightarrow> Panic p))"

definition when_run :: "bool \<Rightarrow> ('s \<Rightarrow> 's \<times> unit run) \<Rightarrow> 's \<Rightarrow> 's \<times> unit run" where
  "when_run b f s = (if b then f s else (s, Ret ()))"

text \<open>The second half of \<open>on_ready\<close>, from the persisted messages to \<open>advance_apply\<close>.\<close>

definition finish_ready ::
  "('n, 'm, 'db) machine_env \<Rightarrow> u64 \<Rightarrow> 'm ready \<Rightarrow> ('n, 'db, 'c) machine \<Rightarrow>
   ('n, 'db, 'c) machine \<times> unit run" where
  "finish_ready X now rd M5 =
     (let M6 = send_message X (rd_persisted rd) M5;
          (ns, light) = rn_advance (me_raw X) (mc_node M6) (mc_store M6)
            (rd\<lparr>rd_messages := [], rd_committed := [], rd_persisted := []\<rparr>);
          M7 = set_raw M6 ns
      in bind_run
           (case lr_commit light of
              Some commit \<Rightarrow> store_step (\<lambda>s. st_set_hard_state_comit (me_env X) s commit) M7
            | None \<Rightarrow> (M7, Ret ())) (\<lambda>M8 _.
         bind_run (handle_committed_entries X now (lr_committed light)
             (send_message X (lr_messages light) M8)) (\<lambda>M9 _.
           (set_raw M9 (rn_advance_apply (me_raw X) (mc_node M9) (mc_store M9)), Ret ()))))"

text \<open>The first half, from the snapshot to the hard state.\<close>

definition begin_ready ::
  "('n, 'm, 'db) machine_env \<Rightarrow> u64 \<Rightarrow> 'm ready \<Rightarrow> ('n, 'db, 'c) machine \<Rightarrow>
   ('n, 'db, 'c) machine \<times> unit run" where
  "begin_ready X now rd M1 =
     bind_run
       (when_run (rd_snapshot rd \<noteq> snapshot_default)
          (store_step (\<lambda>s. st_apply_snapshot (me_env X) s (rd_snapshot rd))) M1) (\<lambda>M2 _.
     bind_run
       (when_run (rd_entries rd \<noteq> [])
          (store_step (\<lambda>s. st_append (me_env X) s (rd_entries rd))) M2) (\<lambda>M3 _.
     bind_run (handle_committed_entries X now (rd_committed rd) M3) (\<lambda>M4 _.
       (case rd_hs rd of
          Some hs \<Rightarrow> store_step (\<lambda>s. st_set_hard_state (me_env X) s hs) M4
        | None \<Rightarrow> (M4, Ret ())))))"

definition on_ready ::
  "('n, 'm, 'db) machine_env \<Rightarrow> u64 \<Rightarrow> ('n, 'db, 'c) machine \<Rightarrow> ('n, 'db, 'c) machine \<times> unit run" where
  "on_ready X now M0 =
     (if \<not> rn_has_ready (me_raw X) (mc_node M0) then (M0, Ret ())
      else
        (let (ns, rd) = rn_ready (me_raw X) (mc_node M0) (mc_store M0);
             M1 = send_message X (rd_messages rd) (set_raw M0 ns)
         in bind_run (begin_ready X now rd M1) (\<lambda>M5 _. finish_ready X now rd M5)))"

subsection \<open>The loop\<close>

text \<open>
  What one turn of the loop finds: the stop channel's value if there is one, the queue (a message,
  a closed queue, or nothing within the heartbeat), and whether a heartbeat has elapsed.
\<close>

datatype ('m, 'c) queue_event = Received "('m, conf_change, 'c) raft_message" | Closed | Idle

datatype loop_result = Continue | Break

definition tick_and_role ::
  "('n, 'm, 'db) machine_env \<Rightarrow> bool \<Rightarrow> ('n, 'db, 'c) machine \<Rightarrow> ('n, 'db, 'c) machine" where
  "tick_and_role X elapsed M1 =
     (let M2 = (if elapsed then set_raw M1 (rn_tick (me_raw X) (mc_node M1) (mc_store M1)) else M1);
          role = rn_role (me_raw X) (mc_node M2)
      in if gm_raft_role (mc_cluster M2) \<noteq> role
         then M2\<lparr>mc_cluster := set_role (mc_cluster M2) role\<rparr> else M2)"

definition run_turn ::
  "('n, 'm, 'db) machine_env \<Rightarrow> bool option \<Rightarrow> ('m, 'c) queue_event \<Rightarrow> bool \<Rightarrow> u64 \<Rightarrow>
   ('n, 'db, 'c) machine \<Rightarrow> ('n, 'db, 'c) machine \<times> loop_result run" where
  "run_turn X stop ev elapsed now M =
     (if stop = Some True then (M, Ret Break)
      else if ev = Closed then (M, Ret Continue)
      else bind_run (case ev of Received msg \<Rightarrow> handle_message X msg M | _ \<Rightarrow> (M, Ret ())) (\<lambda>M1 _.
        bind_run (on_ready X now (tick_and_role X elapsed M1)) (\<lambda>M4 _. (M4, Ret Continue))))"

text \<open>The loop on a finite stretch of what its turns find.\<close>

fun run_loop ::
  "('n, 'm, 'db) machine_env \<Rightarrow> (bool option \<times> ('m, 'c) queue_event \<times> bool \<times> u64) list \<Rightarrow>
   ('n, 'db, 'c) machine \<Rightarrow> ('n, 'db, 'c) machine \<times> loop_result run" where
  "run_loop X [] M = (M, Ret Continue)"
| "run_loop X ((stop, ev, elapsed, now) # turns) M =
     (case run_turn X stop ev elapsed now M of
        (M1, Ret Continue) \<Rightarrow> run_loop X turns M1
      | (M1, Ret Break) \<Rightarrow> (M1, Ret Break)
      | (M1, Panic p) \<Rightarrow> (M1, Panic p))"

subsection \<open>Starting a node\<close>

record raft_config =
  rc_id :: u64
  rc_election_tick :: u64
  rc_heartbeat_tick :: u64
  rc_max_size_per_msg :: u64
  rc_max_inflight_msgs :: u64
  rc_applied :: u64

definition build_config :: "placement_config option \<Rightarrow> u64 \<Rightarrow> raft_config run" where
  "build_config lock apply =
     (case placement_center_conf lock of
        Panic p \<Rightarrow> Panic p
      | Ret conf \<Rightarrow>
          Ret \<lparr>rc_id = pc_node_id conf, rc_election_tick = 10, rc_heartbeat_tick = 3,
               rc_max_size_per_msg = 1024 * 1024 * 1024, rc_max_inflight_msgs = 256,
               rc_applied = apply\<rparr>)"

text \<open>
  The log file of \<open>build_slog\<close>: \<open>file_open\<close> opens it for writing, without truncating it, and creates
  it if it is missing; \<open>slog\<close> wraps the file in a decorator, a formatter and a channel of 4096
  records that blocks when it is full, under the tag \<open>meta-node-id=1\<close>.
\<close>

definition build_slog ::
  "(string \<Rightarrow> ext_error + 'f) \<Rightarrow> ('f \<Rightarrow> nat \<Rightarrow> string \<times> string \<Rightarrow> 'g) \<Rightarrow> placement_config option \<Rightarrow> 'g run" where
  "build_slog file_open slog lock =
     (case placement_center_conf lock of
        Panic p \<Rightarrow> Panic p
      | Ret conf \<Rightarrow>
          (case file_open (log_path (pc_log conf) @ ''/raft.log'') of
             Inl _ \<Rightarrow> Panic UnwrapErr
           | Inr file \<Rightarrow> Ret (slog file 4096 (''tag'', ''meta-node-id='' @ show_u64 1))))"

text \<open>
  \<open>raw_new\<close> is \<open>RawNode::new\<close>, whose error is unwrapped; \<open>logger\<close> is the result of \<open>build_slog\<close>.
\<close>

definition new_node ::
  "'db env \<Rightarrow> (raft_config \<Rightarrow> 'db raft_store \<Rightarrow> 'g \<Rightarrow> ext_error + 'n) \<Rightarrow> 'g run \<Rightarrow> placement_config option \<Rightarrow>
   raft_group_metadata \<Rightarrow> 'db raft_store \<Rightarrow> 'db raft_store \<times> 'n run" where
  "new_node E raw_new logger lock cluster s =
     (case read_hard_state E s of
        Panic p \<Rightarrow> (s, Panic p)
      | Ret hs \<Rightarrow>
          (case build_config lock (hs_commit hs) of
             Panic p \<Rightarrow> (s, Panic p)
           | Ret conf \<Rightarrow>
               (case read_conf_state E s of
                  Panic p \<Rightarrow> (s, Panic p)
                | Ret cs \<Rightarrow>
                    (let s1 = fst (save_conf_state E s (cs\<lparr>cs_voters := node_ids cluster\<rparr>))
                     in (s1, case logger of
                               Panic p \<Rightarrow> Panic p
                             | Ret log \<Rightarrow> unwrap_res (raw_new conf s1 log))))))"

subsection \<open>Peers\<close>

text \<open>
  One message of \<open>PeersManager::start\<close>: \<open>connect\<close> and \<open>send\<close> are the generated client's methods on
  a world of type \<open>'w\<close>; a failed connection is unwrapped, a failed call only logged.
\<close>

definition send_to_peer ::
  "('w \<Rightarrow> string \<Rightarrow> 'w \<times> (ext_error + 'cl)) \<Rightarrow> ('w \<Rightarrow> 'cl \<Rightarrow> bytes \<Rightarrow> 'w \<times> (status + 'r)) \<Rightarrow> peer_message \<Rightarrow>
   'w \<Rightarrow> 'w \<times> unit run" where
  "send_to_peer connect send d w =
     (case connect w (''http://'' @ pm_to d) of
        (w1, Inl _) \<Rightarrow> (w1, Panic UnwrapErr)
      | (w1, Inr client) \<Rightarrow>
          (case send w1 client (pm_data d) of (w2, Inr _) \<Rightarrow> (w2, Ret ()) | (w2, Inl _) \<Rightarrow> (w2, Ret ())))"

text \<open>
  The loop over what its \<open>recv\<close> calls return: a message, or nothing once every sender is gone.  It
  never breaks, so after the last of them it waits (or, in the second case, spins) for ever.
\<close>

fun peers_start ::
  "('w \<Rightarrow> string \<Rightarrow> 'w \<times> (ext_error + 'cl)) \<Rightarrow> ('w \<Rightarrow> 'cl \<Rightarrow> bytes \<Rightarrow> 'w \<times> (status + 'r)) \<Rightarrow>
   peer_message option list \<Rightarrow> 'w \<Rightarrow> 'w \<times> unit run" where
  "peers_start connect send [] w = (w, Ret ())"
| "peers_start connect send (None # rs) w = peers_start connect send rs w"
| "peers_start connect send (Some d # rs) w =
     bind_run (send_to_peer connect send d w) (\<lambda>w1 _. peers_start connect send rs w1)"

end
