(* ===== verification/Raft_Machine_Props.thy ===== *)
theory Raft_Machine_Props
  imports Raft_Machine "HOL-Library.Multiset"
begin

section \<open>What the state machine loop guarantees\<close>

text \<open>
  Every answer channel handed to the machine is accounted for: it is pending, answered or dropped,
  once.  Then what becomes of committed entries, and what a restart does to the configuration.
\<close>

subsection \<open>Accounting for channels\<close>

definition accounted :: "('n, 'db, 'c) machine \<Rightarrow> 'c multiset" where
  "accounted M = mset (map snd (mc_resp_channel M)) + mset (map fst (mc_answers M)) + mset (mc_dropped M)"

text \<open>Pending sequence numbers are distinct and lie below the counter.\<close>

definition seq_inv :: "('n, 'db, 'c) machine \<Rightarrow> bool" where
  "seq_inv M \<longleftrightarrow> distinct (map fst (mc_resp_channel M)) \<and>
     (\<forall>q \<in> set (map fst (mc_resp_channel M)). q < mc_seqnum M)"

definition same_chans :: "('n, 'db, 'c) machine \<Rightarrow> ('n, 'db, 'c) machine \<Rightarrow> bool" where
  "same_chans M M' \<longleftrightarrow> mc_seqnum M' = mc_seqnum M \<and> seq_inv M' \<and> accounted M' = accounted M"

lemma same_chans_refl: "seq_inv M \<Longrightarrow> same_chans M M"
  by (simp add: same_chans_def)

lemma same_chans_trans: "same_chans M M1 \<Longrightarrow> same_chans M1 M2 \<Longrightarrow> same_chans M M2"
  by (simp add: same_chans_def)

lemma same_chansI:
  "seq_inv M \<Longrightarrow> mc_seqnum M' = mc_seqnum M \<Longrightarrow> mc_resp_channel M' = mc_resp_channel M \<Longrightarrow>
     mc_answers M' = mc_answers M \<Longrightarrow> mc_dropped M' = mc_dropped M \<Longrightarrow> same_chans M M'"
  by (simp add: same_chans_def seq_inv_def accounted_def)

lemma bind_run_chans:
  "same_chans M (fst m) \<Longrightarrow> (\<And>M1 a. same_chans M M1 \<Longrightarrow> same_chans M (fst (f M1 a))) \<Longrightarrow>
     same_chans M (fst (bind_run m f))"
  by (cases m; cases "snd m") auto

lemma same_chans_inv: "same_chans M M' \<Longrightarrow> seq_inv M'"
  by (simp add: same_chans_def)

lemma mset_delete:
  "distinct (map fst xs) \<Longrightarrow> map_of xs k = Some v \<Longrightarrow>
     add_mset v (mset (map snd (AList.delete k xs))) = mset (map snd xs)"
proof (induction xs)
  case Nil
  then show ?case by simp
next
  case (Cons x xs)
  obtain a b where x: "x = (a, b)" by (cases x)
  show ?case
  proof (cases "a = k")
    case True
    then have "k \<notin> fst ` set xs" using Cons.prems(1) x by simp
    then have "AList.delete k xs = xs" by (simp add: delete_id)
    with True Cons.prems(2) show ?thesis by (simp add: x)
  next
    case False
    then have "add_mset v (mset (map snd (AList.delete k xs))) = mset (map snd xs)"
      using Cons by (simp add: x)
    with False show ?thesis by (simp add: x)
  qed
qed

lemma update_fresh: "k \<notin> set (map fst xs) \<Longrightarrow> AList.update k v xs = xs @ [(k, v)]"
  by (induction xs) auto

lemma answer_seq_chans: "seq_inv M \<Longrightarrow> same_chans M (answer_seq X ctx M)"
proof -
  assume inv: "seq_inv M"
  show ?thesis
  proof (cases "bc_deserialize (me_seq X) ctx")
    case (Inl e)
    then show ?thesis using inv by (simp add: answer_seq_def same_chans_refl)
  next
    case (Inr seq)
    show ?thesis
    proof (cases "map_of (mc_resp_channel M) seq")
      case None
      then show ?thesis using Inr inv by (simp add: answer_seq_def same_chans_refl)
    next
      case (Some chan)
      have d: "distinct (map fst (mc_resp_channel M))" using inv by (simp add: seq_inv_def)
      have lt: "q < mc_seqnum M" if "q \<in> set (map fst (AList.delete seq (mc_resp_channel M)))" for q
        using that inv by (auto simp: seq_inv_def delete_keys)
      show ?thesis
        using d Inr Some lt mset_delete [OF d Some]
        by (simp add: answer_seq_def answer_def same_chans_def seq_inv_def accounted_def distinct_delete)
    qed
  qed
qed

lemma count_and_snapshot_chans: "seq_inv M \<Longrightarrow> same_chans M (fst (count_and_snapshot X M))"
  by (auto simp: count_and_snapshot_def Let_def intro: same_chansI split: prod.split run.split sum.split)

lemma apply_conf_entry_chans: "seq_inv M \<Longrightarrow> same_chans M (fst (apply_conf_entry X e M))"
proof -
  assume inv: "seq_inv M"
  have next_step: "same_chans M1 (fst (case rn_apply_conf_change (me_raw X) (mc_node M1) change of
                 (n, Inr cs) \<Rightarrow>
                   (let (s, r) = st_set_conf_state (me_env X) (mc_store M1) cs
                    in (M1\<lparr>mc_node := n, mc_store := s\<rparr>, case r of Ret _ \<Rightarrow> Ret () | Panic p \<Rightarrow> Panic p))
               | (n, Inl _) \<Rightarrow> (M1\<lparr>mc_node := n\<rparr>, Ret ())))" if "seq_inv M1" for M1 change
    using that by (auto simp: Let_def intro: same_chansI split: prod.split sum.split)
  show ?thesis
  proof (cases "pb_decode (me_conf_change X) (e_data e)")
    case (Inl err)
    then show ?thesis using inv by (simp add: apply_conf_entry_def same_chans_refl)
  next
    case (Inr change)
    show ?thesis
      unfolding apply_conf_entry_def Inr sum.case
    proof (rule bind_run_chans)
      show "same_chans M (fst (case cc_type change of
               AddNode \<Rightarrow>
                 (case bc_deserialize (me_node X) (cc_context change) of
                    Inl _ \<Rightarrow> (M, Ret ())
                  | Inr node \<Rightarrow> (M\<lparr>mc_cluster := add_peer (mc_cluster M) (cc_node_id change) node\<rparr>, Ret ()))
             | RemoveNode \<Rightarrow> (M\<lparr>mc_cluster := remove_peer (mc_cluster M) (cc_node_id change)\<rparr>, Ret ())
             | AddLearnerNode \<Rightarrow> (M, Panic ExplicitPanic)))"
        using inv by (auto intro: same_chansI split: conf_change_type.split sum.split)
    qed (use next_step same_chans_inv same_chans_trans in blast)
  qed
qed

lemma apply_entry_data_chans: "seq_inv M \<Longrightarrow> same_chans M (fst (apply_entry_data X now e M))"
  by (auto simp: apply_entry_data_def Let_def apply_conf_entry_chans
      intro: same_chansI split: prod.split entry_type.split)

lemma handle_committed_entry_chans: "seq_inv M \<Longrightarrow> same_chans M (fst (handle_committed_entry X now e M))"
  unfolding handle_committed_entry_def
proof (rule bind_run_chans)
  fix M1 a
  assume m1: "same_chans M M1"
  let ?s = "st_commmit_index (me_env X) (mc_store M1) (e_index e)"
  let ?M2 = "M1\<lparr>mc_store := fst ?s\<rparr>"
  have m2: "same_chans M1 ?M2" by (rule same_chansI [OF same_chans_inv [OF m1]]) simp_all
  have m3: "same_chans ?M2 (answer_seq X (e_context e) ?M2)"
    by (rule answer_seq_chans [OF same_chans_inv [OF m2]])
  have m4: "same_chans (answer_seq X (e_context e) ?M2)
      (fst (count_and_snapshot X (answer_seq X (e_context e) ?M2)))"
    by (rule count_and_snapshot_chans [OF same_chans_inv [OF m3]])
  show "same_chans M (fst (let (s, r) = st_commmit_index (me_env X) (mc_store M1) (e_index e);
            M2 = M1\<lparr>mc_store := s\<rparr>
        in (case r of
              Ret _ \<Rightarrow> count_and_snapshot X (answer_seq X (e_context e) M2)
            | Panic p \<Rightarrow> (M2, Panic p))))"
    using m1 m2 m3 m4 same_chans_trans
    by (cases ?s; cases "snd ?s") (simp_all, (blast intro: same_chans_trans)+)
qed (rule apply_entry_data_chans)

lemma handle_committed_entries_chans:
  "seq_inv M \<Longrightarrow> same_chans M (fst (handle_committed_entries X now es M))"
proof (induction es arbitrary: M)
  case Nil
  then show ?case by (simp add: same_chans_refl)
next
  case (Cons e es)
  show ?case
    unfolding handle_committed_entries.simps
    by (rule bind_run_chans [OF handle_committed_entry_chans [OF Cons.prems]])
      (use Cons.IH same_chans_inv same_chans_trans in blast)
qed

lemma send_message_fields [simp]:
  "mc_seqnum (send_message X ms M) = mc_seqnum M"
  "mc_resp_channel (send_message X ms M) = mc_resp_channel M"
  "mc_answers (send_message X ms M) = mc_answers M"
  "mc_dropped (send_message X ms M) = mc_dropped M"
  "mc_store (send_message X ms M) = mc_store M"
  by (induction X ms M rule: send_message.induct)
    (simp_all add: send_peer_message_def split: option.split)

lemma send_message_chans: "seq_inv M \<Longrightarrow> same_chans M (send_message X ms M)"
  by (rule same_chansI) simp_all

lemma store_step_chans: "seq_inv M \<Longrightarrow> same_chans M (fst (store_step f M))"
  by (auto simp: store_step_def Let_def intro: same_chansI split: prod.split)

lemma when_store_chans: "seq_inv M \<Longrightarrow> same_chans M (fst (when_run b (store_step f) M))"
  by (simp add: when_run_def store_step_chans same_chans_refl)

lemma set_raw_chans: "seq_inv M \<Longrightarrow> same_chans M (set_raw M ns)"
  by (rule same_chansI) simp_all

lemma chain_step: "same_chans M M1 \<Longrightarrow> (seq_inv M1 \<Longrightarrow> same_chans M1 M2) \<Longrightarrow> same_chans M M2"
  by (meson same_chans_inv same_chans_trans)

lemma finish_ready_chans:
  fixes M :: "('n, 'db, 'c) machine"
  assumes "seq_inv M"
  shows "same_chans M (fst (finish_ready X now rd M))"
proof -
  let ?M6 = "send_message X (rd_persisted rd) M"
  obtain ns light where adv: "rn_advance (me_raw X) (mc_node ?M6) (mc_store ?M6)
      (rd\<lparr>rd_messages := [], rd_committed := [], rd_persisted := []\<rparr>) = (ns, light)"
    by (cases "rn_advance (me_raw X) (mc_node ?M6) (mc_store ?M6)
      (rd\<lparr>rd_messages := [], rd_committed := [], rd_persisted := []\<rparr>)")
  have m7: "same_chans M (set_raw ?M6 ns)"
    by (rule chain_step [OF send_message_chans [OF assms] set_raw_chans])
  have m8: "same_chans M (fst (case lr_commit light of
              Some commit \<Rightarrow> store_step (\<lambda>s. st_set_hard_state_comit (me_env X) s commit) (set_raw ?M6 ns)
            | None \<Rightarrow> (set_raw ?M6 ns, Ret ())))"
    using m7 chain_step [OF m7 store_step_chans] by (simp split: option.split)
  have rest: "same_chans M (fst (bind_run (handle_committed_entries X now (lr_committed light)
             (send_message X (lr_messages light) M8)) (\<lambda>M9 _.
           (set_raw M9 (rn_advance_apply (me_raw X) (mc_node M9) (mc_store M9)), Ret ()))))"
    if "same_chans M M8" for M8
  proof (rule bind_run_chans)
    show "same_chans M (fst (handle_committed_entries X now (lr_committed light)
        (send_message X (lr_messages light) M8)))"
      by (rule chain_step [OF chain_step [OF that send_message_chans] handle_committed_entries_chans])
    show "same_chans M (fst (set_raw M9 (rn_advance_apply (me_raw X) (mc_node M9) (mc_store M9)), Ret ()))"
      if "same_chans M M9" for M9 :: "('n, 'db, 'c) machine"
      unfolding fst_conv by (rule chain_step [OF that set_raw_chans])
  qed
  show ?thesis
    unfolding finish_ready_def Let_def adv prod.case
    by (rule bind_run_chans [OF m8 rest])
qed

lemma on_ready_chans:
  fixes M :: "('n, 'db, 'c) machine"
  assumes inv: "seq_inv M"
  shows "same_chans M (fst (on_ready X now M))"
proof (cases "rn_has_ready (me_raw X) (mc_node M)")
  case False
  then show ?thesis using inv by (simp add: on_ready_def same_chans_refl)
next
  case True
  obtain ns rd where rd: "rn_ready (me_raw X) (mc_node M) (mc_store M) = (ns, rd)"
    by (cases "rn_ready (me_raw X) (mc_node M) (mc_store M)")
  have hs: "same_chans M (fst (case rd_hs rd of
      Some hs \<Rightarrow> store_step (\<lambda>s. st_set_hard_state (me_env X) s hs) M4 | None \<Rightarrow> (M4, Ret ())))"
    if "same_chans M M4" for M4 :: "('n, 'db, 'c) machine"
    using that chain_step [OF that store_step_chans] by (simp split: option.split)
  show ?thesis
    unfolding on_ready_def begin_ready_def Let_def rd prod.case if_not_P [OF iffD2 [OF not_not True]]
    by (intro bind_run_chans chain_step [OF _ when_store_chans] chain_step [OF _ finish_ready_chans]
        chain_step [OF _ handle_committed_entries_chans] hs
        chain_step [OF chain_step [OF same_chans_refl [OF inv] set_raw_chans] send_message_chans])
qed

subsection \<open>Properties\<close>

fun channel_of :: "('m, 'cc, 'c) raft_message \<Rightarrow> 'c" where
  "channel_of (ConfChange _ c) = c"
| "channel_of (Raft _ c) = c"
| "channel_of (TransferLeader _ c) = c"
| "channel_of (Propose _ c) = c"

lemma propose_with_accounts:
  assumes inv: "seq_inv M" and lt: "mc_seqnum M < 2 ^ 64 - 1"
  shows "seq_inv (fst (propose_with X f c M)) \<and>
     accounted (fst (propose_with X f c M)) = add_mset c (accounted M) \<and>
     unat (mc_seqnum (fst (propose_with X f c M))) = unat (mc_seqnum M) + 1"
proof -
  let ?q = "mc_seqnum M"
  have up: "unat (?q + 1) = unat ?q + 1"
    using lt by (simp add: unat_plus_if' word_less_nat_alt)
  have grow: "q < ?q \<Longrightarrow> q < ?q + 1" for q using up by (simp add: word_less_nat_alt)
  have self: "?q < ?q + 1" using up by (simp add: word_less_nat_alt)
  have fresh: "?q \<notin> set (map fst (mc_resp_channel M))" using inv by (auto simp: seq_inv_def)
  have none: "map_of (mc_resp_channel M) ?q = None"
    using fresh by (simp add: map_of_eq_None_iff)
  have fresh': "?q \<notin> fst ` set (mc_resp_channel M)" using fresh by simp
  have lt': "\<forall>q \<in> set (mc_resp_channel M). fst q < ?q + 1"
    using inv grow by (auto simp: seq_inv_def)
  show ?thesis
    using inv fresh' lt' up self none update_fresh [OF fresh]
    by (cases "bc_serialize (me_seq X) ?q")
      (auto simp: propose_with_def Let_def drop_chan_def insert_chan_def seq_inv_def accounted_def
        split: prod.split sum.split)
qed

lemma handle_message_accounts:
  assumes "seq_inv M" and "mc_seqnum M < 2 ^ 64 - 1"
  shows "seq_inv (fst (handle_message X msg M)) \<and>
     accounted (fst (handle_message X msg M)) = add_mset (channel_of msg) (accounted M) \<and>
     unat (mc_seqnum (fst (handle_message X msg M))) \<le> unat (mc_seqnum M) + 1"
  using assms
proof (cases msg)
  case (Raft m c)
  then show ?thesis using assms
    by (auto simp: answer_def drop_chan_def seq_inv_def accounted_def split: prod.split sum.split)
next
  case (TransferLeader n c)
  then show ?thesis using assms by (auto simp: answer_def seq_inv_def accounted_def)
qed (simp_all add: propose_with_accounts [OF assms])

text \<open>
  In any turn of the loop, whatever raft-rs and the store do and even if the turn panics, a channel
  that arrives with a message joins the pending, answered and dropped channels, and no other does.
\<close>

lemma run_turn_accounts:
  fixes M :: "('n, 'db, 'c) machine"
  assumes "seq_inv M" and "mc_seqnum M < 2 ^ 64 - 1"
  shows "seq_inv (fst (run_turn X stop ev elapsed now M)) \<and>
     accounted (fst (run_turn X stop ev elapsed now M)) =
       (case ev of Received msg \<Rightarrow> if stop = Some True then accounted M
                                  else add_mset (channel_of msg) (accounted M)
        | _ \<Rightarrow> accounted M) \<and>
     unat (mc_seqnum (fst (run_turn X stop ev elapsed now M))) \<le> unat (mc_seqnum M) + 1"
proof -
  let ?m = "case ev of Received msg \<Rightarrow> handle_message X msg M | _ \<Rightarrow> (M, Ret ())"
  have rest: "same_chans M1 (fst (bind_run (on_ready X now (tick_and_role X elapsed M1)) (\<lambda>M4 _. (M4, Ret Continue))))"
    if "seq_inv M1" for M1 :: "('n, 'db, 'c) machine"
  proof -
    have "same_chans M1 (tick_and_role X elapsed M1)"
      by (rule same_chansI [OF that]) (simp_all add: tick_and_role_def Let_def)
    then have "same_chans M1 (fst (on_ready X now (tick_and_role X elapsed M1)))"
      by (rule chain_step) (rule on_ready_chans)
    then show ?thesis
      by (cases "on_ready X now (tick_and_role X elapsed M1)";
          cases "snd (on_ready X now (tick_and_role X elapsed M1))") simp_all
  qed
  have m: "seq_inv (fst ?m) \<and> accounted (fst ?m) =
      (case ev of Received msg \<Rightarrow> add_mset (channel_of msg) (accounted M) | _ \<Rightarrow> accounted M) \<and>
      unat (mc_seqnum (fst ?m)) \<le> unat (mc_seqnum M) + 1"
    using assms(1) handle_message_accounts [OF assms] by (cases ev) simp_all
  have "same_chans (fst ?m) (fst (bind_run ?m (\<lambda>M1 _.
        bind_run (on_ready X now (tick_and_role X elapsed M1)) (\<lambda>M4 _. (M4, Ret Continue)))))"
    using rest [of "fst ?m"] m same_chans_refl [of "fst ?m"]
    by (cases ?m; cases "snd ?m") simp_all
  then show ?thesis
    using m assms(1) by (cases ev) (auto simp: run_turn_def same_chans_def)
qed

lemma channels_accounted:
  fixes M :: "('n, 'db, 'c) machine"
  assumes "seq_inv M" and "mc_seqnum M < 2 ^ 64 - 1"
  shows "seq_inv (fst (run_turn X stop ev elapsed now M)) \<and>
     accounted (fst (run_turn X stop ev elapsed now M)) =
       (case ev of Received msg \<Rightarrow> if stop = Some True then accounted M
                                  else add_mset (channel_of msg) (accounted M)
        | _ \<Rightarrow> accounted M)"
  using run_turn_accounts [OF assms, of X stop ev elapsed now] by blast

text \<open>The channels that arrive in a stretch of turns, the one with a stop signal aside.\<close>

fun turn_channels :: "bool option \<times> ('m, 'c) queue_event \<times> bool \<times> u64 \<Rightarrow> 'c list" where
  "turn_channels (stop, Received msg, _) = (if stop = Some True then [] else [channel_of msg])"
| "turn_channels _ = []"


definition ref_raw :: "(unit, unit, mem_db) raw_node" where
  "ref_raw =
     \<lparr>rn_propose = (\<lambda>n s ctx d. ((n, s), if d = [] then Inl io_error else Inr ())),
      rn_propose_conf_change = (\<lambda>n s ctx c. ((n, s), Inr ())),
      rn_step = (\<lambda>n s m. ((n, s), Inr ())),
      rn_transfer_leader = (\<lambda>n s i. (n, s)),
      rn_tick = (\<lambda>n s. (n, s)),
      rn_role = (\<lambda>n. Leader),
      rn_has_ready = (\<lambda>n. False),
      rn_ready = (\<lambda>n s. ((n, s), \<lparr>rd_messages = [], rd_snapshot = snapshot_default, rd_entries = [],
         rd_committed = [], rd_hs = None, rd_persisted = []\<rparr>)),
      rn_advance = (\<lambda>n s rd. ((n, s), \<lparr>lr_commit = None, lr_messages = [], lr_committed = []\<rparr>)),
      rn_advance_apply = (\<lambda>n s. (n, s)),
      rn_apply_conf_change = (\<lambda>n c. (n, Inr conf_state_default)),
      rn_msg_to = (\<lambda>m. 0),
      rn_msg_encode = (\<lambda>m. [])\<rparr>"

definition fmt_broker_node :: "broker_node fmt" where
  "fmt_broker_node = fmt_map (\<lambda>n. (bn_cluster_name n, bn_node_inner_addr n))
     (\<lambda>(c, a). broker_node_default\<lparr>bn_cluster_name := c, bn_node_inner_addr := a\<rparr>)
     (fmt_pair fmt_string fmt_string)"

definition ref_machine_env :: "(unit, unit, mem_db) machine_env" where
  "ref_machine_env =
     \<lparr>me_raw = ref_raw, me_env = ref_env, me_route = ref_codecs, me_seq = ref_bincode fmt_u64,
      me_node = ref_bincode fmt_broker_node,
      me_conf_change = ref_prost (fmt_map (\<lambda>c. (cc_node_id c, cc_context c))
        (\<lambda>(i, x). \<lparr>cc_type = RemoveNode, cc_node_id = i, cc_context = x\<rparr>) (fmt_pair fmt_u64 fmt_bytes))\<rparr>"

definition ref_metadata0 :: raft_group_metadata where
  "ref_metadata0 = \<lparr>gm_local = local_node ref_config, gm_leader = None, gm_state = Starting,
     gm_raft_role = Follower, gm_peers = [(1, local_node ref_config)]\<rparr>"

definition ref_machine :: "mem_db raft_store \<Rightarrow> (unit, mem_db, nat) machine" where
  "ref_machine s = machine_new ref_metadata0 () s"

lemma ref_machine_inv: "seq_inv (ref_machine s)" "mc_seqnum (ref_machine s) < 2 ^ 64 - 1"
  "accounted (ref_machine s) = {#}"
  by (simp_all add: ref_machine_def machine_new_def seq_inv_def accounted_def)

lemma channels_accounted_turn:
  "accounted (fst (run_turn ref_machine_env None (Received (Propose [] 7)) True 0 (ref_machine ref_store))) = {#7#}"
  using channels_accounted [OF ref_machine_inv(1,2), of ref_machine_env None "Received (Propose [] 7)" True 0 ref_store]
  by (simp add: ref_machine_inv)

definition ref_turns :: "(bool option \<times> (unit, nat) queue_event \<times> bool \<times> u64) list" where
  "ref_turns = [(None, Received (Propose [] 7), True, 0), (None, Idle, False, 1), (Some True, Received (Propose [1] 8), True, 2)]"


text \<open>
  C20: The raft-rs path cannot apply a client's write.  As soon as an entry that holds a proposal of
  \<open>apply_propose_message\<close> is committed, the machine panics on it: nothing is written, the entry
  is not marked committed, no channel is answered and the entries after it are not reached.
\<close>

theorem committed_proposal_panics:
  assumes "wire_formats (me_route X)"
    and "apply_propose_message (me_route X) d action sx rx =
      Ret (Propose data sx :: ('m, 'cc, 'e) raft_message, r)"
    and "e_type e = EntryNormal" and "e_data e = data"
  shows "handle_committed_entries X now (e # es) M = (M, Panic UnwrapErr)"
proof -
  have law: "bincode_laws (bc_storage_data (me_route X))" using assms(1) by (simp add: wire_formats_def)
  obtain rest where "data = variant_index (sd_data_type d) # rest"
    using assms(1,2) bincode_serialize_eq [OF law, of d] unfolding wire_formats_def
    by (auto simp: apply_propose_message_def apply_raft_status_machine_message_def) blast
  then have "data \<noteq> []" by simp
  moreover have "route (me_env X) (me_route X) now (rs_db (mc_store M)) data =
      (rs_db (mc_store M), Panic UnwrapErr)"
    by (rule route_panics [OF assms(1,2)])
  ultimately have "apply_entry_data X now e M = (M, Panic UnwrapErr)"
    using assms(3,4) by (simp add: apply_entry_data_def)
  then show ?thesis by (simp add: handle_committed_entry_def)
qed

lemma committed_proposal_panics_witness:
  "handle_committed_entries ref_machine_env 0
     [\<lparr>e_type = EntryNormal, e_term = 1, e_index = 1,
       e_data = bc_bytes (bc_storage_data ref_codecs) ref_proposal, e_context = [], e_sync_log = False\<rparr>]
     (ref_machine ref_store) = (ref_machine ref_store, Panic UnwrapErr)"
proof (rule committed_proposal_panics)
  show "wire_formats (me_route ref_machine_env)" by (simp add: ref_machine_env_def ref_wire_formats)
  have "bincode_laws (bc_storage_data ref_codecs)" using ref_wire_formats by (simp add: wire_formats_def)
  then show "apply_propose_message (me_route ref_machine_env) ref_proposal ''set'' () (Replied Success) =
      Ret (Propose (bc_bytes (bc_storage_data ref_codecs) ref_proposal) () :: (unit, unit, unit) raft_message, Inr ())"
    by (simp add: ref_machine_env_def apply_propose_message_def bincode_serialize_eq
        apply_raft_status_machine_message_def wait_recv_chan_resp_def recv_value_def)
qed simp_all

lemma st_commit_obtain:
  assumes "env_up E" and "raft_inv E s" and "read_hard_state E s = Ret hs"
    and "hs_commit hs < i" and "i \<le> last_index E s"
  obtains s' where "st_commmit_index E s i = (s', Ret (Inr ()))" "raft_inv E s'"
    "\<exists>h. read_hard_state E s' = Ret h \<and> hs_commit h = i" "last_index E s' = last_index E s"
proof -
  note env = storage_env.intro [OF assms(1)]
  have pos: "0 < i" using assms(4) by (cases "i = 0") (auto simp: word_less_nat_alt unat_gt_0)
  have full: "log_full e_index (log_at E s) 1 (last_index E s)" and d: "distinct_uncommit s"
    using assms(2) by (simp_all add: raft_inv_def raft_ok_def)
  obtain e where e: "log_at E s i = Some e" using log_full_at [OF full pos assms(5)] by blast
  from storage_env.commit_effect_up [OF env e assms(3) d] obtain s' where
    s': "commmit_index E s i = (s', Ret (Inr ()))"
      "read_hard_state E s' = Ret (hs\<lparr>hs_commit := i, hs_term := e_term e\<rparr>)"
      "rs_snapshot_metadata s' = rs_snapshot_metadata s"
      "\<forall>k. k \<noteq> key_name_by_hard_state \<longrightarrow> k \<noteq> key_name_uncommit \<longrightarrow> rcell E s' k = rcell E s k"
    by blast
  have "raft_inv E s'" using storage_env.commit_inv(2) [OF env assms(2-5)] by (simp add: s'(1))
  moreover have "last_index E s' = last_index E s"
    by (simp add: storage_env.last_index_cell [OF env] s'(3,4) cong: option.case_cong)
  ultimately show ?thesis using that s'(1,2) by (simp add: st_commmit_index_def)
qed

lemma st_create_snapshot_obtain:
  assumes "env_up E" and "raft_inv E s"
  obtains s' where "st_create_snapshot E s = (s', Ret (Inr ()))" "raft_inv E s'"
    "read_hard_state E s' = read_hard_state E s" "last_index E s' = last_index E s"
proof -
  note env = storage_env.intro [OF assms(1)]
  obtain hs cs where r: "read_hard_state E s = Ret hs" "read_conf_state E s = Ret cs"
    using assms(2) by (auto simp: raft_inv_def raft_ok_def)
  obtain s' d where s': "create_snapshot E s = (s', Ret ())"
    "d \<noteq> []" "bc_deserialize (bc_dump E) d = Inr (read_all (rocks E) (rs_db s))"
    "\<forall>k. rcell E s' k =
       (if k = key_name_snapshot then Some (vec_cell E (pb_encode (pb_snapshot E)
            \<lparr>snap_data = d, snap_metadata =
               \<lparr>sm_conf_state = cs, sm_index = hs_commit hs, sm_term = hs_term hs\<rparr>\<rparr>))
        else if k = key_name_by_first_index then Some (u64_cell E (hs_commit hs))
        else rcell E s k)"
    "rs_uncommit_index s' = rs_uncommit_index s"
    "rs_snapshot_metadata s' = \<lparr>sm_conf_state = cs, sm_index = hs_commit hs, sm_term = hs_term hs\<rparr>"
    "rs_trigger_snap_unavailable s' = rs_trigger_snap_unavailable s"
    by (rule storage_env.create_snapshot_obtain [OF env r])
  have "read_hard_state E s' = read_hard_state E s"
    by (simp add: storage_env.read_hard_state_cell [OF env] s'(4))
  moreover have "last_index E s' = last_index E s"
  proof (cases "u64_at E (rcell E s key_name_by_last_index)")
    case None
    then have "hs_commit hs = 0" "sm_index (rs_snapshot_metadata s) \<le> hs_commit hs"
      using assms(2) r(1) by (auto simp: raft_inv_def)
    with None show ?thesis by (simp add: storage_env.last_index_cell [OF env] s'(4,6))
  qed (simp add: storage_env.last_index_cell [OF env] s'(4))
  moreover have "raft_inv E s'"
    using storage_env.create_snapshot_inv(2) [OF env assms(2)] by (simp add: s'(1))
  ultimately show ?thesis using that by (simp add: st_create_snapshot_def s'(1))
qed

lemma noop_entry_commits:
  assumes "env_up (me_env X)" and "raft_inv (me_env X) (mc_store M)"
    and "read_hard_state (me_env X) (mc_store M) = Ret hs"
    and "hs_commit hs < e_index e" and "e_index e \<le> last_index (me_env X) (mc_store M)"
    and "e_data e = []"
  shows "\<exists>M' h. handle_committed_entry X now e M = (M', Ret ()) \<and>
     raft_inv (me_env X) (mc_store M') \<and>
     read_hard_state (me_env X) (mc_store M') = Ret h \<and> hs_commit h = e_index e \<and>
     last_index (me_env X) (mc_store M') = last_index (me_env X) (mc_store M)"
proof -
  obtain s' where s': "st_commmit_index (me_env X) (mc_store M) (e_index e) = (s', Ret (Inr ()))"
    "raft_inv (me_env X) s'"
    "\<exists>h. read_hard_state (me_env X) s' = Ret h \<and> hs_commit h = e_index e"
    "last_index (me_env X) s' = last_index (me_env X) (mc_store M)"
    by (rule st_commit_obtain [OF assms(1-5)])
  let ?M2 = "answer_seq X (e_context e) (M\<lparr>mc_store := s'\<rparr>)"
  have st: "mc_store ?M2 = s'"
    by (simp add: answer_seq_def answer_def split: sum.split option.split)
  have h: "handle_committed_entry X now e M = count_and_snapshot X ?M2"
    by (simp add: handle_committed_entry_def apply_entry_data_def assms(6) s'(1))
  obtain s2 where s2: "st_create_snapshot (me_env X) s' = (s2, Ret (Inr ()))"
    "raft_inv (me_env X) s2" "read_hard_state (me_env X) s2 = read_hard_state (me_env X) s'"
    "last_index (me_env X) s2 = last_index (me_env X) s'"
    by (rule st_create_snapshot_obtain [OF assms(1) s'(2)])
  show ?thesis
  proof (cases "mc_entry_num ?M2 mod 1000 = 0")
    case True
    then show ?thesis
      unfolding h using s' s2 by (simp add: count_and_snapshot_def Let_def st)
  next
    case False
    then show ?thesis
      unfolding h using s' by (simp add: count_and_snapshot_def Let_def st)
  qed
qed

text \<open>
  Entries without data, the ones a new leader appends, are committed in order: on an intact store
  and a batch of them with rising indexes inside the log, the machine reaches the end of the
  batch without panicking, also when a thousandth entry triggers a snapshot on the way, the store
  stays intact and the commit position is the last entry's index.
\<close>

lemma noop_entries_commit:
  assumes "env_up (me_env X)" and "raft_inv (me_env X) (mc_store M)"
    and "read_hard_state (me_env X) (mc_store M) = Ret hs"
    and "es \<noteq> []" and "\<forall>e \<in> set es. e_data e = []"
    and "sorted_wrt (<) (hs_commit hs # map e_index es)"
    and "e_index (last es) \<le> last_index (me_env X) (mc_store M)"
  shows "\<exists>M' h. handle_committed_entries X now es M = (M', Ret ()) \<and>
     raft_inv (me_env X) (mc_store M') \<and>
     read_hard_state (me_env X) (mc_store M') = Ret h \<and> hs_commit h = e_index (last es)"
  using assms(2-)
proof (induction es arbitrary: M hs)
  case Nil
  then show ?case by simp
next
  case (Cons e es)
  have le: "e_index e \<le> e_index (last (e # es))"
    using Cons.prems(5) by (cases es rule: rev_cases) auto
  have e: "hs_commit hs < e_index e" "e_index e \<le> last_index (me_env X) (mc_store M)" "e_data e = []"
    using Cons.prems(4,5,6) le by auto
  from noop_entry_commits [OF assms(1) Cons.prems(1,2) e] obtain M1 h where
    M1: "handle_committed_entry X now e M = (M1, Ret ())" "raft_inv (me_env X) (mc_store M1)"
      "read_hard_state (me_env X) (mc_store M1) = Ret h" "hs_commit h = e_index e"
      "last_index (me_env X) (mc_store M1) = last_index (me_env X) (mc_store M)" by blast
  show ?case
  proof (cases "es = []")
    case True
    then show ?thesis using M1 by simp
  next
    case False
    from Cons.IH [OF M1(2,3) False] Cons.prems M1 False show ?thesis by simp
  qed
qed

lemma noop_entries_commit_witness:
  "\<exists>M' h. handle_committed_entries ref_machine_env 0
     [(ref_entry 3 1)\<lparr>e_data := []\<rparr>, (ref_entry 3 2)\<lparr>e_data := []\<rparr>] (ref_machine ref_logged) = (M', Ret ()) \<and>
     read_hard_state ref_env (mc_store M') = Ret h \<and> hs_commit h = 2"
proof -
  have "node_reachable ref_env ref_logged"
    by (meson ref_store_reachable ref_logged_step reach_step node_raft)
  then have inv: "raft_inv ref_env ref_logged" by (rule ref.node_reachable_inv)
  have env: "me_env ref_machine_env = ref_env" by (simp add: ref_machine_env_def)
  have st: "mc_store (ref_machine s) = s" for s by (simp add: ref_machine_def machine_new_def)
  have "\<exists>M' h. handle_committed_entries ref_machine_env 0
     [(ref_entry 3 1)\<lparr>e_data := []\<rparr>, (ref_entry 3 2)\<lparr>e_data := []\<rparr>] (ref_machine ref_logged) = (M', Ret ()) \<and>
     raft_inv (me_env ref_machine_env) (mc_store M') \<and>
     read_hard_state (me_env ref_machine_env) (mc_store M') = Ret h \<and>
     hs_commit h = e_index (last [(ref_entry 3 1)\<lparr>e_data := []\<rparr>, (ref_entry 3 2)\<lparr>e_data := []\<rparr>])"
    by (rule noop_entries_commit [where hs = hard_state_default])
      (simp_all add: env st inv ref_env_up hard_state_default_def ref_entry_def ref_logged_facts [unfolded hard_state_default_def])
  moreover have "e_index (last [(ref_entry 3 1)\<lparr>e_data := []\<rparr>, (ref_entry 3 2)\<lparr>e_data := []\<rparr>]) = 2"
    by simp
  ultimately show ?thesis unfolding env by auto
qed

text \<open>
  C40: A node starts from its persisted commit position and keeps the rest of its configuration, but
  its voters are replaced, on disk too, by the peers of the configuration file: a membership
  change that was committed and saved does not survive a restart.
\<close>

theorem new_node_resets_voters:
  assumes "env_up E" and "raft_ok E s"
    and "read_hard_state E s = Ret hs" and "read_conf_state E s = Ret cs"
    and "raw_new \<lparr>rc_id = pc_node_id conf, rc_election_tick = 10, rc_heartbeat_tick = 3,
        rc_max_size_per_msg = 1024 * 1024 * 1024, rc_max_inflight_msgs = 256,
        rc_applied = hs_commit hs\<rparr> (fst (save_conf_state E s (cs\<lparr>cs_voters := node_ids cluster\<rparr>))) log = Inr n"
  shows "\<exists>s'. new_node E raw_new (Ret log) (Some conf) cluster s = (s', Ret n) \<and>
     read_conf_state E s' = Ret (cs\<lparr>cs_voters := node_ids cluster\<rparr>) \<and>
     read_hard_state E s' = Ret hs \<and> log_at E s' = log_at E s"
proof -
  note env = storage_env.intro [OF assms(1)]
  let ?s1 = "fst (save_conf_state E s (cs\<lparr>cs_voters := node_ids cluster\<rparr>))"
  have "new_node E raw_new (Ret log) (Some conf) cluster s = (?s1, Ret n)"
    using assms(3-5) by (simp add: new_node_def build_config_def placement_center_conf_def)
  moreover have "read_conf_state E ?s1 = Ret (cs\<lparr>cs_voters := node_ids cluster\<rparr>)"
    by (simp add: storage_env.read_conf_state_cell [OF env] storage_env.save_conf_state_effect [OF env]
        storage_env.vec_at_simps [OF env] storage_env.env_prost [OF env])
  moreover have "read_hard_state E ?s1 = Ret hs"
    using assms(3) by (simp add: storage_env.read_hard_state_cell [OF env] storage_env.save_conf_state_effect [OF env])
  moreover have "log_at E ?s1 = log_at E s"
    by (rule storage_env.log_at_cong [OF env]) (simp add: storage_env.save_conf_state_effect [OF env])
  ultimately show ?thesis by blast
qed

lemma new_node_resets_voters_witness:
  "\<exists>s'. new_node ref_env (\<lambda>c s log. Inr ()) (build_slog (\<lambda>p. Inr p) (\<lambda>f n t. f) (Some ref_config)) (Some ref_config) ref_metadata0 ref_logged = (s', Ret ()) \<and>
     read_conf_state ref_env s' = Ret (conf_state_default\<lparr>cs_voters := [1]\<rparr>)"
  using new_node_resets_voters [OF ref_env_up, of ref_logged hard_state_default conf_state_default
      "\<lambda>c s log. Inr ()" ref_config ref_metadata0 "log_path (pc_log ref_config) @ ''/raft.log''" "()"]
  by (auto simp: ref_metadata0_def node_ids_def build_slog_def placement_center_conf_def)

end
