(* ===== verification/Raft_Machine_Inv.thy ===== *)
theory Raft_Machine_Inv
  imports Raft_Machine_Props
begin

section \<open>The state machine loop keeps its store intact\<close>

text \<open>
  \<^verbatim>\<open>Raft_Reach\<close> says which store every run of single operations leaves.  Here the operations are
  the ones the loop of \<open>machine.rs\<close> performs, in its order, on what a \<open>RawNode\<close> hands it; the
  node keeps what raft-rs documents of a \<open>Ready\<close>: entries to append follow the commit position
  without a gap, committed entries come in order, each once, and the commit position is inside the
  log.  A position \<open>a\<close> counts the entries handed over so far.
\<close>

subsection \<open>Store and position\<close>

definition store_ok :: "'db env \<Rightarrow> u64 \<Rightarrow> 'db raft_store \<Rightarrow> bool" where
  "store_ok E a s \<longleftrightarrow>
     raft_inv E s \<and> sm_index (rs_snapshot_metadata s) \<le> a \<and>
     unat (first_index E s) \<le> unat a + 1 \<and> a \<le> last_index E s"

definition commit_of :: "'db env \<Rightarrow> 'db raft_store \<Rightarrow> u64" where
  "commit_of E s = (case read_hard_state E s of Ret hs \<Rightarrow> hs_commit hs | Panic _ \<Rightarrow> 0)"

text \<open>
  What the node may do to the store by itself: nothing but call \<open>Storage::snapshot\<close>, and that only
  while everything committed has been handed over.
\<close>

inductive trait_calls :: "'db env \<Rightarrow> u64 \<Rightarrow> 'db raft_store \<Rightarrow> 'db raft_store \<Rightarrow> bool" for E a where
  no_calls: "trait_calls E a s s"
| snapshot_call: "trait_calls E a s s1 \<Longrightarrow> commit_of E s1 \<le> a \<Longrightarrow>
     trait_calls E a s (fst (st_snapshot E s1 request_index to))"

context storage_env
begin

lemma commit_of_eq: "read_hard_state E s = Ret h \<Longrightarrow> commit_of E s = hs_commit h"
  by (simp add: commit_of_def)

lemma store_okD: "store_ok E a s \<Longrightarrow> \<exists>h. read_hard_state E s = Ret h \<and> hs_commit h = commit_of E s \<and>
    commit_of E s \<le> last_index E s"
  by (auto simp: store_ok_def raft_inv_def commit_of_def)

lemma create_snapshot_ok:
  assumes "store_ok E a s" and "commit_of E s \<le> a"
  shows "\<exists>s'. create_snapshot E s = (s', Ret ()) \<and> store_ok E a s' \<and> commit_of E s' = commit_of E s \<and>
    last_index E s' = last_index E s"
proof -
  have inv: "raft_inv E s" using assms(1) by (simp add: store_ok_def)
  then obtain hs cs where r: "read_hard_state E s = Ret hs" "read_conf_state E s = Ret cs"
    by (auto simp: raft_inv_def raft_ok_def)
  obtain s' d where s': "create_snapshot E s = (s', Ret ())"
    "d \<noteq> []" "bc_deserialize (bc_dump E) d = Inr (read_all (rocks E) (rs_db s))"
    "\<forall>k. rcell E s' k =
       (if k = key_name_snapshot then Some (vec_cell E (pb_encode (pb_snapshot E)
            \<lparr>snap_data = d, snap_metadata =
               \<lparr>sm_conf_state = cs, sm_index = hs_commit hs, sm_term = hs_term hs\<rparr>\<rparr>))
        else if k = key_name_by_first_index then Some (u64_cell E (hs_commit hs))
        else rcell E s k)"
    "rs_uncommit_index s' = rs_uncommit_index s"
    "rs_snapshot_metadata s' = \<lparr>sm_conf_state = cs, sm_index = hs_commit hs, sm_term = hs_term hs\<rparr>"
    "rs_trigger_snap_unavailable s' = rs_trigger_snap_unavailable s"
    by (rule create_snapshot_obtain [OF r])
  obtain s2 where s2: "st_create_snapshot E s = (s2, Ret (Inr ()))" "raft_inv E s2"
    "read_hard_state E s2 = read_hard_state E s" "last_index E s2 = last_index E s"
    by (rule st_create_snapshot_obtain [OF env inv])
  have eq: "s2 = s'" using s2(1) s'(1) by (simp add: st_create_snapshot_def)
  have "first_index E s' = hs_commit hs" by (simp add: first_index_cell s'(4))
  moreover have "commit_of E s = hs_commit hs" "commit_of E s' = hs_commit hs"
    using r s2(3) eq by (simp_all add: commit_of_def)
  ultimately show ?thesis
    using assms s'(1,6) s2 eq by (auto simp: store_ok_def word_le_nat_alt)
qed

lemma st_snapshot_ok:
  assumes "store_ok E a s" and "commit_of E s \<le> a"
  shows "store_ok E a (fst (st_snapshot E s req to)) \<and>
    commit_of E (fst (st_snapshot E s req to)) = commit_of E s \<and>
    last_index E (fst (st_snapshot E s req to)) = last_index E s"
proof -
  obtain s' where s': "create_snapshot E s = (s', Ret ())" "store_ok E a s'" "commit_of E s' = commit_of E s"
    "last_index E s' = last_index E s"
    using create_snapshot_ok [OF assms] by blast
  have "fst (make_snapshot E s) = s'"
    by (simp add: make_snapshot_def s'(1) split: sum.split option.split)
  moreover have "fst (st_snapshot E s req to) = (if rs_trigger_snap_unavailable s then s else fst (make_snapshot E s))"
    by (cases "make_snapshot E s"; cases "snd (make_snapshot E s)") (simp_all add: st_snapshot_def)
  ultimately show ?thesis using s' assms by simp
qed

lemma trait_calls_ok:
  "trait_calls E a s s' \<Longrightarrow> store_ok E a s \<Longrightarrow>
     store_ok E a s' \<and> commit_of E s' = commit_of E s \<and> last_index E s' = last_index E s"
proof (induction rule: trait_calls.induct)
  case (snapshot_call s s1 req to)
  then show ?case using st_snapshot_ok [of a s1 req to] by simp
qed simp

subsection \<open>The operations of the loop\<close>

lemma commit_next_ok:
  assumes "store_ok E a s" and "a < last_index E s"
  shows "\<exists>s'. st_commmit_index E s (a + 1) = (s', Ret (Inr ())) \<and> store_ok E (a + 1) s' \<and>
    commit_of E s' = a + 1 \<and> last_index E s' = last_index E s"
proof -
  have inv: "raft_inv E s" "sm_index (rs_snapshot_metadata s) \<le> a" "unat (first_index E s) \<le> unat a + 1"
    using assms(1) by (simp_all add: store_ok_def)
  have "unat a < unat (last_index E s)" using assms(2) by (simp add: word_less_nat_alt)
  moreover have "unat (last_index E s) < 2 ^ 64 - 1" using inv(1) by (simp add: raft_inv_def)
  ultimately have a1: "unat (a + 1) = unat a + 1" by (simp add: unat_plus_if')
  have pos: "0 < a + 1" "a + 1 \<le> last_index E s" "sm_index (rs_snapshot_metadata s) \<le> a + 1"
    "unat (first_index E s) \<le> unat (a + 1) + 1"
    using assms(2) inv by (simp_all add: word_less_nat_alt word_le_nat_alt a1)
  from commit_any_inv [OF inv(1) pos] obtain s' h where s': "commmit_index E s (a + 1) = (s', Ret (Inr ()))"
    "raft_inv E s'" "read_hard_state E s' = Ret h" "hs_commit h = a + 1" "last_index E s' = last_index E s"
    "first_index E s' = first_index E s" "rs_snapshot_metadata s' = rs_snapshot_metadata s" by blast
  then have "st_commmit_index E s (a + 1) = (s', Ret (Inr ()))" by (simp add: st_commmit_index_def)
  moreover have "store_ok E (a + 1) s'" using s' pos by (simp add: store_ok_def)
  ultimately show ?thesis using s'(3-5) by (simp add: commit_of_def)
qed

lemma conf_state_ok:
  assumes "store_ok E a s"
  shows "store_ok E a (fst (save_conf_state E s cs)) \<and> commit_of E (fst (save_conf_state E s cs)) = commit_of E s \<and>
    last_index E (fst (save_conf_state E s cs)) = last_index E s"
  using assms save_conf_state_inv [of s cs]
  by (simp add: store_ok_def commit_of_def read_hard_state_cell last_index_cell first_index_cell cong: option.case_cong)

lemma hard_state_ok:
  assumes "store_ok E a s" and "commit_of E s \<le> hs_commit hs" and "hs_commit hs \<le> last_index E s"
  shows "store_ok E a (fst (save_hard_state E s hs)) \<and> commit_of E (fst (save_hard_state E s hs)) = hs_commit hs \<and>
    last_index E (fst (save_hard_state E s hs)) = last_index E s"
proof -
  obtain h where "read_hard_state E s = Ret h" "hs_commit h = commit_of E s" using store_okD [OF assms(1)] by blast
  then have "raft_inv E (fst (save_hard_state E s hs))"
    using save_hard_state_inv assms by (simp add: store_ok_def)
  moreover have "commit_of E (fst (save_hard_state E s hs)) = hs_commit hs"
    by (simp add: commit_of_def read_hard_state_cell)
  moreover have "last_index E (fst (save_hard_state E s hs)) = last_index E s"
    "first_index E (fst (save_hard_state E s hs)) = first_index E s"
    by (simp_all add: last_index_cell first_index_cell cong: option.case_cong)
  ultimately show ?thesis using assms(1) by (simp add: store_ok_def)
qed

lemma append_batch_ok:
  assumes "store_ok E a s" and "append_allowed E s es" and "es \<noteq> []" and "batch e_index k es"
    and "commit_of E s < k" and "a < k"
  shows "\<exists>s'. append E s es = (s', Ret (Inr ())) \<and> store_ok E a s' \<and> commit_of E s' = commit_of E s \<and>
    last_index E s' = e_index (last es)"
proof -
  obtain h where h: "read_hard_state E s = Ret h" "hs_commit h = commit_of E s" using store_okD [OF assms(1)] by blast
  have inv: "raft_inv E s" using assms(1) by (simp add: store_ok_def)
  then have ok: "raft_ok E s" by (simp add: raft_inv_def)
  obtain s' where s': "append E s es = (s', Ret (Inr ()))"
    "last_index E s' = e_index (last es)" "first_index E s' = first_index E s"
    "rs_snapshot_metadata s' = rs_snapshot_metadata s" "read_hard_state E s' = read_hard_state E s"
    by (rule append_obtain [OF ok assms(2,3)])
  have "raft_inv E s'" using append_inv [OF inv assms(2-4) h(1)] h(2) assms(5) s'(1) by simp
  moreover have "a \<le> e_index (last es)"
    using batch_last [OF assms(4,3)] assms(3,6) by (cases es) (simp_all add: word_le_nat_alt word_less_nat_alt)
  ultimately show ?thesis using assms(1) s' by (simp add: store_ok_def commit_of_def)
qed

end

subsection \<open>Committed entries\<close>

text \<open>
  A normal entry holds what \<open>apply_propose_message\<close> proposed.  The entries the machine panics on:
  proposals (whose decoding fails in \<^verbatim>\<open>Raft_Apply\<close>), and configuration changes that do not
  decode or add a learner.
\<close>

definition proposed_entry :: "('n, 'm, 'db) machine_env \<Rightarrow> entry \<Rightarrow> bool" where
  "proposed_entry X e \<longleftrightarrow>
     e_type e = EntryNormal \<longrightarrow> e_data e = [] \<or> (\<exists>d. e_data e = bc_bytes (bc_storage_data (me_route X)) d)"

definition unsafe_entry :: "('n, 'm, 'db) machine_env \<Rightarrow> entry \<Rightarrow> bool" where
  "unsafe_entry X e \<longleftrightarrow> e_data e \<noteq> [] \<and>
     (case e_type e of
        EntryNormal \<Rightarrow> True
      | EntryConfChange \<Rightarrow>
          (case pb_decode (me_conf_change X) (e_data e) of
             Inl _ \<Rightarrow> True | Inr change \<Rightarrow> cc_type change = AddLearnerNode)
      | EntryConfChangeV2 \<Rightarrow> False)"

locale raft_machine =
  fixes X :: "('n, 'm, 'db) machine_env"
  assumes running: "env_up (me_env X)"
    and formats: "wire_formats (me_route X)"

sublocale raft_machine \<subseteq> storage_env "me_env X"
  by unfold_locales (rule running)

context raft_machine
begin

text \<open>The store \<open>s'\<close> is as good as \<open>s\<close> and holds the same log and commit position.\<close>

definition same_log :: "u64 \<Rightarrow> 'db raft_store \<Rightarrow> 'db raft_store \<Rightarrow> bool" where
  "same_log a s s' \<longleftrightarrow> store_ok (me_env X) a s' \<and> commit_of (me_env X) s' = commit_of (me_env X) s \<and>
     last_index (me_env X) s' = last_index (me_env X) s"

lemma same_log_refl: "store_ok (me_env X) a s \<Longrightarrow> same_log a s s"
  by (simp add: same_log_def)

lemma proposal_route_panics:
  assumes "proposed_entry X e" and "e_type e = EntryNormal" and "e_data e \<noteq> []"
  shows "route (me_env X) (me_route X) now db (e_data e) = (db, Panic UnwrapErr)"
proof -
  have law: "bincode_laws (bc_storage_data (me_route X))" using formats by (simp add: wire_formats_def)
  obtain d where d: "e_data e = bc_bytes (bc_storage_data (me_route X)) d"
    using assms by (auto simp: proposed_entry_def)
  have "apply_propose_message (me_route X) d [] () (Replied Success) =
      Ret (Propose (e_data e) () :: (unit, unit, unit) raft_message,
        snd (apply_raft_status_machine_message (Propose (e_data e) () :: (unit, unit, unit) raft_message)
          [] (Replied Success)))"
    using bincode_serialize_eq [OF law, of d] by (simp add: apply_propose_message_def d apply_raft_status_machine_message_def)
  from route_panics [OF formats this] show ?thesis .
qed

lemma apply_conf_entry_store:
  assumes "store_ok (me_env X) a (mc_store M)" and "apply_conf_entry X e M = (M', r)"
  shows "same_log a (mc_store M) (mc_store M') \<and>
    (r = Ret () \<or> (case pb_decode (me_conf_change X) (e_data e) of
        Inl _ \<Rightarrow> True | Inr change \<Rightarrow> cc_type change = AddLearnerNode))"
proof -
  have conf: "same_log a (mc_store M) (fst (save_conf_state (me_env X) (mc_store M) cs))" for cs
    using conf_state_ok [OF assms(1), of cs] by (simp add: same_log_def)
  show ?thesis
    using assms(2) conf same_log_refl [OF assms(1)]
    by (auto simp: apply_conf_entry_def st_set_conf_state_def
        split: sum.splits conf_change_type.splits prod.splits)
qed

lemma apply_entry_data_store:
  assumes "store_ok (me_env X) a (mc_store M)" and "proposed_entry X e" and "apply_entry_data X now e M = (M', r)"
  shows "same_log a (mc_store M) (mc_store M') \<and> (r = Ret () \<or> unsafe_entry X e)"
proof (cases "e_data e = []")
  case True
  then show ?thesis using assms(3) same_log_refl [OF assms(1)] by (simp add: apply_entry_data_def)
next
  case False
  show ?thesis
  proof (cases "e_type e")
    case EntryNormal
    then show ?thesis
      using assms(3) False same_log_refl [OF assms(1)] proposal_route_panics [OF assms(2) EntryNormal False]
      by (auto simp: apply_entry_data_def unsafe_entry_def)
  next
    case EntryConfChange
    then show ?thesis
      using assms(3) False apply_conf_entry_store [OF assms(1)]
      by (auto simp: apply_entry_data_def unsafe_entry_def)
  next
    case EntryConfChangeV2
    then show ?thesis using assms(3) False same_log_refl [OF assms(1)] by (simp add: apply_entry_data_def)
  qed
qed

lemma answer_seq_store [simp]: "mc_store (answer_seq X ctx M) = mc_store M"
  by (simp add: answer_seq_def answer_def split: sum.split option.split)

lemma count_and_snapshot_store:
  assumes "store_ok (me_env X) a (mc_store M)" and "commit_of (me_env X) (mc_store M) \<le> a"
  shows "\<exists>M'. count_and_snapshot X M = (M', Ret ()) \<and> same_log a (mc_store M) (mc_store M')"
proof -
  obtain s' where "create_snapshot (me_env X) (mc_store M) = (s', Ret ())" "same_log a (mc_store M) s'"
    using create_snapshot_ok [OF assms] by (auto simp: same_log_def)
  then show ?thesis
    using same_log_refl [OF assms(1)] by (simp add: count_and_snapshot_def Let_def st_create_snapshot_def)
qed

lemma committed_entry_store:
  assumes "store_ok (me_env X) a (mc_store M)" and "proposed_entry X e" and "e_index e = a + 1"
    and "a < last_index (me_env X) (mc_store M)" and "handle_committed_entry X now e M = (M', r)"
  shows "last_index (me_env X) (mc_store M') = last_index (me_env X) (mc_store M) \<and>
    (r = Ret () \<and> store_ok (me_env X) (a + 1) (mc_store M') \<and> commit_of (me_env X) (mc_store M') = a + 1 \<or>
     unsafe_entry X e \<and> r \<noteq> Ret () \<and> store_ok (me_env X) a (mc_store M'))"
proof -
  obtain M1 r1 where 1: "apply_entry_data X now e M = (M1, r1)" by fastforce
  note S = apply_entry_data_store [OF assms(1,2) 1, unfolded same_log_def]
  show ?thesis
  proof (cases r1)
    case (Panic p)
    then show ?thesis using assms(5) 1 S by (auto simp: handle_committed_entry_def)
  next
    case (Ret u)
    have lt: "a < last_index (me_env X) (mc_store M1)" using S assms(4) by simp
    obtain s' where s': "st_commmit_index (me_env X) (mc_store M1) (a + 1) = (s', Ret (Inr ()))"
      "store_ok (me_env X) (a + 1) s'" "commit_of (me_env X) s' = a + 1"
      "last_index (me_env X) s' = last_index (me_env X) (mc_store M1)"
      using commit_next_ok [OF _ lt] S by blast
    have h: "handle_committed_entry X now e M =
        count_and_snapshot X (answer_seq X (e_context e) (M1\<lparr>mc_store := s'\<rparr>))"
      by (simp add: handle_committed_entry_def 1 Ret assms(3) s'(1))
    obtain M2 where "count_and_snapshot X (answer_seq X (e_context e) (M1\<lparr>mc_store := s'\<rparr>)) = (M2, Ret ())"
      "same_log (a + 1) s' (mc_store M2)"
      using count_and_snapshot_store [of "a + 1" "answer_seq X (e_context e) (M1\<lparr>mc_store := s'\<rparr>)"] s' by auto
    then show ?thesis using h assms(5) s' S by (auto simp: same_log_def)
  qed
qed

lemma committed_entries_store:
  "store_ok (me_env X) a (mc_store M) \<Longrightarrow> \<forall>e \<in> set es. proposed_entry X e \<Longrightarrow> batch e_index (a + 1) es \<Longrightarrow>
   unat a + length es \<le> unat (last_index (me_env X) (mc_store M)) \<Longrightarrow>
   handle_committed_entries X now es M = (M', r) \<Longrightarrow>
   last_index (me_env X) (mc_store M') = last_index (me_env X) (mc_store M) \<and>
   (r = Ret () \<and> store_ok (me_env X) (a + of_nat (length es)) (mc_store M') \<and>
      commit_of (me_env X) (mc_store M') =
        (if es = [] then commit_of (me_env X) (mc_store M) else a + of_nat (length es)) \<or>
    (\<exists>e \<in> set es. unsafe_entry X e) \<and> r \<noteq> Ret () \<and> (\<exists>a'. store_ok (me_env X) a' (mc_store M')))"
proof (induction es arbitrary: a M)
  case Nil
  then show ?case by simp
next
  case (Cons e es)
  have b: "e_index e = a + 1" "batch e_index (a + 1 + 1) es" using Cons.prems(3) by (simp_all add: batch_Cons)
  have lt: "a < last_index (me_env X) (mc_store M)" using Cons.prems(4) by (simp add: word_less_nat_alt)
  obtain M1 r1 where 1: "handle_committed_entry X now e M = (M1, r1)" by fastforce
  have e: "proposed_entry X e" using Cons.prems(2) by simp
  note S = committed_entry_store [OF Cons.prems(1) e b(1) lt 1]
  show ?case
  proof (cases r1)
    case (Panic p)
    then show ?thesis using S 1 Cons.prems(5) by auto
  next
    case (Ret u)
    then have S1: "store_ok (me_env X) (a + 1) (mc_store M1)" "commit_of (me_env X) (mc_store M1) = a + 1"
      "last_index (me_env X) (mc_store M1) = last_index (me_env X) (mc_store M)"
      using S by auto
    have "a + 1 \<le> last_index (me_env X) (mc_store M1)" using S1(1) by (simp add: store_ok_def)
    have a1: "unat (a + 1) = unat a + 1"
      using lt by (intro unat_succ) auto
    have rest: "handle_committed_entries X now es M1 = (M', r)" using Cons.prems(5) 1 Ret by simp
    have "unat (a + 1) + length es \<le> unat (last_index (me_env X) (mc_store M1))"
      using Cons.prems(4) S1(3) a1 by simp
    from Cons.IH [OF S1(1) _ b(2) this rest] Cons.prems(2) S1 show ?thesis
      by (auto simp: add.assoc)
  qed
qed

end

subsection \<open>What raft-rs documents of a Ready\<close>

definition log_end :: "'db env \<Rightarrow> 'db raft_store \<Rightarrow> 'm ready \<Rightarrow> u64" where
  "log_end E s rd = (if rd_entries rd = [] then last_index E s else e_index (last (rd_entries rd)))"

definition ready_legal ::
  "('n, 'm, 'db) machine_env \<Rightarrow> u64 \<Rightarrow> 'db raft_store \<Rightarrow> 'm ready \<Rightarrow> bool" where
  "ready_legal X a s rd \<longleftrightarrow>
     rd_snapshot rd = snapshot_default \<and>
     (rd_entries rd = [] \<or>
        append_allowed (me_env X) s (rd_entries rd) \<and> batch e_index (e_index (hd (rd_entries rd))) (rd_entries rd) \<and>
        commit_of (me_env X) s < e_index (hd (rd_entries rd)) \<and> a < e_index (hd (rd_entries rd))) \<and>
     (\<forall>e \<in> set (rd_committed rd). proposed_entry X e) \<and> batch e_index (a + 1) (rd_committed rd) \<and>
     unat a + length (rd_committed rd) \<le> unat (log_end (me_env X) s rd) \<and>
     (case rd_hs rd of
        None \<Rightarrow> True
      | Some hs \<Rightarrow> commit_of (me_env X) s \<le> hs_commit hs \<and>
          unat a + length (rd_committed rd) \<le> unat (hs_commit hs) \<and>
          hs_commit hs \<le> log_end (me_env X) s rd)"

definition light_legal ::
  "('n, 'm, 'db) machine_env \<Rightarrow> u64 \<Rightarrow> 'db raft_store \<Rightarrow> 'm light_ready \<Rightarrow> bool" where
  "light_legal X a s light \<longleftrightarrow>
     (case lr_commit light of
        None \<Rightarrow> True
      | Some c \<Rightarrow> commit_of (me_env X) s \<le> c \<and> c \<le> last_index (me_env X) s) \<and>
     (\<forall>e \<in> set (lr_committed light). proposed_entry X e) \<and> batch e_index (a + 1) (lr_committed light) \<and>
     unat a + length (lr_committed light) \<le> unat (last_index (me_env X) s)"

text \<open>What \<open>advance\<close> returns after the first half of \<open>on_ready\<close>.\<close>

definition advanced ::
  "('n, 'm, 'db) machine_env \<Rightarrow> 'm ready \<Rightarrow> ('n, 'db, 'c) machine \<Rightarrow> ('n \<times> 'db raft_store) \<times> 'm light_ready" where
  "advanced X rd M5 =
     (let M6 = send_message X (rd_persisted rd) M5
      in rn_advance (me_raw X) (mc_node M6) (mc_store M6)
           (rd\<lparr>rd_messages := [], rd_committed := [], rd_persisted := []\<rparr>))"

definition begun ::
  "('n, 'm, 'db) machine_env \<Rightarrow> u64 \<Rightarrow> ('n, 'db, 'c) machine \<Rightarrow> ('n, 'db, 'c) machine \<times> unit run" where
  "begun X now M =
     (let (ns, rd) = rn_ready (me_raw X) (mc_node M) (mc_store M)
      in begin_ready X now rd (send_message X (rd_messages rd) (set_raw M ns)))"

definition legal_ready :: "('n, 'm, 'db) machine_env \<Rightarrow> u64 \<Rightarrow> u64 \<Rightarrow> ('n, 'db, 'c) machine \<Rightarrow> bool" where
  "legal_ready X now a M \<longleftrightarrow>
     (rn_has_ready (me_raw X) (mc_node M) \<longrightarrow>
       (let (ns, rd) = rn_ready (me_raw X) (mc_node M) (mc_store M);
            a1 = a + of_nat (length (rd_committed rd))
        in trait_calls (me_env X) a (mc_store M) (snd ns) \<and> ready_legal X a (snd ns) rd \<and>
           (case begun X now M of
              (M5, Ret _) \<Rightarrow>
                trait_calls (me_env X) a1 (mc_store M5) (snd (fst (advanced X rd M5))) \<and>
                light_legal X a1 (snd (fst (advanced X rd M5))) (snd (advanced X rd M5))
            | (M5, Panic _) \<Rightarrow> True)))"

text \<open>How many entries a call of \<open>on_ready\<close> is handed, and whether one of them is unsafe.\<close>

definition handed :: "('n, 'm, 'db) machine_env \<Rightarrow> u64 \<Rightarrow> ('n, 'db, 'c) machine \<Rightarrow> entry list" where
  "handed X now M =
     (if \<not> rn_has_ready (me_raw X) (mc_node M) then []
      else
        (let rd = snd (rn_ready (me_raw X) (mc_node M) (mc_store M))
         in rd_committed rd @
            (case begun X now M of
               (M5, Ret _) \<Rightarrow> lr_committed (snd (advanced X rd M5))
             | (M5, Panic _) \<Rightarrow> [])))"

context raft_machine
begin

lemma store_step_Ret:
  "f (mc_store M) = (s', Ret (Inr ())) \<Longrightarrow> store_step f M = (M\<lparr>mc_store := s'\<rparr>, Ret ())"
  by (simp add: store_step_def)

lemma begin_ready_store:
  assumes "store_ok (me_env X) a (mc_store M)" and "ready_legal X a (mc_store M) rd"
    and "begin_ready X now rd M = (M', r)"
  shows "(r = Ret () \<and> store_ok (me_env X) (a + of_nat (length (rd_committed rd))) (mc_store M')) \<or>
    ((\<exists>e \<in> set (rd_committed rd). unsafe_entry X e) \<and> r \<noteq> Ret () \<and> (\<exists>a'. store_ok (me_env X) a' (mc_store M')))"
proof -
  let ?es = "rd_entries rd" and ?cs = "rd_committed rd" and ?E = "me_env X"
  note L = assms(2) [unfolded ready_legal_def]
  have "\<exists>s'. when_run (?es \<noteq> []) (store_step (\<lambda>s. st_append ?E s ?es)) M = (M\<lparr>mc_store := s'\<rparr>, Ret ()) \<and>
      store_ok ?E a s' \<and> commit_of ?E s' = commit_of ?E (mc_store M) \<and> last_index ?E s' = log_end ?E (mc_store M) rd"
  proof (cases "?es = []")
    case True
    then show ?thesis using assms(1) by (intro exI [of _ "mc_store M"]) (simp add: when_run_def log_end_def)
  next
    case False
    then obtain s' where "append ?E (mc_store M) ?es = (s', Ret (Inr ()))" "store_ok ?E a s'"
      "commit_of ?E s' = commit_of ?E (mc_store M)" "last_index ?E s' = e_index (last ?es)"
      using append_batch_ok [OF assms(1), of ?es "e_index (hd ?es)"] L by blast
    then show ?thesis
      using False by (intro exI [of _ s']) (simp add: when_run_def store_step_def st_append_def log_end_def)
  qed
  then obtain s3 where s3: "when_run (?es \<noteq> []) (store_step (\<lambda>s. st_append ?E s ?es)) M = (M\<lparr>mc_store := s3\<rparr>, Ret ())"
    "store_ok ?E a s3" "commit_of ?E s3 = commit_of ?E (mc_store M)" "last_index ?E s3 = log_end ?E (mc_store M) rd"
    by blast
  obtain M4 r4 where 4: "handle_committed_entries X now ?cs (M\<lparr>mc_store := s3\<rparr>) = (M4, r4)" by fastforce
  have m3: "store_ok ?E a (mc_store (M\<lparr>mc_store := s3\<rparr>))"
    "unat a + length ?cs \<le> unat (last_index ?E (mc_store (M\<lparr>mc_store := s3\<rparr>)))"
    using s3 L by simp_all
  have "\<forall>e \<in> set ?cs. proposed_entry X e" "batch e_index (a + 1) ?cs" using L by simp_all
  note C = committed_entries_store [OF m3(1) this m3(2) 4]
  have b: "begin_ready X now rd M = bind_run (M4, r4) (\<lambda>M4 _.
      (case rd_hs rd of Some hs \<Rightarrow> store_step (\<lambda>s. st_set_hard_state ?E s hs) M4 | None \<Rightarrow> (M4, Ret ())))"
    using L s3(1) 4 by (simp add: begin_ready_def when_run_def)
  show ?thesis
  proof (cases r4)
    case (Panic p)
    then show ?thesis using b C assms(3) by auto
  next
    case (Ret u)
    let ?a1 = "a + of_nat (length ?cs)"
    have C1: "store_ok ?E ?a1 (mc_store M4)" "last_index ?E (mc_store M4) = log_end ?E (mc_store M) rd"
      "commit_of ?E (mc_store M4) = (if ?cs = [] then commit_of ?E (mc_store M) else ?a1)"
      using C Ret s3 by auto
    show ?thesis
    proof (cases "rd_hs rd")
      case None
      then show ?thesis using b Ret assms(3) C1 by simp
    next
      case (Some hs)
      have "unat a + length ?cs \<le> unat (hs_commit hs)" using L Some by simp
      moreover have "unat (hs_commit hs) < 2 ^ 64" using unsigned_less [of "hs_commit hs", where ?'a = nat] by simp
      ultimately have "unat ?a1 = unat a + length ?cs" by (simp add: unat_word_ariths unat_of_nat take_bit_eq_mod)
      then have "commit_of ?E (mc_store M4) \<le> hs_commit hs" "hs_commit hs \<le> last_index ?E (mc_store M4)"
        using L Some C1 by (simp_all add: word_le_nat_alt)
      from hard_state_ok [OF C1(1) this] show ?thesis
        using b Ret Some assms(3) by (auto simp: store_step_def st_set_hard_state_def)
    qed
  qed
qed

lemma finish_ready_store:
  assumes "\<And>n s. snd (rn_advance_apply (me_raw X) n s) = s"
    and "store_ok (me_env X) a (mc_store M5)"
    and "trait_calls (me_env X) a (mc_store M5) (snd (fst (advanced X rd M5)))"
    and "light_legal X a (snd (fst (advanced X rd M5))) (snd (advanced X rd M5))"
    and "finish_ready X now rd M5 = (M', r)"
  shows "(r = Ret () \<and> store_ok (me_env X) (a + of_nat (length (lr_committed (snd (advanced X rd M5))))) (mc_store M')) \<or>
    ((\<exists>e \<in> set (lr_committed (snd (advanced X rd M5))). unsafe_entry X e) \<and> r \<noteq> Ret () \<and>
      (\<exists>a'. store_ok (me_env X) a' (mc_store M')))"
proof -
  let ?E = "me_env X"
  obtain n s light where adv: "advanced X rd M5 = ((n, s), light)" by (cases "advanced X rd M5") auto
  let ?cs = "lr_committed light"
  let ?M7 = "set_raw (send_message X (rd_persisted rd) M5) (n, s)"
  note L = assms(4) [unfolded adv fst_conv snd_conv light_legal_def]
  have T: "store_ok ?E a s" "commit_of ?E s = commit_of ?E (mc_store M5)"
    using trait_calls_ok [OF assms(3,2)] by (simp_all add: adv)
  have "\<exists>s'. (case lr_commit light of
        Some commit \<Rightarrow> store_step (\<lambda>s. st_set_hard_state_comit ?E s commit) ?M7 | None \<Rightarrow> (?M7, Ret ())) =
      (?M7\<lparr>mc_store := s'\<rparr>, Ret ()) \<and> store_ok ?E a s' \<and> last_index ?E s' = last_index ?E s"
  proof (cases "lr_commit light")
    case None
    then show ?thesis using T(1) by (intro exI [of _ s]) simp
  next
    case (Some c)
    obtain h where h: "read_hard_state ?E s = Ret h" "hs_commit h = commit_of ?E s" using store_okD [OF T(1)] by blast
    let ?s' = "fst (save_hard_state ?E s (h\<lparr>hs_commit := c\<rparr>))"
    have "set_hard_state_commit ?E s c = (?s', Ret (Inr ()))"
      by (simp add: set_hard_state_commit_def h(1) Let_def case_prod_beta)
    moreover have "store_ok ?E a ?s' \<and> commit_of ?E ?s' = c \<and> last_index ?E ?s' = last_index ?E s"
      using hard_state_ok [OF T(1), of "h\<lparr>hs_commit := c\<rparr>"] L Some by simp
    ultimately show ?thesis
      using Some by (intro exI [of _ ?s']) (simp add: store_step_def st_set_hard_state_comit_def)
  qed
  then obtain s8 where s8: "(case lr_commit light of
        Some commit \<Rightarrow> store_step (\<lambda>s. st_set_hard_state_comit ?E s commit) ?M7 | None \<Rightarrow> (?M7, Ret ())) =
      (?M7\<lparr>mc_store := s8\<rparr>, Ret ())" "store_ok ?E a s8" "last_index ?E s8 = last_index ?E s" by blast
  let ?M8 = "send_message X (lr_messages light) (?M7\<lparr>mc_store := s8\<rparr>)"
  obtain M9 r9 where 9: "handle_committed_entries X now ?cs ?M8 = (M9, r9)" by fastforce
  have m8: "store_ok ?E a (mc_store ?M8)" "unat a + length ?cs \<le> unat (last_index ?E (mc_store ?M8))"
    using s8 L by simp_all
  have "\<forall>e \<in> set ?cs. proposed_entry X e" "batch e_index (a + 1) ?cs" using L by simp_all
  note C = committed_entries_store [OF m8(1) this m8(2) 9]
  have f: "finish_ready X now rd M5 = bind_run (M9, r9) (\<lambda>M9 _.
      (set_raw M9 (rn_advance_apply (me_raw X) (mc_node M9) (mc_store M9)), Ret ()))"
    using s8(1) adv 9 by (simp add: finish_ready_def advanced_def Let_def)
  show ?thesis
    using C f assms(1,5) by (cases r9) (auto simp: adv)
qed

lemma on_ready_store:
  assumes "\<And>n s. snd (rn_advance_apply (me_raw X) n s) = s"
    and "store_ok (me_env X) a (mc_store M)" and "legal_ready X now a M" and "on_ready X now M = (M', r)"
  shows "(r = Ret () \<and> store_ok (me_env X) (a + of_nat (length (handed X now M))) (mc_store M')) \<or>
    ((\<exists>e \<in> set (handed X now M). unsafe_entry X e) \<and> r \<noteq> Ret () \<and> (\<exists>a'. store_ok (me_env X) a' (mc_store M')))"
proof (cases "rn_has_ready (me_raw X) (mc_node M)")
  case False
  then show ?thesis using assms(2,4) by (simp add: on_ready_def handed_def)
next
  case True
  obtain ns rd where rd: "rn_ready (me_raw X) (mc_node M) (mc_store M) = (ns, rd)" by fastforce
  let ?M1 = "send_message X (rd_messages rd) (set_raw M ns)"
  let ?a1 = "a + of_nat (length (rd_committed rd))"
  obtain M5 r5 where 5: "begin_ready X now rd ?M1 = (M5, r5)" by fastforce
  then have begun: "begun X now M = (M5, r5)" by (simp add: begun_def rd)
  have L: "trait_calls (me_env X) a (mc_store M) (snd ns)" "ready_legal X a (snd ns) rd"
    "r5 = Ret () \<Longrightarrow> trait_calls (me_env X) ?a1 (mc_store M5) (snd (fst (advanced X rd M5)))"
    "r5 = Ret () \<Longrightarrow> light_legal X ?a1 (snd (fst (advanced X rd M5))) (snd (advanced X rd M5))"
    using assms(3) True by (simp_all add: legal_ready_def rd begun Let_def)
  have ok1: "store_ok (me_env X) a (mc_store ?M1)" "ready_legal X a (mc_store ?M1) rd"
    using trait_calls_ok [OF L(1) assms(2)] L(2) by simp_all
  note B = begin_ready_store [OF ok1 5]
  have o: "on_ready X now M = bind_run (M5, r5) (\<lambda>M5 _. finish_ready X now rd M5)"
    using True by (simp add: on_ready_def rd 5)
  show ?thesis
  proof (cases r5)
    case (Panic p)
    then show ?thesis using B o assms(4) True by (auto simp: handed_def rd begun)
  next
    case (Ret u)
    then have ok5: "store_ok (me_env X) ?a1 (mc_store M5)" using B by auto
    have "finish_ready X now rd M5 = (M', r)" using o Ret assms(4) by simp
    from finish_ready_store [OF assms(1) ok5 _ _ this] L(3,4) Ret True show ?thesis
      by (auto simp: handed_def rd begun add.assoc)
  qed
qed

lemma handle_message_store:
  assumes "bincode_laws (me_seq X)"
  shows "\<exists>M'. handle_message X msg M = (M', Ret ())"
proof -
  have "\<exists>M'. propose_with X f c M = (M', Ret ())" for f c
    using assms unfolding bincode_laws_def propose_with_def Let_def
    by (elim allE [of _ "mc_seqnum M"]) (auto split: prod.split sum.split)
  then show ?thesis by (cases msg) (auto split: prod.split sum.split)
qed

end

subsection \<open>Turns of the loop\<close>

text \<open>
  The machine as \<open>on_ready\<close> finds it in a turn, what the node may have done to the store by then, and
  what it hands over.
\<close>

definition before_ready ::
  "('n, 'm, 'db) machine_env \<Rightarrow> ('m, 'c) queue_event \<Rightarrow> bool \<Rightarrow> ('n, 'db, 'c) machine \<Rightarrow> ('n, 'db, 'c) machine" where
  "before_ready X ev elapsed M =
     tick_and_role X elapsed (fst (case ev of Received msg \<Rightarrow> handle_message X msg M | _ \<Rightarrow> (M, Ret ())))"

definition legal_turn ::
  "('n, 'm, 'db) machine_env \<Rightarrow> ('m, 'c) queue_event \<Rightarrow> bool \<Rightarrow> u64 \<Rightarrow> u64 \<Rightarrow> ('n, 'db, 'c) machine \<Rightarrow> bool" where
  "legal_turn X ev elapsed now a M \<longleftrightarrow>
     trait_calls (me_env X) a (mc_store M) (mc_store (before_ready X ev elapsed M)) \<and>
     legal_ready X now a (before_ready X ev elapsed M)"

text \<open>
  The runs of the machine on one disk.  The first node starts on an empty database; a turn that
  returns moves the position past the entries it was handed; and at any time, also after a turn
  that panicked, the process may be started again on the database as it is.
\<close>

definition turn_end :: "('n, 'm, 'db) machine_env \<Rightarrow> ('m, 'c) queue_event \<Rightarrow> bool \<Rightarrow> u64 \<Rightarrow> u64 \<Rightarrow>
    ('n, 'db, 'c) machine \<Rightarrow> u64" where
  "turn_end X ev elapsed now a M = a + of_nat (length (handed X now (before_ready X ev elapsed M)))"

inductive machine_runs ::
  "('n, 'm, 'db) machine_env \<Rightarrow> (raft_config \<Rightarrow> 'db raft_store \<Rightarrow> 'g \<Rightarrow> ext_error + 'n) \<Rightarrow> u64 \<Rightarrow>
   ('n, 'db, 'c) machine \<Rightarrow> bool" for X raw_new where
  run_start: "(\<forall>k. cell (rocks (me_env X)) db k = None) \<Longrightarrow> raft_store_new (me_env X) db = Ret s \<Longrightarrow>
     new_node (me_env X) raw_new logger lock cluster s = (s1, Ret n) \<Longrightarrow>
     machine_runs X raw_new (commit_of (me_env X) s1) (machine_new cluster n s1)"
| run_turn: "machine_runs X raw_new a M \<Longrightarrow> stop \<noteq> Some True \<Longrightarrow> ev \<noteq> Closed \<Longrightarrow>
     legal_turn X ev elapsed now a M \<Longrightarrow> run_turn X stop ev elapsed now M = (M', Ret Continue) \<Longrightarrow>
     machine_runs X raw_new (turn_end X ev elapsed now a M) M'"
| run_restart: "machine_runs X raw_new a M \<Longrightarrow> stop \<noteq> Some True \<Longrightarrow> ev \<noteq> Closed \<Longrightarrow>
     legal_turn X ev elapsed now a M \<Longrightarrow> run_turn X stop ev elapsed now M = (M', r) \<Longrightarrow>
     raft_store_new (me_env X) (rs_db (mc_store M')) = Ret s \<Longrightarrow>
     new_node (me_env X) raw_new logger lock cluster s = (s1, Ret n) \<Longrightarrow>
     machine_runs X raw_new (commit_of (me_env X) s1) (machine_new cluster n s1)"

context raft_machine
begin

lemma run_turn_store:
  assumes "bincode_laws (me_seq X)" and "\<And>n s. snd (rn_advance_apply (me_raw X) n s) = s"
    and "store_ok (me_env X) a (mc_store M)" and "stop \<noteq> Some True" and "ev \<noteq> Closed"
    and "legal_turn X ev elapsed now a M" and "run_turn X stop ev elapsed now M = (M', r)"
  shows "(r = Ret Continue \<and> store_ok (me_env X) (turn_end X ev elapsed now a M) (mc_store M')) \<or>
    ((\<exists>e \<in> set (handed X now (before_ready X ev elapsed M)). unsafe_entry X e) \<and> (\<exists>p. r = Panic p) \<and>
      (\<exists>a'. store_ok (me_env X) a' (mc_store M')))"
proof -
  let ?B = "before_ready X ev elapsed M"
  obtain M1 where M1: "(case ev of Received msg \<Rightarrow> handle_message X msg M | _ \<Rightarrow> (M, Ret ())) = (M1, Ret ())"
    using handle_message_store [OF assms(1)] by (cases ev) auto
  have B: "store_ok (me_env X) a (mc_store ?B)" "legal_ready X now a ?B"
    using assms(6) trait_calls_ok [OF _ assms(3)] by (auto simp: legal_turn_def)
  obtain M4 r4 where 4: "on_ready X now ?B = (M4, r4)" by fastforce
  have "run_turn X stop ev elapsed now M = bind_run (M4, r4) (\<lambda>M4 _. (M4, Ret Continue))"
    using assms(4,5) M1 4 by (simp add: run_turn_def before_ready_def)
  with on_ready_store [OF assms(2) B 4] assms(7) show ?thesis
    by (cases r4) (auto simp: turn_end_def)
qed

lemma start_ok:
  assumes "raft_inv (me_env X) s" and "new_node (me_env X) raw_new logger lock cluster s = (s1, Ret n)"
  shows "store_ok (me_env X) (commit_of (me_env X) s1) s1"
proof -
  obtain cs where "s1 = fst (save_conf_state (me_env X) s cs)"
    using assms(2) by (auto simp: new_node_def Let_def split: run.splits)
  then have "raft_inv (me_env X) s1" using save_conf_state_inv [OF assms(1)] by simp
  then show ?thesis by (auto simp: store_ok_def raft_inv_def commit_of_def)
qed

lemma machine_runs_ok:
  assumes "bincode_laws (me_seq X)" and "\<And>n s. snd (rn_advance_apply (me_raw X) n s) = s"
    and "machine_runs X raw_new a M"
  shows "store_ok (me_env X) a (mc_store M)"
  using assms(3)
proof (induction rule: machine_runs.induct)
  case (run_start db s logger lock cluster s1 n)
  have "raft_inv (me_env X) s" by (rule init_inv) (use run_start in blast)+
  from start_ok [OF this run_start(3)] show ?case by (simp add: machine_new_def)
next
  case (run_turn a M stop ev elapsed now M')
  from run_turn_store [OF assms(1,2) run_turn(6,2,3,4,5)] show ?case by auto
next
  case (run_restart a M stop ev elapsed now M' r s logger lock cluster s1 n)
  from run_turn_store [OF assms(1,2) run_restart(8,2,3,4,5)] have "raft_inv (me_env X) (mc_store M')"
    by (auto simp: store_ok_def)
  from restart_inv [OF this run_restart(6)] have "raft_inv (me_env X) s" .
  from start_ok [OF this run_restart(7)] show ?case by (simp add: machine_new_def)
qed

end

subsection \<open>Properties\<close>


text \<open>A node that hands out one \<open>Ready\<close>: the two entries a new leader appends, then commits.\<close>

definition noop_entries :: "entry list" where
  "noop_entries = [(ref_entry 3 1)\<lparr>e_data := []\<rparr>, (ref_entry 3 2)\<lparr>e_data := []\<rparr>]"

definition noop_ready :: "unit ready" where
  "noop_ready = \<lparr>rd_messages = [], rd_snapshot = snapshot_default, rd_entries = noop_entries,
     rd_committed = [], rd_hs = None, rd_persisted = []\<rparr>"

definition noop_raw :: "(bool, unit, mem_db) raw_node" where
  "noop_raw =
     \<lparr>rn_propose = (\<lambda>n s ctx d. ((n, s), Inr ())),
      rn_propose_conf_change = (\<lambda>n s ctx c. ((n, s), Inr ())),
      rn_step = (\<lambda>n s m. ((n, s), Inr ())),
      rn_transfer_leader = (\<lambda>n s i. (n, s)),
      rn_tick = (\<lambda>n s. (n, s)),
      rn_role = (\<lambda>n. Leader),
      rn_has_ready = (\<lambda>n. n),
      rn_ready = (\<lambda>n s. ((False, s), noop_ready)),
      rn_advance = (\<lambda>n s rd. ((n, s), \<lparr>lr_commit = Some 2, lr_messages = [], lr_committed = noop_entries\<rparr>)),
      rn_advance_apply = (\<lambda>n s. (n, s)),
      rn_apply_conf_change = (\<lambda>n c. (n, Inr conf_state_default)),
      rn_msg_to = (\<lambda>m. 0),
      rn_msg_encode = (\<lambda>m. [])\<rparr>"

definition noop_machine_env :: "(bool, unit, mem_db) machine_env" where
  "noop_machine_env =
     \<lparr>me_raw = noop_raw, me_env = ref_env, me_route = ref_codecs, me_seq = ref_bincode fmt_u64,
      me_node = ref_bincode fmt_broker_node, me_conf_change = me_conf_change ref_machine_env\<rparr>"

lemma noop_env_sel [simp]:
  "me_raw noop_machine_env = noop_raw" "me_env noop_machine_env = ref_env"
  "me_route noop_machine_env = ref_codecs" "me_seq noop_machine_env = ref_bincode fmt_u64"
  by (simp_all add: noop_machine_env_def)

interpretation noop: raft_machine noop_machine_env
  by unfold_locales (simp_all add: ref_env_up ref_wire_formats)

definition noop_machine :: "(bool, mem_db, nat) machine" where
  "noop_machine = machine_new ref_metadata0 True
     (fst (save_conf_state ref_env ref_store (conf_state_default\<lparr>cs_voters := [1]\<rparr>)))"

lemma noop_machine_facts:
  "machine_runs noop_machine_env (\<lambda>c s (log :: unit). Inr True) 0 noop_machine"
  "store_ok ref_env 0 (mc_store noop_machine)" "commit_of ref_env (mc_store noop_machine) = 0"
  "first_index ref_env (mc_store noop_machine) = 1" "last_index ref_env (mc_store noop_machine) = 0"
  "mc_node noop_machine = True"
proof -
  let ?s1 = "fst (save_conf_state ref_env ref_store (conf_state_default\<lparr>cs_voters := [1]\<rparr>))"
  have new: "new_node ref_env (\<lambda>c s log. Inr True) (Ret ()) (Some ref_config) ref_metadata0 ref_store = (?s1, Ret True)"
    by (simp add: new_node_def build_config_def placement_center_conf_def Let_def ref_metadata0_def node_ids_def)
  have c: "commit_of ref_env ?s1 = 0"
    by (simp add: commit_of_def ref.read_hard_state_cell hard_state_default_def)
  then show "commit_of ref_env (mc_store noop_machine) = 0" by (simp add: noop_machine_def machine_new_def)
  have "raft_store_new (me_env noop_machine_env) [] = Ret ref_store" by (simp add: ref_store_new)
  from run_start [of noop_machine_env "[]", OF _ this, of "\<lambda>c s log. Inr True" "Ret ()" "Some ref_config" ref_metadata0 ?s1 True]
  show runs: "machine_runs noop_machine_env (\<lambda>c s (log :: unit). Inr True) 0 noop_machine"
    using new c by (simp add: noop_machine_def)
  have "raft_inv ref_env ref_store" by (rule ref.node_reachable_inv [OF ref_store_reachable])
  from noop.start_ok [of ref_store "\<lambda>c s log. Inr True" "Ret ()" "Some ref_config" ref_metadata0 ?s1 True] this new c
  show "store_ok ref_env 0 (mc_store noop_machine)" by (simp add: noop_machine_def machine_new_def)
  show "first_index ref_env (mc_store noop_machine) = 1" "last_index ref_env (mc_store noop_machine) = 0"
    "mc_node noop_machine = True"
    by (simp_all add: noop_machine_def machine_new_def ref.first_index_cell ref.last_index_cell
        ref_store_def snapshot_metadata_default_def)
qed

lemma noop_turn_legal: "legal_turn noop_machine_env Idle False 0 0 noop_machine"
proof -
  let ?M = "before_ready noop_machine_env Idle False noop_machine"
  have M: "mc_store ?M = mc_store noop_machine" "mc_node ?M = True"
    by (simp_all add: before_ready_def tick_and_role_def Let_def noop_machine_facts(6))
  have e: "noop_entries \<noteq> []" "e_index (hd noop_entries) = 1" "e_index (last noop_entries) = 2"
    "\<forall>e \<in> set noop_entries. e_data e = []" "length noop_entries = 2"
    by (simp_all add: noop_entries_def)
  have b: "batch e_index 1 noop_entries"
    by (simp add: batch_def noop_entries_def nth_Cons split: nat.splits)
  have al: "append_allowed ref_env (mc_store noop_machine) noop_entries"
    by (simp add: append_allowed_def e noop_machine_facts(4,5))
  obtain s' where s': "append ref_env (mc_store noop_machine) noop_entries = (s', Ret (Inr ()))"
    "store_ok ref_env 0 s'" "commit_of ref_env s' = 0" "last_index ref_env s' = 2"
    using noop.append_batch_ok [of 0 "mc_store noop_machine" noop_entries 1]
    by (auto simp: noop_machine_facts al e b)
  have rd: "rn_ready noop_raw n s = ((False, s), noop_ready)" "rn_has_ready noop_raw n = n" for n s
    by (simp_all add: noop_raw_def)
  have rl: "ready_legal noop_machine_env 0 (mc_store noop_machine) noop_ready"
    by (simp add: ready_legal_def noop_ready_def log_end_def e al b noop_machine_facts, simp add: batch_def)
  have "begun noop_machine_env 0 ?M = (?M\<lparr>mc_node := False, mc_store := s'\<rparr>, Ret ())"
    by (simp add: begun_def rd M noop_ready_def begin_ready_def when_run_def e store_step_def st_append_def s'(1))
  moreover have "light_legal noop_machine_env 0 s' \<lparr>lr_commit = Some 2, lr_messages = [], lr_committed = noop_entries\<rparr>"
    using b by (simp add: light_legal_def s' e proposed_entry_def)
  ultimately show ?thesis
    by (simp add: legal_turn_def M legal_ready_def rd rl no_calls advanced_def noop_ready_def [THEN arg_cong [where f = rd_committed]]
       Let_def noop_raw_def)
qed


end
