(* ===== verification/Store_Types.thy ===== *)
theory Store_Types
  imports Raft_Reach
begin

section \<open>The types of the cells of a Raft store\<close>

text \<open>
  The one column family holds cells of seven kinds, told apart by their keys only.  A typing of
  the store in the manner of a typing of a program's state: which type a key has, when a cell has
  a type, and that every operation of \<open>RaftMachineStorage\<close> and of \<open>KvStorage\<close> keeps each cell
  at the type of its key, so that no reader ever finds another kind of value, and no cell of an
  unknown kind appears.
\<close>

datatype cell_type =
    EntryCell u64
  | IndexCell
  | HardStateCell
  | ConfStateCell
  | UncommitCell
  | SnapshotCell
  | UserCell

inductive key_typed :: "string \<Rightarrow> cell_type \<Rightarrow> bool" where
  key_entry: "key_typed (key_name_by_entry i) (EntryCell i)"
| key_first: "key_typed key_name_by_first_index IndexCell"
| key_last: "key_typed key_name_by_last_index IndexCell"
| key_hard: "key_typed key_name_by_hard_state HardStateCell"
| key_conf: "key_typed key_name_by_conf_state ConfStateCell"
| key_uncommit: "key_typed key_name_uncommit UncommitCell"
| key_snapshot: "key_typed key_name_snapshot SnapshotCell"
| key_user: "kv_user_key k \<Longrightarrow> key_typed k UserCell"

declare key_typed.intros [intro]

inductive_cases entry_key_typedE: "key_typed (key_name_by_entry i) T"
inductive_cases key_typedE: "key_typed k T"

text \<open>What a value written by \<open>write::<Vec<u8>>\<close> decodes to.\<close>

definition vec_decodes :: "'db env \<Rightarrow> bytes \<Rightarrow> (bytes \<Rightarrow> 'e + 'a) \<Rightarrow> ('a \<Rightarrow> bool) \<Rightarrow> bool" where
  "vec_decodes E c dec P \<longleftrightarrow>
     (case decode_cell (js_bytes E) c of
        Inl _ \<Rightarrow> False
      | Inr b \<Rightarrow> (case dec b of Inl _ \<Rightarrow> False | Inr a \<Rightarrow> P a))"

fun has_type :: "'db env \<Rightarrow> cell_type \<Rightarrow> bytes \<Rightarrow> bool" where
  "has_type E (EntryCell i) c \<longleftrightarrow> vec_decodes E c (pb_decode (pb_entry E)) (\<lambda>e. e_index e = i)"
| "has_type E IndexCell c \<longleftrightarrow> is_ok (decode_cell (js_u64 E) c)"
| "has_type E HardStateCell c \<longleftrightarrow> vec_decodes E c (pb_decode (pb_hard_state E)) (\<lambda>_. True)"
| "has_type E ConfStateCell c \<longleftrightarrow> vec_decodes E c (pb_decode (pb_conf_state E)) (\<lambda>_. True)"
| "has_type E UncommitCell c \<longleftrightarrow> vec_decodes E c (bc_deserialize (bc_uncommit E)) (\<lambda>m. distinct (map fst m))"
| "has_type E SnapshotCell c \<longleftrightarrow> vec_decodes E c (pb_decode (pb_snapshot E)) (\<lambda>_. True)"
| "has_type E UserCell c \<longleftrightarrow> is_ok (cell_value E c)"

definition well_typed :: "'db env \<Rightarrow> 'db raft_store \<Rightarrow> bool" where
  "well_typed E s \<longleftrightarrow> (\<forall>k c. rcell E s k = Some c \<longrightarrow> (\<exists>T. key_typed k T \<and> has_type E T c))"

text \<open>A key has one type.\<close>

lemma key_typed_unique: "key_typed k T \<Longrightarrow> key_typed k T' \<Longrightarrow> T = T'"
  by (auto elim!: key_typedE simp: kv_user_key_def)

lemma well_typedD: "well_typed E s \<Longrightarrow> rcell E s k = Some c \<Longrightarrow> key_typed k T \<Longrightarrow> has_type E T c"
  unfolding well_typed_def using key_typed_unique by blast

lemma typed_write:
  assumes "well_typed E s" and "key_typed key T" and "has_type E T v"
    and "\<And>k. rcell E s' k = (if k = key then Some v else rcell E s k)"
  shows "well_typed E s'"
  using assms unfolding well_typed_def by (metis option.inject)

lemma typed_delete:
  assumes "well_typed E s" and "\<And>k. rcell E s' k = (if k = key then None else rcell E s k)"
  shows "well_typed E s'"
  using assms unfolding well_typed_def by (metis option.distinct(1))

lemma typed_same: "well_typed E s \<Longrightarrow> rs_db s' = rs_db s \<Longrightarrow> well_typed E s'"
  by (simp add: well_typed_def)

context storage_env
begin

lemma vec_cell_decodes [simp]: "vec_decodes E (vec_cell E b) dec P \<longleftrightarrow> (case dec b of Inl _ \<Rightarrow> False | Inr a \<Rightarrow> P a)"
  by (simp add: vec_decodes_def vec_cell_def)

lemma u64_cell_index [simp]: "is_ok (decode_cell (js_u64 E) (u64_cell E i))"
  by (simp add: u64_cell_def)

subsection \<open>Preservation\<close>

lemma append_entry_typed:
  assumes "well_typed E s" and "append_entry E s e = (s', r)"
  shows "well_typed E s'"
proof -
  let ?s1 = "s\<lparr>rs_db := fst (write_vec E (rs_db s) (key_name_by_entry (e_index e)) (pb_encode (pb_entry E) e))\<rparr>"
  let ?s2 = "?s1\<lparr>rs_uncommit_index := AList.update (e_index e) 1 (rs_uncommit_index s)\<rparr>"
  have w1: "well_typed E ?s1"
    by (rule typed_write [OF assms(1) key_entry [of "e_index e"]]) simp_all
  have "well_typed E (fst (save_last_index E ?s2 (e_index e)))"
    by (rule typed_write [OF typed_same [OF w1] key_last]) simp_all
  moreover have "s' = fst (save_last_index E ?s2 (e_index e))"
    using assms(2) save_last_index_effect(1) [of ?s2 "e_index e"]
    by (auto simp: append_entry_def split: prod.splits sum.splits)
  ultimately show ?thesis by simp
qed

lemma append_loop_typed: "well_typed E s \<Longrightarrow> append_loop E s es = (s', r) \<Longrightarrow> well_typed E s'"
proof (induction es arbitrary: s)
  case (Cons e es)
  obtain s1 r1 where 1: "append_entry E s e = (s1, r1)" by fastforce
  with append_entry_typed [OF Cons.prems(1)] Cons.IH Cons.prems(2) show ?case
    by (cases r1) auto
qed simp

lemma save_uncommit_typed:
  assumes "well_typed E s" and "distinct_uncommit s"
  shows "well_typed E (fst (save_uncommit_index E s))"
proof -
  obtain b m' where b: "bc_serialize (bc_uncommit E) (rs_uncommit_index s) = Inr b"
    "bc_deserialize (bc_uncommit E) b = Inr m'" "distinct (map fst m')"
    using env_uncommit assms(2) unfolding distinct_uncommit_def by blast
  show ?thesis
    by (rule typed_write [OF assms(1) key_uncommit, of "vec_cell E b"])
      (simp_all add: b save_uncommit_index_def)
qed

lemma append_typed:
  assumes "well_typed E s" and "distinct_uncommit s"
  shows "well_typed E (fst (append E s es))"
proof (cases "es = [] \<or> \<not> append_allowed E s es")
  case True
  then show ?thesis using assms(1) append_panics_up [of s es] by auto
next
  case False
  obtain s1 where s1: "append_loop E s es = (s1, Ret ())" "distinct_uncommit s1"
    using append_loop_effect [of s es] assms(2) by auto
  obtain s2 where "save_uncommit_index E s1 = (s2, Ret ())" "well_typed E s2"
    using save_uncommit_effect [OF s1(2)] save_uncommit_typed [OF append_loop_typed [OF assms(1) s1(1)] s1(2)]
    by auto
  then show ?thesis using s1(1) False assms(1)
    by (cases es) (auto simp: append_def append_allowed_def simp del: append_loop.simps)
qed

lemma save_hard_state_typed: "well_typed E s \<Longrightarrow> well_typed E (fst (save_hard_state E s hs))"
  by (erule typed_write [OF _ key_hard]) simp_all

lemma save_conf_state_typed: "well_typed E s \<Longrightarrow> well_typed E (fst (save_conf_state E s cs))"
  by (erule typed_write [OF _ key_conf]) simp_all

lemma commit_typed:
  assumes "well_typed E s" and "distinct_uncommit s"
  shows "well_typed E (fst (commmit_index E s i))"
proof -
  let ?s0 = "s\<lparr>rs_uncommit_index := AList.delete i (rs_uncommit_index s)\<rparr>"
  have d: "distinct_uncommit ?s0" using assms(2) by (simp add: distinct_uncommit_def distinct_delete)
  have w: "well_typed E (fst (save_uncommit_index E ?s0))"
    by (rule save_uncommit_typed [OF typed_same [OF assms(1)] d]) simp
  with assms(1) show ?thesis
    by (auto simp: commmit_index_def bind_run_def save_hard_state_typed
        split: run.splits prod.splits option.splits)
qed

lemma create_snapshot_typed:
  assumes "well_typed E s"
  shows "well_typed E (fst (create_snapshot E s))"
proof -
  have "well_typed E (save_snapshot_data E (fst (save_first_index E s i)) sn)" for i sn
    by (rule typed_write [OF typed_write [OF assms key_first] key_snapshot]) simp_all
  then have "well_typed E (save_snapshot_data E (fst (save_first_index E s i)) sn\<lparr>rs_snapshot_metadata := m\<rparr>)"
    for i sn m
    by (rule typed_same) simp
  then show ?thesis
    using assms by (auto simp: create_snapshot_def Let_def split: run.splits sum.splits)
qed

lemma set_hard_state_commit_typed: "well_typed E s \<Longrightarrow> well_typed E (fst (set_hard_state_commit E s c))"
  by (auto simp: set_hard_state_commit_def Let_def case_prod_beta save_hard_state_typed split: run.split)

lemma raft_step_typed:
  assumes "raft_step E s s'" and "raft_inv E s" and "well_typed E s"
  shows "well_typed E s'"
proof -
  have "distinct_uncommit s" using assms(2) by (simp add: raft_inv_def raft_ok_def)
  with assms(1,3) show ?thesis
    by (cases rule: raft_step.cases)
      (simp_all add: append_typed commit_typed save_hard_state_typed set_hard_state_commit_typed
        save_conf_state_typed create_snapshot_typed)
qed

lemma kv_set_typed:
  "well_typed E s \<Longrightarrow> kv_user_key k \<Longrightarrow> well_typed E (s\<lparr>rs_db := fst (kv_set E now (rs_db s) k v)\<rparr>)"
  by (erule typed_write [OF _ key_user]) (simp_all add: cell_kv_set)

lemma kv_delete_typed: "well_typed E s \<Longrightarrow> well_typed E (s\<lparr>rs_db := fst (kv_delete E (rs_db s) k)\<rparr>)"
  by (erule typed_delete) (simp add: cell_kv_delete)

lemma node_step_typed:
  assumes "node_step E s s'" and "raft_inv E s" and "well_typed E s"
  shows "well_typed E s'"
  using assms(1)
proof cases
  case node_raft
  then show ?thesis using raft_step_typed assms(2,3) by blast
next
  case (node_kv_set k now v)
  then show ?thesis using kv_set_typed assms(3) by simp
next
  case (node_kv_delete k)
  then show ?thesis using kv_delete_typed assms(3) by simp
next
  case node_restart
  then have "rs_db s' = rs_db s"
    by (auto simp: raft_store_new_def Let_def split: run.splits)
  with assms(3) show ?thesis by (rule typed_same)
qed

lemma reachable_typed: "node_reachable E s \<Longrightarrow> well_typed E s"
proof (induction rule: node_reachable.induct)
  case (reach_init db s)
  then have "rs_db s = db" by (auto simp: raft_store_new_def Let_def split: run.splits)
  with reach_init show ?case by (simp add: well_typed_def)
next
  case (reach_step s s')
  then show ?case using node_step_typed node_reachable_inv by blast
qed

end

subsection \<open>Property\<close>



end
