(* ===== verification/Openraft_Types.thy ===== *)
theory Openraft_Types
  imports Ref_Storage_Env Log_Contract Kv_Contract "HOL-Library.Finite_Map"
begin

section \<open>The openraft path: types and environment\<close>

text \<open>
  \<open>src/placement-center/src/openraft/route/mod.rs\<close>, \<open>typeconfig.rs\<close> and \<open>store/mod.rs\<close>.  The
  types of the openraft crate that the code only passes around are type variables: \<open>'l\<close> the
  leader id inside a log id, \<open>'v\<close> the vote, \<open>'mem\<close> the membership.  A \<open>BTreeMap\<close> is a finite
  map.
\<close>

subsection \<open>Requests and entries\<close>

datatype app_request_data = Set string string | Delete string

record app_response_data =
  rsp_value :: "string option"

record 'l log_id =
  li_leader_id :: 'l
  li_index :: u64

datatype 'mem entry_payload = Blank | Normal app_request_data | Membership 'mem

record ('l, 'mem) oentry =
  oe_log_id :: "'l log_id"
  oe_payload :: "'mem entry_payload"

record ('l, 'mem) stored_membership =
  stm_log_id :: "'l log_id option"
  stm_membership :: 'mem

record ('l, 'mem) snapshot_meta =
  sme_last_log_id :: "'l log_id option"
  sme_last_membership :: "('l, 'mem) stored_membership"
  sme_snapshot_id :: string

record ('l, 'mem) stored_snapshot =
  ss_meta :: "('l, 'mem) snapshot_meta"
  ss_data :: bytes

type_synonym kv_map = "(string, string) fmap"

subsection \<open>Errors\<close>

text \<open>
  \<open>StorageError\<close> by its constructor functions; the snapshot signature some of them carry, used in
  messages only, is left out.
\<close>

datatype error_subject = SubjectStore | SubjectVote | SubjectSnapshot
datatype error_verb = VerbRead | VerbWrite

datatype storage_error =
    SE_new error_subject error_verb ext_error
  | SE_read ext_error
  | SE_write ext_error
  | SE_write_vote ext_error
  | SE_read_logs ext_error
  | SE_write_logs ext_error
  | SE_read_snapshot ext_error
  | SE_write_snapshot ext_error
  | SE_read_state_machine ext_error

subsection \<open>The environment\<close>

record ('db, 'l, 'v, 'mem) oenv =
  o_rocks :: "'db rocksdb"
  o_entry :: "('l, 'mem) oentry serde"
  o_log_id :: "'l log_id serde"
  o_committed :: "'l log_id option serde"
  o_vote :: "'v serde"
  o_snapshot :: "('l, 'mem) stored_snapshot serde"
  o_kvs :: "kv_map serde"

text \<open>
  serde_json writes \<open>Some v\<close> as \<open>v\<close> and \<open>None\<close> as \<open>null\<close>, which is no value of a struct type.
\<close>

definition option_serde :: "'a serde \<Rightarrow> 'a option serde \<Rightarrow> bool" where
  "option_serde S T \<longleftrightarrow>
     (\<forall>v. js_to_vec T (Some v) = js_to_vec S v) \<and> js_to_vec T None = Inr (str_bytes ''null'') \<and>
     \<not> is_ok (js_from_slice S (str_bytes ''null''))"

definition oenv_laws :: "('db, 'l, 'v, 'mem) oenv \<Rightarrow> bool" where
  "oenv_laws X \<longleftrightarrow>
     rocksdb_laws (o_rocks X) \<and> serde_laws (o_entry X) \<and> serde_laws (o_log_id X) \<and>
     option_serde (o_log_id X) (o_committed X) \<and> serde_laws (o_vote X) \<and> serde_laws (o_snapshot X) \<and>
     serde_laws (o_kvs X)"

definition oenv_up :: "('db, 'l, 'v, 'mem) oenv \<Rightarrow> bool" where
  "oenv_up X \<longleftrightarrow> oenv_laws X \<and> rocksdb_up (o_rocks X)"

definition raft_store_cf :: string where
  "raft_store_cf = ''_raft_store''"

definition raft_logs_cf :: string where
  "raft_logs_cf = ''_raft_logs''"

lemma cf_ne [simp]: "raft_store_cf \<noteq> raft_logs_cf" "raft_logs_cf \<noteq> raft_store_cf"
  by (simp_all add: raft_store_cf_def raft_logs_cf_def)

subsection \<open>Keys of the log\<close>

definition id_to_bin :: "u64 \<Rightarrow> bytes" where
  "id_to_bin i = u64_be i"

definition bin_to_id :: "bytes \<Rightarrow> u64 run" where
  "bin_to_id buf = (if length buf < 8 then Panic IndexOutOfBounds else Ret (be_u64 (take 8 buf)))"

lemma bin_to_id_to_bin [simp]: "bin_to_id (id_to_bin i) = Ret i"
  by (simp add: bin_to_id_def id_to_bin_def)

lemma id_to_bin_inject [simp]: "id_to_bin i = id_to_bin j \<longleftrightarrow> i = j"
  by (simp add: id_to_bin_def)

lemma id_to_bin_less [simp]: "id_to_bin i < id_to_bin j \<longleftrightarrow> i < j"
  by (simp add: id_to_bin_def)

lemma id_to_bin_le [simp]: "id_to_bin i \<le> id_to_bin j \<longleftrightarrow> i \<le> j"
  by (simp add: id_to_bin_def)

text \<open>
  The keys of the openraft log are faithful: an index comes back from its key, distinct indexes
  have distinct keys, and the byte order in which RocksDB iterates is the numeric order of the
  indexes over all of \<open>u64\<close>.
\<close>

lemma log_keys_ordered:
  "bin_to_id (id_to_bin i) = Ret i \<and> (id_to_bin i = id_to_bin j \<longleftrightarrow> i = j) \<and>
   (id_to_bin i < id_to_bin j \<longleftrightarrow> i < j)"
  by simp

locale openraft_env =
  fixes X :: "('db, 'l, 'v, 'mem) oenv"
  assumes oenv: "oenv_up X"
begin

lemma oenv_rocks: "rocksdb_laws (o_rocks X)" "rocksdb_up (o_rocks X)"
  using oenv by (simp_all add: oenv_up_def oenv_laws_def)

lemma oenv_serde [simp]:
  "serde_laws (o_entry X)" "serde_laws (o_log_id X)"
  "serde_laws (o_vote X)" "serde_laws (o_snapshot X)" "serde_laws (o_kvs X)"
  using oenv by (simp_all add: oenv_up_def oenv_laws_def)

lemma committed_json:
  "js_to_vec (o_committed X) (Some l) = js_to_vec (o_log_id X) l"
  "js_to_vec (o_committed X) None = Inr (str_bytes ''null'')"
  "\<not> is_ok (js_from_slice (o_log_id X) (str_bytes ''null''))"
  using oenv by (simp_all add: oenv_up_def oenv_laws_def option_serde_def)

lemma to_vec_text:
  "js_to_vec (o_entry X) e = Inr (str_bytes (js_text (o_entry X) e))"
  "js_to_vec (o_log_id X) l = Inr (str_bytes (js_text (o_log_id X) l))"
  "js_to_vec (o_vote X) v = Inr (str_bytes (js_text (o_vote X) v))"
  "js_to_vec (o_snapshot X) s = Inr (str_bytes (js_text (o_snapshot X) s))"
  "js_to_vec (o_kvs X) m = Inr (str_bytes (js_text (o_kvs X) m))"
  by (simp_all add: serde_type.to_vec_eq [OF serde_type.intro])

lemma from_slice_text:
  "js_from_slice (o_entry X) (str_bytes (js_text (o_entry X) e)) = Inr e"
  "js_from_slice (o_log_id X) (str_bytes (js_text (o_log_id X) l)) = Inr l"
  "js_from_slice (o_vote X) (str_bytes (js_text (o_vote X) v)) = Inr v"
  "js_from_slice (o_snapshot X) (str_bytes (js_text (o_snapshot X) s)) = Inr s"
  "js_from_slice (o_kvs X) (str_bytes (js_text (o_kvs X) m)) = Inr m"
  by (simp_all add: serde_type.from_slice_text [OF serde_type.intro])

end

sublocale openraft_env \<subseteq> rocksdb_running "o_rocks X"
  by unfold_locales (rule oenv_rocks)+

subsection \<open>A reference instance\<close>

definition fmt_log_id :: "u64 log_id fmt" where
  "fmt_log_id = fmt_map (\<lambda>l. (li_leader_id l, li_index l))
     (\<lambda>(a, b). \<lparr>li_leader_id = a, li_index = b\<rparr>) (fmt_pair fmt_u64 fmt_u64)"

lemma fmt_log_id_ok [simp]: "fmt_ok fmt_log_id"
  unfolding fmt_log_id_def by (rule fmt_map_ok) simp_all

fun payload_code :: "u64 entry_payload \<Rightarrow> u8 \<times> string \<times> string \<times> u64" where
  "payload_code Blank = (0, [], [], 0)"
| "payload_code (Normal (Set k v)) = (1, k, v, 0)"
| "payload_code (Normal (Delete k)) = (2, k, [], 0)"
| "payload_code (Membership m) = (3, [], [], m)"

definition code_payload :: "u8 \<times> string \<times> string \<times> u64 \<Rightarrow> u64 entry_payload" where
  "code_payload = (\<lambda>(t, k, v, m).
     if t = 0 then Blank else if t = 1 then Normal (Set k v)
     else if t = 2 then Normal (Delete k) else Membership m)"

lemma code_payload_code [simp]: "code_payload (payload_code p) = p"
  by (cases p rule: payload_code.cases) (simp_all add: code_payload_def)

definition fmt_oentry :: "(u64, u64) oentry fmt" where
  "fmt_oentry = fmt_map (\<lambda>e. (oe_log_id e, payload_code (oe_payload e)))
     (\<lambda>(l, p). \<lparr>oe_log_id = l, oe_payload = code_payload p\<rparr>)
     (fmt_pair fmt_log_id (fmt_pair fmt_u8 (fmt_pair fmt_string (fmt_pair fmt_string fmt_u64))))"

lemma fmt_oentry_ok [simp]: "fmt_ok fmt_oentry"
  unfolding fmt_oentry_def by (rule fmt_map_ok) simp_all

definition fmt_stored_snapshot :: "(u64, u64) stored_snapshot fmt" where
  "fmt_stored_snapshot = fmt_map
     (\<lambda>s. (sme_last_log_id (ss_meta s), stm_log_id (sme_last_membership (ss_meta s)),
           stm_membership (sme_last_membership (ss_meta s)), sme_snapshot_id (ss_meta s), ss_data s))
     (\<lambda>(l, ml, m, i, d). \<lparr>ss_meta = \<lparr>sme_last_log_id = l,
        sme_last_membership = \<lparr>stm_log_id = ml, stm_membership = m\<rparr>, sme_snapshot_id = i\<rparr>, ss_data = d\<rparr>)
     (fmt_pair (fmt_option fmt_log_id) (fmt_pair (fmt_option fmt_log_id)
        (fmt_pair fmt_u64 (fmt_pair fmt_string fmt_bytes))))"

lemma fmt_stored_snapshot_ok [simp]: "fmt_ok fmt_stored_snapshot"
  unfolding fmt_stored_snapshot_def by (rule fmt_map_ok) simp_all

definition fmt_kvs :: "kv_map fmt" where
  "fmt_kvs = fmt_map sorted_list_of_fmap fmap_of_list (fmt_list (fmt_pair fmt_string fmt_string))"

lemma fmap_of_sorted [simp]: "fmap_of_list (sorted_list_of_fmap m) = m"
proof (rule fmap_ext)
  fix k
  have "map_of (sorted_list_of_fmap m) k = fmlookup m k"
    by (auto simp: sorted_list_of_fmap_def map_of_map_restrict restrict_map_def fmlookup_dom_iff)
  then show "fmlookup (fmap_of_list (sorted_list_of_fmap m)) k = fmlookup m k"
    by (simp add: fmlookup_of_list)
qed

lemma fmt_kvs_ok [simp]: "fmt_ok fmt_kvs"
  unfolding fmt_kvs_def by (rule fmt_map_ok) simp_all

definition ref_option_serde :: "'a serde \<Rightarrow> 'a option serde" where
  "ref_option_serde S =
     \<lparr>js_to_string = (\<lambda>m. case m of None \<Rightarrow> Inr ''null'' | Some v \<Rightarrow> js_to_string S v),
      js_to_vec = (\<lambda>m. case m of None \<Rightarrow> Inr (str_bytes ''null'') | Some v \<Rightarrow> js_to_vec S v),
      js_from_str = (\<lambda>s. if s = ''null'' then Inr None
         else (case js_from_str S s of Inr v \<Rightarrow> Inr (Some v) | Inl e \<Rightarrow> Inl e)),
      js_from_slice = (\<lambda>b. if b = str_bytes ''null'' then Inr None
         else (case js_from_slice S b of Inr v \<Rightarrow> Inr (Some v) | Inl e \<Rightarrow> Inl e)),
      js_debug = (\<lambda>m. [])\<rparr>"

definition ref_oenv :: "(mem_db, u64, u64, u64) oenv" where
  "ref_oenv =
     \<lparr>o_rocks = mem_rocksdb,
      o_entry = ref_serde CHR ''e'' fmt_oentry,
      o_log_id = ref_serde CHR ''l'' fmt_log_id,
      o_committed = ref_option_serde (ref_serde CHR ''l'' fmt_log_id),
      o_vote = ref_serde CHR ''v'' fmt_u64,
      o_snapshot = ref_serde CHR ''s'' fmt_stored_snapshot,
      o_kvs = ref_serde CHR ''k'' fmt_kvs\<rparr>"

lemma ref_option_serde: "option_serde (ref_serde CHR ''l'' f) (ref_option_serde (ref_serde CHR ''l'' f))"
  by (simp add: option_serde_def ref_option_serde_def) (simp add: ref_serde_def ref_json_parse_def)

lemma ref_oenv_up: "oenv_up ref_oenv"
  by (simp add: oenv_up_def oenv_laws_def ref_oenv_def mem_rocksdb_laws mem_rocksdb_up ref_serde_laws
      ref_option_serde char_byte_def)

interpretation oref: openraft_env ref_oenv
  by unfold_locales (rule ref_oenv_up)

end
