(* ===== verification/Log_Store.thy ===== *)
theory Log_Store
  imports Openraft_Types
begin

section \<open>LogStore (src/placement-center/src/openraft/store/log_store.rs)\<close>

text \<open>
  The log of the openraft path: entries as JSON under their big-endian index in \<open>_raft_logs\<close>,
  vote, committed and last purged log id under fixed keys in \<open>_raft_store\<close>.  The state is the
  database; a method that writes returns it updated.  Iterator items do not fail; every other
  call of the database may.
\<close>

definition flush :: "('db, 'l, 'v, 'mem) oenv \<Rightarrow> 'db \<Rightarrow> error_subject \<Rightarrow> error_verb \<Rightarrow> 'db \<times> (storage_error + unit)" where
  "flush X db subject verb =
     (let (db', r) = db_flush_wal (o_rocks X) db in (db', map_err (SE_new subject verb) r))"

text \<open>\<open>put_cf(...).map_err(...)?; self.flush(...)?; Ok(())\<close>.\<close>

definition put_and_flush ::
  "('db, 'l, 'v, 'mem) oenv \<Rightarrow> 'db \<Rightarrow> string \<Rightarrow> bytes \<Rightarrow> (ext_error \<Rightarrow> storage_error) \<Rightarrow> error_subject \<Rightarrow>
   'db \<times> (storage_error + unit)" where
  "put_and_flush X db key value mk subject =
     (case db_put (o_rocks X) db raft_store_cf (str_bytes key) value of
        (db1, Inl e) \<Rightarrow> (db1, Inl (mk e))
      | (db1, Inr _) \<Rightarrow> flush X db1 subject VerbWrite)"

text \<open>\<open>get_cf(...).map_err(...)?.and_then(|v| serde_json::from_slice(&v).ok())\<close>.\<close>

definition get_stored ::
  "('db, 'l, 'v, 'mem) oenv \<Rightarrow> 'a serde \<Rightarrow> 'db \<Rightarrow> string \<Rightarrow> (ext_error \<Rightarrow> storage_error) \<Rightarrow>
   storage_error + 'a option" where
  "get_stored X S db key mk =
     (case db_get (o_rocks X) db raft_store_cf (str_bytes key) of
        Inl e \<Rightarrow> Inl (mk e)
      | Inr None \<Rightarrow> Inr None
      | Inr (Some v) \<Rightarrow> Inr (case js_from_slice S v of Inr a \<Rightarrow> Some a | Inl _ \<Rightarrow> None))"

definition get_last_purged :: "('db, 'l, 'v, 'mem) oenv \<Rightarrow> 'db \<Rightarrow> storage_error + 'l log_id option" where
  "get_last_purged X db = get_stored X (o_log_id X) db ''last_purged_log_id'' SE_read"

definition set_last_purged ::
  "('db, 'l, 'v, 'mem) oenv \<Rightarrow> 'db \<Rightarrow> 'l log_id \<Rightarrow> 'db \<times> (storage_error + unit) run" where
  "set_last_purged X db log_id =
     (case js_to_vec (o_log_id X) log_id of
        Inl _ \<Rightarrow> (db, Panic UnwrapErr)
      | Inr json \<Rightarrow>
          (let (db', r) = put_and_flush X db ''last_purged_log_id'' json SE_write SubjectStore
           in (db', Ret r)))"

definition set_committed ::
  "('db, 'l, 'v, 'mem) oenv \<Rightarrow> 'db \<Rightarrow> 'l log_id option \<Rightarrow> 'db \<times> (storage_error + unit) run" where
  "set_committed X db committed =
     (case js_to_vec (o_committed X) committed of
        Inl _ \<Rightarrow> (db, Panic UnwrapErr)
      | Inr json \<Rightarrow>
          (let (db', r) = put_and_flush X db ''committed'' json SE_write SubjectStore in (db', Ret r)))"

definition get_committed :: "('db, 'l, 'v, 'mem) oenv \<Rightarrow> 'db \<Rightarrow> storage_error + 'l log_id option" where
  "get_committed X db = get_stored X (o_log_id X) db ''committed'' SE_read"

definition set_vote ::
  "('db, 'l, 'v, 'mem) oenv \<Rightarrow> 'db \<Rightarrow> 'v \<Rightarrow> 'db \<times> (storage_error + unit) run" where
  "set_vote X db vote =
     (case js_to_vec (o_vote X) vote of
        Inl _ \<Rightarrow> (db, Panic UnwrapErr)
      | Inr json \<Rightarrow>
          (let (db', r) = put_and_flush X db ''vote'' json SE_write_vote SubjectVote in (db', Ret r)))"

definition get_vote :: "('db, 'l, 'v, 'mem) oenv \<Rightarrow> 'db \<Rightarrow> storage_error + 'v option" where
  "get_vote X db = get_stored X (o_vote X) db ''vote'' SE_write_vote"

subsection \<open>Reading the log\<close>

datatype bound = Included u64 | Excluded u64 | Unbounded

text \<open>\<open>RangeBounds::contains\<close>.\<close>

fun above_start :: "bound \<Rightarrow> u64 \<Rightarrow> bool" where
  "above_start (Included x) i \<longleftrightarrow> x \<le> i"
| "above_start (Excluded x) i \<longleftrightarrow> x < i"
| "above_start Unbounded i \<longleftrightarrow> True"

fun below_end :: "bound \<Rightarrow> u64 \<Rightarrow> bool" where
  "below_end (Included x) i \<longleftrightarrow> i \<le> x"
| "below_end (Excluded x) i \<longleftrightarrow> i < x"
| "below_end Unbounded i \<longleftrightarrow> True"

definition range_contains :: "bound \<times> bound \<Rightarrow> u64 \<Rightarrow> bool" where
  "range_contains r i \<longleftrightarrow> above_start (fst r) i \<and> below_end (snd r) i"

fun range_start :: "bound \<Rightarrow> bytes" where
  "range_start (Included x) = id_to_bin x"
| "range_start (Excluded x) = id_to_bin (x + 1)"
| "range_start Unbounded = id_to_bin 0"

text \<open>
  The iterator chain \<open>map\<close>, \<open>take_while\<close>, \<open>map\<close>, \<open>collect\<close>, item by item: an entry that does not
  parse fails the assertion, as does one that does not carry its key's index.
\<close>

fun scan_entries ::
  "('l, 'mem) oentry serde \<Rightarrow> bound \<times> bound \<Rightarrow> (bytes \<times> bytes) list \<Rightarrow> ('l, 'mem) oentry list run" where
  "scan_entries S r [] = Ret []"
| "scan_entries S r ((k, val) # items) =
     (case bin_to_id k of
        Panic p \<Rightarrow> Panic p
      | Ret i \<Rightarrow>
          (case js_from_slice S val of
             Inl _ \<Rightarrow> Panic AssertFailed
           | Inr e \<Rightarrow>
               (if li_index (oe_log_id e) \<noteq> i then Panic AssertFailed
                else if \<not> range_contains r i then Ret []
                else (case scan_entries S r items of
                        Panic p \<Rightarrow> Panic p
                      | Ret es \<Rightarrow> Ret (e # es)))))"

definition try_get_log_entries ::
  "('db, 'l, 'v, 'mem) oenv \<Rightarrow> 'db \<Rightarrow> bound \<times> bound \<Rightarrow> (storage_error + ('l, 'mem) oentry list) run" where
  "try_get_log_entries X db r =
     (case scan_entries (o_entry X) r (db_seek (o_rocks X) db raft_logs_cf (range_start (fst r))) of
        Panic p \<Rightarrow> Panic p
      | Ret es \<Rightarrow> Ret (Inr es))"

definition read_vote :: "('db, 'l, 'v, 'mem) oenv \<Rightarrow> 'db \<Rightarrow> storage_error + 'v option" where
  "read_vote X db = get_vote X db"

subsection \<open>RaftLogStorage\<close>

record 'l log_state =
  ls_last_purged_log_id :: "'l log_id option"
  ls_last_log_id :: "'l log_id option"

text \<open>The first item of an iteration from the end: the last entry of the family.\<close>

definition last_item :: "(bytes \<times> bytes) list \<Rightarrow> (bytes \<times> bytes) option" where
  "last_item items = (if items = [] then None else Some (last items))"

definition get_log_state :: "('db, 'l, 'v, 'mem) oenv \<Rightarrow> 'db \<Rightarrow> storage_error + 'l log_state" where
  "get_log_state X db =
     (let last_id =
        (case last_item (db_seek (o_rocks X) db raft_logs_cf []) of
           None \<Rightarrow> None
         | Some (_, ent) \<Rightarrow>
             (case js_from_slice (o_entry X) ent of Inr e \<Rightarrow> Some (oe_log_id e) | Inl _ \<Rightarrow> None))
      in (case get_last_purged X db of
            Inl e \<Rightarrow> Inl e
          | Inr purged \<Rightarrow>
              Inr \<lparr>ls_last_purged_log_id = purged,
                   ls_last_log_id = (case last_id of None \<Rightarrow> purged | Some x \<Rightarrow> Some x)\<rparr>))"

definition save_committed ::
  "('db, 'l, 'v, 'mem) oenv \<Rightarrow> 'db \<Rightarrow> 'l log_id option \<Rightarrow> 'db \<times> (storage_error + unit) run" where
  "save_committed X db committed = set_committed X db committed"

definition read_committed :: "('db, 'l, 'v, 'mem) oenv \<Rightarrow> 'db \<Rightarrow> storage_error + 'l log_id option" where
  "read_committed X db = get_committed X db"

definition save_vote ::
  "('db, 'l, 'v, 'mem) oenv \<Rightarrow> 'db \<Rightarrow> 'v \<Rightarrow> 'db \<times> (storage_error + unit) run" where
  "save_vote X db vote = set_vote X db vote"

text \<open>\<open>append\<close>: the callback is invoked after the last write, so exactly when \<open>Ok\<close> is returned.\<close>

fun log_append ::
  "('db, 'l, 'v, 'mem) oenv \<Rightarrow> 'db \<Rightarrow> ('l, 'mem) oentry list \<Rightarrow> 'db \<times> (storage_error + unit) run" where
  "log_append X db [] = (db, Ret (Inr ()))"
| "log_append X db (e # es) =
     (let i = id_to_bin (li_index (oe_log_id e)) in
      (case bin_to_id i of
         Panic p \<Rightarrow> (db, Panic p)
       | Ret j \<Rightarrow>
           (if j \<noteq> li_index (oe_log_id e) then (db, Panic AssertFailed)
            else (case js_to_vec (o_entry X) e of
                    Inl err \<Rightarrow> (db, Ret (Inl (SE_write_logs err)))
                  | Inr json \<Rightarrow>
                      (case db_put (o_rocks X) db raft_logs_cf i json of
                         (db1, Inl err) \<Rightarrow> (db1, Ret (Inl (SE_write_logs err)))
                       | (db1, Inr _) \<Rightarrow> log_append X db1 es)))))"

definition truncate :: "('db, 'l, 'v, 'mem) oenv \<Rightarrow> 'db \<Rightarrow> 'l log_id \<Rightarrow> 'db \<times> (storage_error + unit)" where
  "truncate X db log_id =
     (let (db', r) = db_delete_range (o_rocks X) db raft_logs_cf (id_to_bin (li_index log_id))
            (id_to_bin 0xffffffffffffffff)
      in (db', map_err SE_write_logs r))"

definition purge :: "('db, 'l, 'v, 'mem) oenv \<Rightarrow> 'db \<Rightarrow> 'l log_id \<Rightarrow> 'db \<times> (storage_error + unit) run" where
  "purge X db log_id =
     bind_run (set_last_purged X db log_id) (\<lambda>db1 r.
       (case r of
          Inl e \<Rightarrow> (db1, Ret (Inl e))
        | Inr _ \<Rightarrow>
            (let (db2, r2) = db_delete_range (o_rocks X) db1 raft_logs_cf (id_to_bin 0)
                   (id_to_bin (li_index log_id + 1))
             in (db2, Ret (map_err SE_write_logs r2)))))"

end
