(* ===== verification/Log_Store_Props.thy ===== *)
theory Log_Store_Props
  imports Log_Store
begin

section \<open>The openraft log as a map from indexes to entries\<close>

text \<open>
  The abstraction of \<^verbatim>\<open>Log_Store\<close>: the entry at an index, the set of indexes present, and a
  well-formedness predicate; every operation of the log is a simple operation on that map.
\<close>

abbreviation oindex :: "('l, 'mem) oentry \<Rightarrow> u64" where
  "oindex e \<equiv> li_index (oe_log_id e)"

definition olog_at :: "('db, 'l, 'v, 'mem) oenv \<Rightarrow> 'db \<Rightarrow> u64 \<Rightarrow> ('l, 'mem) oentry option" where
  "olog_at X db i =
     (case db_view (o_rocks X) db raft_logs_cf (id_to_bin i) of
        None \<Rightarrow> None
      | Some b \<Rightarrow> (case js_from_slice (o_entry X) b of Inr e \<Rightarrow> Some e | Inl _ \<Rightarrow> None))"

definition oids :: "('db, 'l, 'v, 'mem) oenv \<Rightarrow> 'db \<Rightarrow> u64 list" where
  "oids X db = sorted_list_of_set {i. olog_at X db i \<noteq> None}"

text \<open>Every key is the key of an index and holds an entry of that index.\<close>

definition olog_ok :: "('db, 'l, 'v, 'mem) oenv \<Rightarrow> 'db \<Rightarrow> bool" where
  "olog_ok X db \<longleftrightarrow>
     (\<forall>k b. db_view (o_rocks X) db raft_logs_cf k = Some b \<longrightarrow>
        (\<exists>e. k = id_to_bin (oindex e) \<and> js_from_slice (o_entry X) b = Inr e))"

lemma finite_u64 [simp]: "finite (A :: u64 set)"
  by (rule finite_subset [OF subset_UNIV finite])

lemma olog_ok_cong:
  "(\<And>k. db_view (o_rocks X) db' raft_logs_cf k = db_view (o_rocks X) db raft_logs_cf k) \<Longrightarrow>
     olog_ok X db' = olog_ok X db \<and> olog_at X db' = olog_at X db"
  by (simp add: olog_ok_def olog_at_def fun_eq_iff)

lemma sorted_le_last: "sorted xs \<Longrightarrow> x \<in> set xs \<Longrightarrow> x \<le> last xs"
  by (cases xs rule: rev_cases) (auto simp: sorted_append)

lemma sorted_map_id: "sorted (map id_to_bin xs) \<longleftrightarrow> sorted xs"
  by (simp add: sorted_map)

text \<open>One cell of the store family written, everything else as before.\<close>

definition cell_written ::
  "('db, 'l, 'v, 'mem) oenv \<Rightarrow> 'db \<Rightarrow> string \<Rightarrow> bytes \<Rightarrow> 'db \<Rightarrow> bool" where
  "cell_written X db key v db' \<longleftrightarrow>
     db_view (o_rocks X) db' = (db_view (o_rocks X) db)
       (raft_store_cf := (db_view (o_rocks X) db raft_store_cf)(str_bytes key \<mapsto> v))"

lemma olog_at_cell: "cell_written X db key v db' \<Longrightarrow> olog_at X db' = olog_at X db"
  by (simp add: cell_written_def olog_at_def fun_eq_iff)

lemma olog_ok_cell: "cell_written X db key v db' \<Longrightarrow> olog_ok X db' = olog_ok X db"
  by (simp add: cell_written_def olog_ok_def)

lemma olog_at_view:
  assumes "olog_ok X db" and "db_view (o_rocks X) db raft_logs_cf (id_to_bin i) = Some b"
  shows "\<exists>e. olog_at X db i = Some e \<and> js_from_slice (o_entry X) b = Inr e \<and> oindex e = i"
  using assms unfolding olog_ok_def olog_at_def by fastforce

context openraft_env
begin

lemma dom_logs:
  "olog_ok X db \<Longrightarrow> dom (db_view (o_rocks X) db raft_logs_cf) = id_to_bin ` {i. olog_at X db i \<noteq> None}"
proof (intro equalityI subsetI)
  fix k assume ok: "olog_ok X db" and "k \<in> dom (db_view (o_rocks X) db raft_logs_cf)"
  then obtain b where b: "db_view (o_rocks X) db raft_logs_cf k = Some b" by blast
  then obtain e where "k = id_to_bin (oindex e)" "js_from_slice (o_entry X) b = Inr e"
    using ok unfolding olog_ok_def by blast
  with b show "k \<in> id_to_bin ` {i. olog_at X db i \<noteq> None}" by (auto simp: olog_at_def)
next
  fix k assume "k \<in> id_to_bin ` {i. olog_at X db i \<noteq> None}"
  then show "k \<in> dom (db_view (o_rocks X) db raft_logs_cf)"
    by (auto simp: olog_at_def split: option.splits)
qed

lemma own_oindex: "olog_ok X db \<Longrightarrow> olog_at X db i = Some e \<Longrightarrow> oindex e = i"
  using olog_at_view [of X db i] by (cases "db_view (o_rocks X) db raft_logs_cf (id_to_bin i)")
    (force simp: olog_at_def)+

text \<open>Iterating from an index: the present indexes from it on, in order.\<close>

lemma seek_logs:
  assumes ok: "olog_ok X db"
  shows "db_seek (o_rocks X) db raft_logs_cf (id_to_bin s) =
     map (\<lambda>i. (id_to_bin i, the (db_view (o_rocks X) db raft_logs_cf (id_to_bin i))))
       (filter (\<lambda>i. s \<le> i) (oids X db))"
proof -
  let ?I = "{i. olog_at X db i \<noteq> None}"
  have "{k \<in> dom (db_view (o_rocks X) db raft_logs_cf). id_to_bin s \<le> k} = id_to_bin ` {i \<in> ?I. s \<le> i}"
    by (auto simp: dom_logs [OF ok])
  moreover have "sorted_list_of_set (id_to_bin ` {i \<in> ?I. s \<le> i}) =
      map id_to_bin (sorted_list_of_set {i \<in> ?I. s \<le> i})"
    by (rule sorted_distinct_set_unique) (auto simp: sorted_map_id distinct_map inj_on_def)
  moreover have "sorted_list_of_set {i \<in> ?I. s \<le> i} = filter (\<lambda>i. s \<le> i) (oids X db)"
    unfolding oids_def by (rule sorted_distinct_set_unique) (auto simp: sorted_wrt_filter)
  ultimately show ?thesis by (simp add: seek_eq entries_from_def comp_def)
qed

lemma id_zero_least: "id_to_bin 0 \<le> id_to_bin i"
  by simp

lemma seek_all_logs:
  assumes ok: "olog_ok X db"
  shows "db_seek (o_rocks X) db raft_logs_cf [] = db_seek (o_rocks X) db raft_logs_cf (id_to_bin 0)"
proof -
  have "{k \<in> dom (db_view (o_rocks X) db raft_logs_cf). [] \<le> k} =
      {k \<in> dom (db_view (o_rocks X) db raft_logs_cf). id_to_bin 0 \<le> k}"
    by (auto simp: dom_logs [OF ok])
  then show ?thesis by (simp add: seek_eq entries_from_def)
qed

lemma scan_entries_eq:
  assumes ok: "olog_ok X db" and "\<forall>i \<in> set is. olog_at X db i \<noteq> None"
  shows "scan_entries (o_entry X) r
      (map (\<lambda>i. (id_to_bin i, the (db_view (o_rocks X) db raft_logs_cf (id_to_bin i)))) is) =
     Ret (map (\<lambda>i. the (olog_at X db i)) (takeWhile (range_contains r) is))"
  using assms(2)
proof (induction "is")
  case Nil
  then show ?case by simp
next
  case (Cons i "is")
  then obtain b where b: "db_view (o_rocks X) db raft_logs_cf (id_to_bin i) = Some b"
    by (auto simp: olog_at_def split: option.splits)
  from olog_at_view [OF ok b] obtain e where e: "olog_at X db i = Some e"
    "js_from_slice (o_entry X) b = Inr e" "oindex e = i" by blast
  from Cons have "scan_entries (o_entry X) r
      (map (\<lambda>i. (id_to_bin i, the (db_view (o_rocks X) db raft_logs_cf (id_to_bin i)))) is) =
     Ret (map (\<lambda>i. the (olog_at X db i)) (takeWhile (range_contains r) is))" by simp
  then show ?case by (simp add: b e)
qed

lemma range_take:
  assumes "sorted is" and "\<forall>i \<in> set is. above_start (fst r) i"
  shows "takeWhile (range_contains r) is = filter (range_contains r) is"
proof (rule takeWhile_sorted_filter [OF assms(1)])
  fix x y assume "x \<in> set is" "x \<le> y" "range_contains r y"
  then show "range_contains r x"
    using assms(2) by (cases "snd r") (auto simp: range_contains_def)
qed

lemma try_get_up:
  assumes ok: "olog_ok X db"
  shows "try_get_log_entries X db r =
     Ret (Inr (map (\<lambda>i. the (olog_at X db i)) (filter (range_contains r) (oids X db))))"
proof -
  have sorted: "sorted (oids X db)" by (simp add: oids_def)
  have present: "\<forall>i \<in> set (filter P (oids X db)). olog_at X db i \<noteq> None" for P
    by (simp add: oids_def)
  have scan: "scan_entries (o_entry X) r (db_seek (o_rocks X) db raft_logs_cf (id_to_bin s)) =
      Ret (map (\<lambda>i. the (olog_at X db i)) (takeWhile (range_contains r) (filter (\<lambda>i. s \<le> i) (oids X db))))" for s
    unfolding seek_logs [OF ok] by (rule scan_entries_eq [OF ok present])
  have take: "takeWhile (range_contains r) (filter (\<lambda>i. s \<le> i) (oids X db)) = filter (range_contains r) (oids X db)"
    if "\<And>i. s \<le> i \<longleftrightarrow> above_start (fst r) i" for s
  proof -
    have "takeWhile (range_contains r) (filter (\<lambda>i. s \<le> i) (oids X db)) =
        filter (range_contains r) (filter (\<lambda>i. s \<le> i) (oids X db))"
      by (rule range_take) (use that sorted in \<open>auto simp: sorted_wrt_filter\<close>)
    also have "\<dots> = filter (range_contains r) (oids X db)"
      by (auto simp: that range_contains_def intro: filter_cong)
    finally show ?thesis .
  qed
  show ?thesis
  proof (cases "fst r")
    case (Included x)
    then show ?thesis using scan [of x] take [of x] by (simp add: try_get_log_entries_def)
  next
    case Unbounded
    then show ?thesis using scan [of 0] take [of 0] by (simp add: try_get_log_entries_def)
  next
    case (Excluded x)
    show ?thesis
    proof (cases "x = - 1")
      case True
      have none: "\<not> range_contains r i" for i
        using Excluded True word_order.extremum_strict [of i] by (simp add: range_contains_def)
      then have "takeWhile (range_contains r) xs = []" "filter (range_contains r) xs = []" for xs
        by (cases xs; simp add: filter_empty_conv)+
      then show ?thesis using Excluded scan [of "x + 1"] by (simp add: try_get_log_entries_def)
    next
      case False
      then have "unat (x + 1) = unat x + 1" by (rule unat_succ)
      then have "x + 1 \<le> i \<longleftrightarrow> x < i" for i by (auto simp: word_le_nat_alt word_less_nat_alt)
      then show ?thesis
        using Excluded scan [of "x + 1"] take [of "x + 1"] by (simp add: try_get_log_entries_def)
    qed
  qed
qed

subsection \<open>Writing the log\<close>

lemma log_append_effect:
  "\<exists>db'. log_append X db es = (db', Ret (Inr ())) \<and>
     (\<forall>cf k. cf \<noteq> raft_logs_cf \<longrightarrow> db_view (o_rocks X) db' cf k = db_view (o_rocks X) db cf k) \<and>
     olog_at X db' = log_override oindex es (olog_at X db) \<and>
     (olog_ok X db \<longrightarrow> olog_ok X db')"
proof (induction es arbitrary: db)
  case Nil
  then show ?case by simp
next
  case (Cons e es)
  let ?k = "id_to_bin (oindex e)" and ?v = "str_bytes (js_text (o_entry X) e)"
  let ?db1 = "fst (db_put (o_rocks X) db raft_logs_cf ?k ?v)"
  have step: "log_append X db (e # es) = log_append X ?db1 es"
    using put_ok [of db raft_logs_cf ?k ?v]
    by (cases "db_put (o_rocks X) db raft_logs_cf ?k ?v") (simp add: Let_def to_vec_text)
  have view: "db_view (o_rocks X) ?db1 =
      (db_view (o_rocks X) db)(raft_logs_cf := (db_view (o_rocks X) db raft_logs_cf)(?k \<mapsto> ?v))"
    by (rule view_put)
  have at: "olog_at X ?db1 = (olog_at X db)(oindex e \<mapsto> e)"
    by (rule ext) (simp add: olog_at_def view from_slice_text)
  have ok: "olog_ok X db \<longrightarrow> olog_ok X ?db1"
    by (auto simp: olog_ok_def view from_slice_text)
  have other: "cf \<noteq> raft_logs_cf \<longrightarrow> db_view (o_rocks X) ?db1 cf k = db_view (o_rocks X) db cf k" for cf k
    by (simp add: view)
  from Cons.IH [of ?db1] obtain db' where db': "log_append X ?db1 es = (db', Ret (Inr ()))"
    "\<forall>cf k. cf \<noteq> raft_logs_cf \<longrightarrow> db_view (o_rocks X) db' cf k = db_view (o_rocks X) ?db1 cf k"
    "olog_at X db' = log_override oindex es (olog_at X ?db1)"
    "olog_ok X ?db1 \<longrightarrow> olog_ok X db'" by blast
  show ?case
    by (rule exI [of _ db']) (use db' step at ok other in simp)
qed

lemma delete_range_effect:
  assumes ok: "olog_ok X db"
    and view: "db_view (o_rocks X) db' = (db_view (o_rocks X) db)(raft_logs_cf :=
      (\<lambda>k. if id_to_bin a \<le> k \<and> k < id_to_bin b then None else db_view (o_rocks X) db raft_logs_cf k))"
  shows "olog_at X db' i = (if a \<le> i \<and> i < b then None else olog_at X db i)" and "olog_ok X db'"
  using ok by (auto simp: olog_at_def olog_ok_def view)

lemma truncate_effect:
  assumes "olog_ok X db"
  shows "\<exists>db'. truncate X db l = (db', Inr ()) \<and> olog_ok X db' \<and>
     (\<forall>i. olog_at X db' i = (if li_index l \<le> i \<and> i < - 1 then None else olog_at X db i)) \<and>
     (\<forall>k. db_view (o_rocks X) db' raft_store_cf k = db_view (o_rocks X) db raft_store_cf k)"
proof -
  let ?m = "0xffffffffffffffff :: u64"
  let ?d = "db_delete_range (o_rocks X) db raft_logs_cf (id_to_bin (li_index l)) (id_to_bin ?m)"
  have m: "?m = - 1" by simp
  have t: "truncate X db l = (fst ?d, Inr ())"
    by (simp add: truncate_def Let_def case_prod_beta delete_range_ok del: m)
  note view = view_delete_range [of db raft_logs_cf "id_to_bin (li_index l)" "id_to_bin ?m"]
  note e = delete_range_effect [OF assms view]
  show ?thesis
    unfolding t using e view by (auto simp: m)
qed

lemma put_and_flush_effect:
  "\<exists>db'. put_and_flush X db key value mk subject = (db', Inr ()) \<and>
     db_view (o_rocks X) db' = (db_view (o_rocks X) db)
       (raft_store_cf := (db_view (o_rocks X) db raft_store_cf)(str_bytes key \<mapsto> value))"
proof -
  let ?p = "db_put (o_rocks X) db raft_store_cf (str_bytes key) value"
  have "put_and_flush X db key value mk subject = (fst (db_flush_wal (o_rocks X) (fst ?p)), Inr ())"
    using put_ok [of db raft_store_cf "str_bytes key" "value"] flush_ok
    by (cases ?p) (simp add: put_and_flush_def flush_def Let_def case_prod_beta)
  then show ?thesis by (simp add: view_put)
qed

lemma set_last_purged_effect:
  "\<exists>db'. set_last_purged X db l = (db', Ret (Inr ())) \<and>
     db_view (o_rocks X) db' = (db_view (o_rocks X) db)
       (raft_store_cf := (db_view (o_rocks X) db raft_store_cf)
          (str_bytes ''last_purged_log_id'' \<mapsto> str_bytes (js_text (o_log_id X) l)))"
  using put_and_flush_effect [of db "''last_purged_log_id''" "str_bytes (js_text (o_log_id X) l)" SE_write SubjectStore]
  by (auto simp: set_last_purged_def to_vec_text)

lemma get_last_purged_view:
  "get_last_purged X db =
     Inr (case db_view (o_rocks X) db raft_store_cf (str_bytes ''last_purged_log_id'') of
       None \<Rightarrow> None
     | Some v \<Rightarrow> (case js_from_slice (o_log_id X) v of Inr a \<Rightarrow> Some a | Inl _ \<Rightarrow> None))"
  by (simp add: get_last_purged_def get_stored_def get_eq split: option.split)

lemma purge_effect:
  assumes "olog_ok X db" and "li_index l < - 1"
  shows "\<exists>db'. purge X db l = (db', Ret (Inr ())) \<and> olog_ok X db' \<and>
     get_last_purged X db' = Inr (Some l) \<and>
     (\<forall>i. olog_at X db' i = (if i \<le> li_index l then None else olog_at X db i)) \<and>
     (\<forall>key. key \<noteq> ''last_purged_log_id'' \<longrightarrow>
        db_view (o_rocks X) db' raft_store_cf (str_bytes key) = db_view (o_rocks X) db raft_store_cf (str_bytes key))"
proof -
  from set_last_purged_effect [of db l] obtain db1 where db1: "set_last_purged X db l = (db1, Ret (Inr ()))"
    "db_view (o_rocks X) db1 = (db_view (o_rocks X) db)
       (raft_store_cf := (db_view (o_rocks X) db raft_store_cf)
          (str_bytes ''last_purged_log_id'' \<mapsto> str_bytes (js_text (o_log_id X) l)))" by blast
  have c: "olog_ok X db1" "olog_at X db1 = olog_at X db"
    using olog_ok_cong [of X db1 db] assms(1) by (simp_all add: db1(2))
  let ?d = "db_delete_range (o_rocks X) db1 raft_logs_cf (id_to_bin 0) (id_to_bin (li_index l + 1))"
  have p: "purge X db l = (fst ?d, Ret (Inr ()))"
    by (simp add: purge_def db1(1) Let_def case_prod_beta delete_range_ok)
  note view = view_delete_range [of db1 raft_logs_cf "id_to_bin 0" "id_to_bin (li_index l + 1)"]
  note e = delete_range_effect [OF c(1) view]
  have "li_index l \<noteq> - 1" using assms(2) by auto
  then have "unat (li_index l + 1) = unat (li_index l) + 1" by (rule unat_succ)
  then have "i < li_index l + 1 \<longleftrightarrow> i \<le> li_index l" for i
    by (auto simp: word_less_nat_alt word_le_nat_alt)
  then show ?thesis
    unfolding p using e c(2)
    by (simp add: get_last_purged_view view db1(2) from_slice_text)
qed

lemma log_state_up:
  assumes ok: "olog_ok X db"
  shows "get_log_state X db = Inr
     (let purged = projr (get_last_purged X db) in
      \<lparr>ls_last_purged_log_id = purged,
       ls_last_log_id = (if oids X db = [] then purged
                         else Some (oe_log_id (the (olog_at X db (last (oids X db))))))\<rparr>)"
proof -
  obtain purged where p: "get_last_purged X db = Inr purged" by (simp add: get_last_purged_view)
  have items: "db_seek (o_rocks X) db raft_logs_cf [] =
     map (\<lambda>i. (id_to_bin i, the (db_view (o_rocks X) db raft_logs_cf (id_to_bin i)))) (oids X db)"
    using seek_all_logs [OF ok] seek_logs [OF ok, of 0] by simp
  show ?thesis
  proof (cases "oids X db = []")
    case True
    then show ?thesis by (simp add: get_log_state_def items last_item_def p)
  next
    case False
    let ?i = "last (oids X db)"
    have "?i \<in> set (oids X db)" using False by (rule last_in_set)
    then obtain b where b: "db_view (o_rocks X) db raft_logs_cf (id_to_bin ?i) = Some b"
      by (auto simp: oids_def olog_at_def split: option.splits)
    from olog_at_view [OF ok b] False show ?thesis
      by (auto simp: get_log_state_def items last_item_def p last_map b)
  qed
qed

lemma get_stored_cell:
  "cell_written X db key v db' \<Longrightarrow>
     get_stored X S db' key mk = Inr (case js_from_slice S v of Inr a \<Rightarrow> Some a | Inl _ \<Rightarrow> None)"
  by (simp add: cell_written_def get_stored_def get_eq)

lemma get_stored_cong:
  "db_view (o_rocks X) db' raft_store_cf (str_bytes key) = db_view (o_rocks X) db raft_store_cf (str_bytes key) \<Longrightarrow>
     get_stored X S db' key mk = get_stored X S db key mk"
  by (simp add: get_stored_def get_eq)

lemma get_stored_other:
  "cell_written X db key v db' \<Longrightarrow> key' \<noteq> key \<Longrightarrow> get_stored X S db' key' mk = get_stored X S db key' mk"
  by (rule get_stored_cong) (simp add: cell_written_def)

lemma put_and_flush_cell:
  "\<exists>db'. put_and_flush X db key v mk subject = (db', Inr ()) \<and> cell_written X db key v db'"
  unfolding cell_written_def by (rule put_and_flush_effect)

lemma save_vote_effect:
  "\<exists>db'. save_vote X db v = (db', Ret (Inr ())) \<and>
     cell_written X db ''vote'' (str_bytes (js_text (o_vote X) v)) db'"
  using put_and_flush_cell [of db "''vote''" "str_bytes (js_text (o_vote X) v)" SE_write_vote SubjectVote]
  by (auto simp: save_vote_def set_vote_def to_vec_text)

lemma save_committed_effect:
  "\<exists>db' json. save_committed X db c = (db', Ret (Inr ())) \<and> cell_written X db ''committed'' json db' \<and>
     (case js_from_slice (o_log_id X) json of Inr a \<Rightarrow> Some a | Inl _ \<Rightarrow> None) = c"
proof -
  obtain json where json: "js_to_vec (o_committed X) c = Inr json"
    "(case js_from_slice (o_log_id X) json of Inr a \<Rightarrow> Some a | Inl _ \<Rightarrow> None) = c"
  proof (cases c)
    case None
    then show ?thesis
      using that committed_json(2,3) by (cases "js_from_slice (o_log_id X) (str_bytes ''null'')") auto
  next
    case (Some l)
    then show ?thesis using that by (simp add: committed_json(1) to_vec_text from_slice_text)
  qed
  with put_and_flush_cell [of db "''committed''" json SE_write SubjectStore] show ?thesis
    by (auto simp: save_committed_def set_committed_def)
qed

lemma view_put_flush_other:
  "put_and_flush X db key json mk subject = (db', r) \<Longrightarrow>
     db_view (o_rocks X) db' raft_logs_cf k = db_view (o_rocks X) db raft_logs_cf k"
  using put_and_flush_effect [of db key json mk subject] by auto

end

sublocale openraft_env \<subseteq> olog: replicated_log "\<lambda>db es. fst (log_append X db es)" "olog_at X"
  "\<lambda>e. li_index (oe_log_id e)" "olog_ok X" "\<lambda>_ _. True"
proof unfold_locales
  fix db es assume ok: "olog_ok X db"
  from log_append_effect [of db es] ok show "olog_ok X (fst (log_append X db es))" by auto
  from log_append_effect [of db es]
  show "olog_at X (fst (log_append X db es)) = log_override oindex es (olog_at X db)" by auto
qed

context openraft_env
begin

lemmas olog_behaviour = olog.read_back olog.stays_full olog.own_index

end

subsection \<open>A concrete log\<close>

definition ref_oentry :: "u64 \<Rightarrow> u64 entry_payload \<Rightarrow> (u64, u64) oentry" where
  "ref_oentry i p = \<lparr>oe_log_id = \<lparr>li_leader_id = 1, li_index = i\<rparr>, oe_payload = p\<rparr>"

definition ref_oentries :: "(u64, u64) oentry list" where
  "ref_oentries = [ref_oentry 1 Blank, ref_oentry 2 (Normal (Set ''k1'' ''a'')),
     ref_oentry 3 (Normal (Delete ''k1''))]"

definition ref_olog :: mem_db where
  "ref_olog = fst (log_append ref_oenv [] ref_oentries)"

lemma ref_oentry_index [simp]: "oindex (ref_oentry i p) = i"
  by (simp add: ref_oentry_def)

lemma ref_olog_Nil [simp]: "olog_ok ref_oenv []" "olog_at ref_oenv [] i = None"
  by (simp_all add: olog_ok_def olog_at_def ref_oenv_def)

lemma ref_olog_facts [simp]:
  "olog_ok ref_oenv ref_olog"
  "olog_at ref_oenv ref_olog = log_override oindex ref_oentries (\<lambda>i. None)"
proof -
  show "olog_ok ref_oenv ref_olog" unfolding ref_olog_def by (rule oref.olog.app_ok) simp_all
  have "olog_at ref_oenv [] = (\<lambda>i. None)" by (rule ext) simp
  then show "olog_at ref_oenv ref_olog = log_override oindex ref_oentries (\<lambda>i. None)"
    unfolding ref_olog_def by (subst oref.olog.app_at) simp_all
qed

lemma ref_oentries_batch: "batch oindex 1 ref_oentries"
  by (simp add: batch_def ref_oentries_def nth_Cons split: nat.splits)

subsection \<open>Properties\<close>

text \<open>
  Reading a range of the openraft log returns exactly the entries whose index lies in the range,
  in index order, for every kind of bound at either end, without panicking.
\<close>

lemma log_read_exact:
  assumes "oenv_up X" and "olog_ok X db"
  shows "try_get_log_entries X db r =
     Ret (Inr (map (\<lambda>i. the (olog_at X db i)) (filter (range_contains r) (oids X db))))"
  by (rule openraft_env.try_get_up [OF openraft_env.intro [OF assms(1)] assms(2)])

lemma log_read_exact_witness:
  "try_get_log_entries ref_oenv ref_olog (Excluded 1, Unbounded) =
     Ret (Inr (map (\<lambda>i. the (olog_at ref_oenv ref_olog i))
       (filter (range_contains (Excluded 1, Unbounded)) (oids ref_oenv ref_olog))))"
  by (rule log_read_exact [OF ref_oenv_up ref_olog_facts(1)])

text \<open>
  Appending overrides the log by the batch, keeps it well formed, and touches nothing outside the
  log; what was appended reads back: the range of a batch of consecutive indexes returns the
  batch itself.
\<close>

lemma log_append_reads_back:
  assumes "oenv_up X" and "olog_ok X db" and "batch oindex k es" and "es \<noteq> []"
  shows "\<exists>db'. log_append X db es = (db', Ret (Inr ())) \<and> olog_ok X db' \<and>
     olog_at X db' = log_override oindex es (olog_at X db) \<and>
     read_vote X db' = read_vote X db \<and>
     try_get_log_entries X db' (Included k, Included (oindex (last es))) = Ret (Inr es)"
proof -
  note env = openraft_env.intro [OF assms(1)]
  from openraft_env.log_append_effect [OF env, of db es] obtain db' where
    db': "log_append X db es = (db', Ret (Inr ()))"
      "\<forall>cf k. cf \<noteq> raft_logs_cf \<longrightarrow> db_view (o_rocks X) db' cf k = db_view (o_rocks X) db cf k"
      "olog_at X db' = log_override oindex es (olog_at X db)" "olog_ok X db'"
    using assms(2) by blast
  note R = openraft_env.oenv_rocks [OF env]
  have run: "rocksdb_running (o_rocks X)"
    by (rule rocksdb_running.intro [OF rocksdb_crate.intro [OF R(1)] rocksdb_running_axioms.intro [OF R(2)]])
  have vote: "read_vote X db' = read_vote X db"
    using db'(2) by (simp add: read_vote_def get_vote_def get_stored_def rocksdb_running.get_eq [OF run])
  let ?r = "(Included k, Included (oindex (last es)))"
  have idx: "unat (oindex (es ! j)) = unat k + j" if "j < length es" for j
    using assms(3) that by (simp add: batch_def)
  have len: "unat (oindex (last es)) + 1 = unat k + length es"
    using batch_last [OF assms(3,4)] assms(4) by (cases es) simp_all
  have at: "olog_at X db' (oindex (es ! j)) = Some (es ! j)" if "j < length es" for j
    using that by (simp add: db'(3) log_override_batch [OF assms(3)] idx)
  have set: "set (map oindex es) = {i. range_contains ?r i}"
  proof (intro equalityI subsetI)
    fix i assume "i \<in> set (map oindex es)"
    then obtain j where "j < length es" "i = oindex (es ! j)" by (auto simp: in_set_conv_nth)
    then show "i \<in> {i. range_contains ?r i}"
      using idx [of j] len by (simp add: range_contains_def word_le_nat_alt)
  next
    fix i assume "i \<in> {i. range_contains ?r i}"
    then have i: "unat k \<le> unat i" "unat i - unat k < length es"
      using len by (auto simp: range_contains_def word_le_nat_alt)
    then have "unat (oindex (es ! (unat i - unat k))) = unat i" using idx by simp
    then have "oindex (es ! (unat i - unat k)) = i" by (simp add: word_unat_eq_iff)
    then show "i \<in> set (map oindex es)" using i(2) by (metis length_map nth_map nth_mem)
  qed
  have sorted: "sorted (map oindex es)" and dist: "distinct (map oindex es)"
    using idx by (auto simp: sorted_iff_nth_mono word_le_nat_alt distinct_conv_nth word_unat_eq_iff)
  have mem: "i \<in> set (map oindex es) \<Longrightarrow> olog_at X db' i \<noteq> None" for i
    using at by (auto simp: in_set_conv_nth)
  have "filter (range_contains ?r) (oids X db') = map oindex es"
  proof (rule sorted_distinct_set_unique [OF _ _ sorted dist])
    show "sorted (filter (range_contains ?r) (oids X db'))" "distinct (filter (range_contains ?r) (oids X db'))"
      by (simp_all add: oids_def sorted_wrt_filter)
    show "set (filter (range_contains ?r) (oids X db')) = set (map oindex es)"
      using mem unfolding set by (auto simp: oids_def)
  qed
  moreover have "map (\<lambda>i. the (olog_at X db' i)) (map oindex es) = es"
    by (rule nth_equalityI) (simp_all add: at)
  ultimately have "try_get_log_entries X db' ?r = Ret (Inr es)"
    by (simp only: openraft_env.try_get_up [OF env db'(4)])
  with db' vote show ?thesis by blast
qed

lemma log_append_reads_back_witness:
  "\<exists>db'. log_append ref_oenv [] ref_oentries = (db', Ret (Inr ())) \<and>
     try_get_log_entries ref_oenv db' (Included 1, Included 3) = Ret (Inr ref_oentries)"
  using log_append_reads_back [OF ref_oenv_up ref_olog_Nil(1) ref_oentries_batch]
  by (auto simp: ref_oentries_def)

text \<open>
  C11: \<open>truncate(id)\<close> removes exactly the entries from \<open>id\<close> on and \<open>purge(id)\<close> exactly those up to
  \<open>id\<close>, which it records as the last purged log id; both keep the rest of the log and its
  well-formedness.  The exceptions are the largest index: truncation never removes it.
\<close>

theorem truncate_purge_cut:
  assumes "oenv_up X" and "olog_ok X db" and "li_index l < - 1"
  shows "(\<exists>db'. truncate X db l = (db', Inr ()) \<and> olog_ok X db' \<and>
      (\<forall>i. olog_at X db' i = (if li_index l \<le> i \<and> i \<noteq> - 1 then None else olog_at X db i))) \<and>
    (\<exists>db'. purge X db l = (db', Ret (Inr ())) \<and> olog_ok X db' \<and>
      (\<forall>i. olog_at X db' i = (if i \<le> li_index l then None else olog_at X db i)) \<and>
      get_last_purged X db' = Inr (Some l))"
proof -
  note env = openraft_env.intro [OF assms(1)]
  have lt: "i < - 1 \<longleftrightarrow> i \<noteq> - 1" for i :: u64
    using word_order.not_eq_extremum [of i] by auto
  show ?thesis
    using openraft_env.truncate_effect [OF env assms(2), of l]
      openraft_env.purge_effect [OF env assms(2,3)]
    by (auto simp: lt)
qed

lemma truncate_purge_cut_witness:
  "\<exists>db'. truncate ref_oenv ref_olog \<lparr>li_leader_id = 1, li_index = 2\<rparr> = (db', Inr ()) \<and>
     olog_at ref_oenv db' 3 = None \<and> olog_at ref_oenv db' 1 = Some (ref_oentry 1 Blank)"
proof -
  have "li_index \<lparr>li_leader_id = (1 :: u64), li_index = 2\<rparr> < - 1" by simp
  from conjunct1 [OF truncate_purge_cut [OF ref_oenv_up ref_olog_facts(1) this]]
  obtain db' where db': "truncate ref_oenv ref_olog \<lparr>li_leader_id = 1, li_index = 2\<rparr> = (db', Inr ())"
    "\<forall>i. olog_at ref_oenv db' i = (if 2 \<le> i \<and> i \<noteq> - 1 then None else olog_at ref_oenv ref_olog i)"
    by auto
  have "olog_at ref_oenv ref_olog 1 = Some (ref_oentry 1 Blank)"
    using ref_olog_facts by (simp add: ref_oentries_def)
  with db' show ?thesis by (simp add: word_le_nat_alt)
qed

text \<open>
  \<open>get_log_state\<close> reports the last purged log id and, as the last log id, that of the entry with
  the largest index, or the purged one when the log is empty.
\<close>

lemma log_state_correct:
  assumes "oenv_up X" and "olog_ok X db" and "get_last_purged X db = Inr purged"
  shows "get_log_state X db = Inr \<lparr>ls_last_purged_log_id = purged,
     ls_last_log_id = (if oids X db = [] then purged
       else Some (oe_log_id (the (olog_at X db (Max {i. olog_at X db i \<noteq> None})))))\<rparr>"
proof -
  have "last (oids X db) = Max {i. olog_at X db i \<noteq> None}" if "oids X db \<noteq> []"
  proof -
    let ?I = "{i. olog_at X db i \<noteq> None}"
    have ne: "?I \<noteq> {}" using that by (auto simp: oids_def)
    have "sorted (oids X db)" "set (oids X db) = ?I" by (simp_all add: oids_def)
    then show ?thesis
      using that sorted_le_last [of "oids X db"] Max_eqI [OF finite_u64 [of ?I], of "last (oids X db)"]
      by (metis last_in_set)
  qed
  then show ?thesis
    by (simp add: openraft_env.log_state_up [OF openraft_env.intro [OF assms(1)] assms(2)] assms(3) Let_def)
qed

lemma log_state_correct_witness:
  "get_log_state ref_oenv [] = Inr \<lparr>ls_last_purged_log_id = None, ls_last_log_id = None\<rparr>"
proof -
  have "get_last_purged ref_oenv [] = Inr None"
    by (simp add: oref.get_last_purged_view) (simp add: ref_oenv_def)
  from log_state_correct [OF ref_oenv_up ref_olog_Nil(1) this] show ?thesis
    by (simp add: oids_def)
qed

text \<open>
  What openraft must not lose survives: a saved vote and a saved committed position, an absent
  one included, read back from the database, and neither write disturbs the other or the log.
\<close>

lemma vote_and_committed_persist:
  assumes "oenv_up X"
  shows "(\<exists>db'. save_vote X db v = (db', Ret (Inr ())) \<and> read_vote X db' = Inr (Some v) \<and>
      read_committed X db' = read_committed X db \<and> olog_at X db' = olog_at X db) \<and>
    (\<exists>db'. save_committed X db c = (db', Ret (Inr ())) \<and> read_committed X db' = Inr c \<and>
      read_vote X db' = read_vote X db \<and> olog_at X db' = olog_at X db)"
proof -
  note env = openraft_env.intro [OF assms]
  note get = openraft_env.get_stored_cell [OF env] openraft_env.get_stored_other [OF env]
  obtain d1 where d1: "save_vote X db v = (d1, Ret (Inr ()))"
    "cell_written X db ''vote'' (str_bytes (js_text (o_vote X) v)) d1"
    using openraft_env.save_vote_effect [OF env, of db v] by blast
  obtain d2 json where d2: "save_committed X db c = (d2, Ret (Inr ()))"
    "cell_written X db ''committed'' json d2"
    "(case js_from_slice (o_log_id X) json of Inr a \<Rightarrow> Some a | Inl _ \<Rightarrow> None) = c"
    using openraft_env.save_committed_effect [OF env, of db c] by blast
  have "read_vote X d1 = Inr (Some v)" "read_committed X d1 = read_committed X db"
    "read_committed X d2 = Inr c" "read_vote X d2 = read_vote X db"
    unfolding read_vote_def get_vote_def read_committed_def get_committed_def
    using d2(3) by (simp_all add: get [OF d1(2)] get [OF d2(2)] openraft_env.from_slice_text [OF env])
  with d1 d2 show ?thesis by (blast dest: olog_at_cell)
qed

lemma vote_and_committed_persist_witness:
  "\<exists>db'. save_committed ref_oenv [] None = (db', Ret (Inr ())) \<and> read_committed ref_oenv db' = Inr None"
  using vote_and_committed_persist [OF ref_oenv_up, of "[]" 3 None] by blast

end
