(* ===== verification/Log_Refinement.thy ===== *)
theory Log_Refinement
  imports Log_Store_Props
begin

section \<open>The openraft log store refines a list\<close>

text \<open>
  What openraft takes a log store for: a purged position, the list of the entries after it, a
  vote and a committed position.  The operations of \<open>LogStore\<close> are run in any order openraft is
  entitled to (its storage documentation asks that no call leave a hole in the log), and the
  database is at every moment the image of that list.
\<close>

subsection \<open>The abstract log\<close>

record ('l, 'v, 'mem) abs_log =
  al_purged :: "'l log_id option"
  al_entries :: "('l, 'mem) oentry list"
  al_vote :: "'v option"
  al_committed :: "'l log_id option"

text \<open>The index after a position; the first index of the log, the one after its end.\<close>

definition next_pos :: "'l log_id option \<Rightarrow> nat" where
  "next_pos p = (case p of None \<Rightarrow> 0 | Some l \<Rightarrow> unat (li_index l) + 1)"

abbreviation al_start :: "('l, 'v, 'mem) abs_log \<Rightarrow> nat" where
  "al_start a \<equiv> next_pos (al_purged a)"

definition al_end :: "('l, 'v, 'mem) abs_log \<Rightarrow> nat" where
  "al_end a = al_start a + length (al_entries a)"

definition al_last :: "('l, 'v, 'mem) abs_log \<Rightarrow> 'l log_id option" where
  "al_last a = (if al_entries a = [] then al_purged a else Some (oe_log_id (last (al_entries a))))"

definition al_at :: "('l, 'v, 'mem) abs_log \<Rightarrow> u64 \<Rightarrow> ('l, 'mem) oentry option" where
  "al_at a i =
     (if al_start a \<le> unat i \<and> unat i < al_end a then Some (al_entries a ! (unat i - al_start a)) else None)"

definition consecutive :: "nat \<Rightarrow> ('l, 'mem) oentry list \<Rightarrow> bool" where
  "consecutive n es \<longleftrightarrow> n + length es < 2 ^ 64 \<and> (\<forall>j < length es. unat (oindex (es ! j)) = n + j)"

definition al_ok :: "('l, 'v, 'mem) abs_log \<Rightarrow> bool" where
  "al_ok a \<longleftrightarrow> consecutive (al_start a) (al_entries a)"

subsection \<open>The operations and when openraft calls them\<close>

datatype ('l, 'v, 'mem) log_op =
    OpAppend "('l, 'mem) oentry list"
  | OpTruncate "'l log_id"
  | OpPurge "'l log_id"
  | OpSaveVote 'v
  | OpSaveCommitted "'l log_id option"

fun log_do ::
  "('db, 'l, 'v, 'mem) oenv \<Rightarrow> 'db \<Rightarrow> ('l, 'v, 'mem) log_op \<Rightarrow> 'db \<times> (storage_error + unit) run" where
  "log_do X db (OpAppend es) = log_append X db es"
| "log_do X db (OpTruncate l) = (let (db', r) = Log_Store.truncate X db l in (db', Ret r))"
| "log_do X db (OpPurge l) = purge X db l"
| "log_do X db (OpSaveVote v) = save_vote X db v"
| "log_do X db (OpSaveCommitted c) = save_committed X db c"

fun al_do :: "('l, 'v, 'mem) abs_log \<Rightarrow> ('l, 'v, 'mem) log_op \<Rightarrow> ('l, 'v, 'mem) abs_log" where
  "al_do a (OpAppend es) = a\<lparr>al_entries := al_entries a @ es\<rparr>"
| "al_do a (OpTruncate l) = a\<lparr>al_entries := take (unat (li_index l) - al_start a) (al_entries a)\<rparr>"
| "al_do a (OpPurge l) = a\<lparr>al_purged := Some l,
     al_entries := drop (unat (li_index l) + 1 - al_start a) (al_entries a)\<rparr>"
| "al_do a (OpSaveVote v) = a\<lparr>al_vote := Some v\<rparr>"
| "al_do a (OpSaveCommitted c) = a\<lparr>al_committed := c\<rparr>"

text \<open>
  Entries are appended right after the last one; the log is cut back no further than what is
  purged, and purged forward only (past its end after a snapshot was installed).
\<close>

fun al_legal :: "('l, 'v, 'mem) abs_log \<Rightarrow> ('l, 'v, 'mem) log_op \<Rightarrow> bool" where
  "al_legal a (OpAppend es) \<longleftrightarrow> consecutive (al_end a) es"
| "al_legal a (OpTruncate l) \<longleftrightarrow> al_start a \<le> unat (li_index l)"
| "al_legal a (OpPurge l) \<longleftrightarrow> al_start a \<le> unat (li_index l) + 1 \<and> li_index l < - 1"
| "al_legal a (OpSaveVote v) \<longleftrightarrow> True"
| "al_legal a (OpSaveCommitted c) \<longleftrightarrow> True"

fun log_run ::
  "('db, 'l, 'v, 'mem) oenv \<Rightarrow> 'db \<Rightarrow> ('l, 'v, 'mem) log_op list \<Rightarrow> 'db \<times> (storage_error + unit) run" where
  "log_run X db [] = (db, Ret (Inr ()))"
| "log_run X db (op # ops) =
     (case log_do X db op of
        (db', Ret (Inr _)) \<Rightarrow> log_run X db' ops
      | stopped \<Rightarrow> stopped)"

definition al_run :: "('l, 'v, 'mem) abs_log \<Rightarrow> ('l, 'v, 'mem) log_op list \<Rightarrow> ('l, 'v, 'mem) abs_log" where
  "al_run a ops = fold (\<lambda>op a. al_do a op) ops a"

fun al_legals :: "('l, 'v, 'mem) abs_log \<Rightarrow> ('l, 'v, 'mem) log_op list \<Rightarrow> bool" where
  "al_legals a [] \<longleftrightarrow> True"
| "al_legals a (op # ops) \<longleftrightarrow> al_legal a op \<and> al_legals (al_do a op) ops"

text \<open>The database \<open>db\<close> is the image of \<open>a\<close>.\<close>

definition al_rep :: "('db, 'l, 'v, 'mem) oenv \<Rightarrow> 'db \<Rightarrow> ('l, 'v, 'mem) abs_log \<Rightarrow> bool" where
  "al_rep X db a \<longleftrightarrow>
     al_ok a \<and> olog_ok X db \<and> olog_at X db = al_at a \<and> get_last_purged X db = Inr (al_purged a) \<and>
     read_vote X db = Inr (al_vote a) \<and> read_committed X db = Inr (al_committed a)"

subsection \<open>The abstract operations keep the list well formed\<close>

lemma next_pos_Some [simp]: "next_pos (Some l) = unat (li_index l) + 1"
  by (simp add: next_pos_def)

lemma consecutive_append:
  "consecutive n (es @ fs) \<longleftrightarrow> consecutive n es \<and> consecutive (n + length es) fs"
proof
  assume c: "consecutive n (es @ fs)"
  have "unat (oindex (fs ! j)) = n + length es + j" if "j < length fs" for j
    using c [unfolded consecutive_def] that by (auto dest!: spec [of _ "length es + j"])
  moreover have "unat (oindex (es ! j)) = n + j" if "j < length es" for j
    using c [unfolded consecutive_def] that by (auto simp: nth_append dest!: spec [of _ j])
  ultimately show "consecutive n es \<and> consecutive (n + length es) fs"
    using c by (simp add: consecutive_def)
next
  assume "consecutive n es \<and> consecutive (n + length es) fs"
  then show "consecutive n (es @ fs)" by (auto simp: consecutive_def nth_append)
qed

lemma consecutive_take: "consecutive n es \<Longrightarrow> consecutive n (take m es)"
  using consecutive_append [of n "take m es" "drop m es"] by simp

lemma consecutive_drop: "consecutive n es \<Longrightarrow> m \<le> length es \<Longrightarrow> consecutive (n + m) (drop m es)"
  using consecutive_append [of n "take m es" "drop m es"] by (simp add: min_absorb2)

lemma consecutive_batch: "consecutive (unat k) es \<longleftrightarrow> batch oindex k es"
  by (simp add: consecutive_def batch_def)

lemma al_do_ok: "al_ok a \<Longrightarrow> al_legal a op \<Longrightarrow> al_ok (al_do a op)"
proof (cases op)
  case (OpPurge l)
  assume ok: "al_ok a" and legal: "al_legal a op"
  let ?m = "unat (li_index l) + 1 - al_start a"
  have lt: "unat (li_index l) + 1 < 2 ^ 64"
    using legal OpPurge unat_succ [of "li_index l"] unsigned_less [of "li_index l + 1", where ?'a = nat]
    by auto
  show ?thesis
  proof (cases "?m \<le> length (al_entries a)")
    case True
    then show ?thesis
      using consecutive_drop [of "al_start a" "al_entries a" ?m] ok legal OpPurge by (simp add: al_ok_def)
  next
    case False
    then show ?thesis using OpPurge lt by (simp add: al_ok_def consecutive_def)
  qed
qed (auto simp: al_ok_def consecutive_append al_end_def intro: consecutive_take)

subsection \<open>Every operation of the code implements the abstract one\<close>

lemma al_at_append:
  assumes ok: "al_ok a" and legal: "consecutive (al_end a) es"
  shows "al_at (al_do a (OpAppend es)) i =
    (if al_end a \<le> unat i \<and> unat i < al_end a + length es then Some (es ! (unat i - al_end a)) else al_at a i)"
  by (auto simp: al_at_def al_end_def nth_append diff_diff_left)

lemma al_at_truncate:
  "al_at (al_do a (OpTruncate l)) i = (if li_index l \<le> i then None else al_at a i)"
  by (auto simp: al_at_def al_end_def word_le_nat_alt)

lemma al_at_purge:
  "al_legal a (OpPurge l) \<Longrightarrow> al_at (al_do a (OpPurge l)) i = (if i \<le> li_index l then None else al_at a i)"
  by (auto simp: al_at_def al_end_def word_le_nat_alt)

lemma al_at_top: "al_ok a \<Longrightarrow> al_at a (- 1) = None"
  by (simp add: al_at_def al_ok_def consecutive_def al_end_def unsigned_minus_1_eq_mask mask_eq_exp_minus_1)

lemma al_repD:
  assumes "al_rep X db a"
  shows "al_ok a" and "olog_ok X db" and "olog_at X db = al_at a" and "get_last_purged X db = Inr (al_purged a)"
    and "read_vote X db = Inr (al_vote a)" and "read_committed X db = Inr (al_committed a)"
  using assms by (simp_all add: al_rep_def)

lemma unat_of_end: "al_end a + length es < 2 ^ 64 \<Longrightarrow> unat (of_nat (al_end a) :: u64) = al_end a"
  by (simp add: unat_of_nat take_bit_eq_mod)

context openraft_env
begin

lemma stored_cells:
  assumes "\<And>key. key \<in> {''last_purged_log_id'', ''vote'', ''committed''} \<Longrightarrow>
      db_view (o_rocks X) db' raft_store_cf (str_bytes key) = db_view (o_rocks X) db raft_store_cf (str_bytes key)"
  shows "get_last_purged X db' = get_last_purged X db" and "read_vote X db' = read_vote X db"
    and "read_committed X db' = read_committed X db"
  unfolding get_last_purged_def read_vote_def get_vote_def read_committed_def get_committed_def
  by (rule get_stored_cong, rule assms, simp)+

lemma append_refines:
  assumes "al_rep X db a" and "al_legal a (OpAppend es)"
  shows "\<exists>db'. log_append X db es = (db', Ret (Inr ())) \<and> al_rep X db' (al_do a (OpAppend es))"
proof -
  note R = al_repD [OF assms(1)]
  obtain db' where db': "log_append X db es = (db', Ret (Inr ()))"
    "\<forall>cf k. cf \<noteq> raft_logs_cf \<longrightarrow> db_view (o_rocks X) db' cf k = db_view (o_rocks X) db cf k"
    "olog_at X db' = log_override oindex es (olog_at X db)" "olog_ok X db \<longrightarrow> olog_ok X db'"
    using log_append_effect by blast
  have legal: "consecutive (al_end a) es" using assms(2) by simp
  then have k: "unat (of_nat (al_end a) :: u64) = al_end a"
    unfolding consecutive_def by (rule unat_of_end [OF conjunct1])
  have b: "batch oindex (of_nat (al_end a)) es" using legal by (simp only: k flip: consecutive_batch)
  have "olog_at X db' = al_at (al_do a (OpAppend es))"
    by (rule ext) (simp only: al_at_append [OF R(1) legal] R(3) db'(3) log_override_batch [OF b] k)
  moreover have "al_ok (al_do a (OpAppend es))" by (rule al_do_ok [OF R(1) assms(2)])
  moreover have "get_last_purged X db' = Inr (al_purged a)" "read_vote X db' = Inr (al_vote a)"
    "read_committed X db' = Inr (al_committed a)"
    using stored_cells [of db' db] db'(2) R by simp_all
  ultimately have "al_rep X db' (al_do a (OpAppend es))"
    using db'(4) R(2) by (simp add: al_rep_def)
  with db'(1) show ?thesis by blast
qed

lemma truncate_refines:
  assumes "al_rep X db a" and "al_legal a (OpTruncate l)"
  shows "\<exists>db'. Log_Store.truncate X db l = (db', Inr ()) \<and> al_rep X db' (al_do a (OpTruncate l))"
proof -
  note R = al_repD [OF assms(1)]
  obtain db' where db': "Log_Store.truncate X db l = (db', Inr ())" "olog_ok X db'"
    "\<forall>i. olog_at X db' i = (if li_index l \<le> i \<and> i < - 1 then None else olog_at X db i)"
    "\<forall>k. db_view (o_rocks X) db' raft_store_cf k = db_view (o_rocks X) db raft_store_cf k"
    using truncate_effect [OF R(2)] by blast
  have "olog_at X db' i = al_at (al_do a (OpTruncate l)) i" for i
    using db'(3) R(3) al_at_top [OF R(1)] word_order.not_eq_extremum [of i]
    by (cases "i = - 1") (auto simp: al_at_truncate simp del: al_do.simps)
  then have "olog_at X db' = al_at (al_do a (OpTruncate l))" by (rule ext)
  moreover have "al_ok (al_do a (OpTruncate l))" by (rule al_do_ok [OF R(1) assms(2)])
  moreover have "get_last_purged X db' = Inr (al_purged a)" "read_vote X db' = Inr (al_vote a)"
    "read_committed X db' = Inr (al_committed a)"
    using stored_cells [of db' db] db'(4) R by simp_all
  ultimately have "al_rep X db' (al_do a (OpTruncate l))"
    using db'(2) by (simp add: al_rep_def)
  with db'(1) show ?thesis by blast
qed

lemma purge_refines:
  assumes "al_rep X db a" and "al_legal a (OpPurge l)"
  shows "\<exists>db'. purge X db l = (db', Ret (Inr ())) \<and> al_rep X db' (al_do a (OpPurge l))"
proof -
  note R = al_repD [OF assms(1)]
  have l: "li_index l < - 1" using assms(2) by simp
  obtain db' where db': "purge X db l = (db', Ret (Inr ()))" "olog_ok X db'"
    "get_last_purged X db' = Inr (Some l)"
    "\<forall>i. olog_at X db' i = (if i \<le> li_index l then None else olog_at X db i)"
    "\<forall>key. key \<noteq> ''last_purged_log_id'' \<longrightarrow>
        db_view (o_rocks X) db' raft_store_cf (str_bytes key) = db_view (o_rocks X) db raft_store_cf (str_bytes key)"
    using purge_effect [OF R(2) l] by blast
  have "read_vote X db' = read_vote X db" "read_committed X db' = read_committed X db"
    unfolding read_vote_def get_vote_def read_committed_def get_committed_def
    using db'(5) by (simp_all add: get_stored_cong [of db' _ db])
  moreover have "olog_at X db' = al_at (al_do a (OpPurge l))"
    using db'(4) R(3) by (intro ext) (simp only: al_at_purge [OF assms(2)])
  moreover have "al_ok (al_do a (OpPurge l))" by (rule al_do_ok [OF R(1) assms(2)])
  ultimately have "al_rep X db' (al_do a (OpPurge l))"
    using db'(2,3) R by (simp add: al_rep_def)
  with db'(1) show ?thesis by blast
qed

lemma save_vote_refines:
  assumes "al_rep X db a"
  shows "\<exists>db'. save_vote X db v = (db', Ret (Inr ())) \<and> al_rep X db' (al_do a (OpSaveVote v))"
proof -
  note R = al_repD [OF assms]
  obtain db' where db': "save_vote X db v = (db', Ret (Inr ()))"
    "cell_written X db ''vote'' (str_bytes (js_text (o_vote X) v)) db'"
    using save_vote_effect by blast
  have "read_vote X db' = Inr (Some v)"
    by (simp add: read_vote_def get_vote_def get_stored_cell [OF db'(2)] from_slice_text)
  moreover have "get_last_purged X db' = Inr (al_purged a)" "read_committed X db' = Inr (al_committed a)"
    using R(4,6) by (simp_all add: get_stored_other [OF db'(2)] get_last_purged_def read_committed_def get_committed_def)
  moreover have "al_at (a\<lparr>al_vote := Some v\<rparr>) = al_at a"
    by (simp add: al_at_def al_end_def fun_eq_iff)
  moreover have "al_ok (a\<lparr>al_vote := Some v\<rparr>)" using R(1) by (simp add: al_ok_def)
  ultimately have "al_rep X db' (al_do a (OpSaveVote v))"
    using R(2,3) by (simp add: al_rep_def olog_at_cell [OF db'(2)] olog_ok_cell [OF db'(2)])
  with db'(1) show ?thesis by blast
qed

lemma save_committed_refines:
  assumes "al_rep X db a"
  shows "\<exists>db'. save_committed X db c = (db', Ret (Inr ())) \<and> al_rep X db' (al_do a (OpSaveCommitted c))"
proof -
  note R = al_repD [OF assms]
  obtain db' json where db': "save_committed X db c = (db', Ret (Inr ()))"
    "cell_written X db ''committed'' json db'"
    "(case js_from_slice (o_log_id X) json of Inr x \<Rightarrow> Some x | Inl _ \<Rightarrow> None) = c"
    using save_committed_effect by blast
  have "read_committed X db' = Inr c"
    using db'(3) by (simp add: read_committed_def get_committed_def get_stored_cell [OF db'(2)])
  moreover have "get_last_purged X db' = Inr (al_purged a)" "read_vote X db' = Inr (al_vote a)"
    using R(4,5) by (simp_all add: get_stored_other [OF db'(2)] get_last_purged_def read_vote_def get_vote_def)
  moreover have "al_at (a\<lparr>al_committed := c\<rparr>) = al_at a"
    by (simp add: al_at_def al_end_def fun_eq_iff)
  moreover have "al_ok (a\<lparr>al_committed := c\<rparr>)" using R(1) by (simp add: al_ok_def)
  ultimately have "al_rep X db' (al_do a (OpSaveCommitted c))"
    using R(2,3) by (simp add: al_rep_def olog_at_cell [OF db'(2)] olog_ok_cell [OF db'(2)])
  with db'(1) show ?thesis by blast
qed

lemma log_do_refines:
  assumes "al_rep X db a" and "al_legal a op"
  shows "\<exists>db'. log_do X db op = (db', Ret (Inr ())) \<and> al_rep X db' (al_do a op)"
proof (cases op)
  case (OpAppend es)
  then show ?thesis using append_refines [of db a es] assms by (simp del: al_do.simps)
next
  case (OpTruncate l)
  then show ?thesis using truncate_refines [of db a l] assms by (auto simp del: al_do.simps)
next
  case (OpPurge l)
  then show ?thesis using purge_refines [of db a l] assms by (simp del: al_do.simps)
next
  case (OpSaveVote v)
  then show ?thesis using save_vote_refines [OF assms(1)] by (simp del: al_do.simps)
next
  case (OpSaveCommitted c)
  then show ?thesis using save_committed_refines [OF assms(1)] by (simp del: al_do.simps)
qed

lemma log_run_refines:
  "al_rep X db a \<Longrightarrow> al_legals a ops \<Longrightarrow>
     \<exists>db'. log_run X db ops = (db', Ret (Inr ())) \<and> al_rep X db' (al_run a ops)"
proof (induction ops arbitrary: db a)
  case Nil
  then show ?case by (simp add: al_run_def)
next
  case (Cons op ops)
  then obtain db1 where db1: "log_do X db op = (db1, Ret (Inr ()))" "al_rep X db1 (al_do a op)"
    using log_do_refines [of db a op] by auto
  from Cons.IH [OF db1(2)] Cons.prems(2) obtain db' where
    "log_run X db1 ops = (db', Ret (Inr ()))" "al_rep X db' (al_run (al_do a op) ops)" by auto
  then show ?case using db1(1) by (simp add: al_run_def)
qed

subsection \<open>What a log that is the image of a list answers\<close>

lemma oids_range:
  assumes "\<And>i. unat a \<le> unat i \<Longrightarrow> unat i < unat b \<Longrightarrow> olog_at X db i \<noteq> None"
  shows "filter (range_contains (Included a, Excluded b)) (oids X db) = map of_nat [unat a..<unat b]"
proof -
  have small: "n < 2 ^ 64" if "n < unat b" for n :: nat
    using that unsigned_less [of b, where ?'a = nat] by simp
  then have unat: "unat (of_nat n :: u64) = n" if "n < unat b" for n
    using that by (simp add: unat_of_nat take_bit_eq_mod)
  have inj: "inj_on (of_nat :: nat \<Rightarrow> u64) {unat a..<unat b}"
    by (rule inj_on_inverseI [where g = unat]) (simp add: unat)
  have sorted: "sorted (map of_nat [unat a..<unat b] :: u64 list)"
    by (auto simp: sorted_iff_nth_mono word_le_nat_alt unat simp del: of_nat_add)
  have set: "set (filter (range_contains (Included a, Excluded b)) (oids X db)) =
      set (map of_nat [unat a..<unat b])"
  proof (intro equalityI subsetI)
    fix i assume "i \<in> set (filter (range_contains (Included a, Excluded b)) (oids X db))"
    then have "unat i \<in> {unat a..<unat b}"
      by (auto simp: range_contains_def word_le_nat_alt word_less_nat_alt)
    moreover have "i = of_nat (unat i)" by simp
    ultimately show "i \<in> set (map of_nat [unat a..<unat b])" by (metis imageI set_map set_upt)
  qed (use assms in \<open>auto simp: oids_def range_contains_def word_le_nat_alt word_less_nat_alt unat\<close>)
  show ?thesis
    by (rule sorted_distinct_set_unique [OF _ _ sorted _ set])
      (simp_all add: oids_def sorted_wrt_filter distinct_map inj)
qed

lemma rep_range:
  assumes "al_rep X db a" and "al_start a \<le> unat i" and "i \<le> j" and "unat j \<le> al_end a"
  shows "try_get_log_entries X db (Included i, Excluded j) =
    Ret (Inr (take (unat j - unat i) (drop (unat i - al_start a) (al_entries a))))"
proof -
  note R = al_repD [OF assms(1)]
  have at: "olog_at X db k = Some (al_entries a ! (unat k - al_start a))"
    if "unat i \<le> unat k" "unat k < unat j" for k
    using that assms by (simp add: R(3) al_at_def)
  have unat: "unat (of_nat n :: u64) = n" if "n < unat j" for n
    using that unsigned_less [of j, where ?'a = nat] by (simp add: unat_of_nat take_bit_eq_mod)
  have "filter (range_contains (Included i, Excluded j)) (oids X db) = map of_nat [unat i..<unat j]"
    by (rule oids_range) (simp add: at)
  moreover have "map (\<lambda>k. the (olog_at X db k)) (map of_nat [unat i..<unat j]) =
      take (unat j - unat i) (drop (unat i - al_start a) (al_entries a))"
    by (rule nth_equalityI) (use assms(2-) in \<open>auto simp: at unat al_end_def min_def word_le_nat_alt simp del: of_nat_add\<close>)
  ultimately show ?thesis by (simp only: try_get_up [OF R(2)])
qed

lemma rep_oids:
  assumes "al_rep X db a"
  shows "oids X db = map of_nat [al_start a..<al_end a]"
proof -
  note R = al_repD [OF assms]
  have lt: "al_end a < 2 ^ 64" using R(1) by (simp add: al_ok_def consecutive_def al_end_def)
  have le: "al_start a \<le> al_end a" by (simp add: al_end_def)
  have unat: "unat (of_nat n :: u64) = n" if "n \<le> al_end a" for n
    using that lt by (simp add: unat_of_nat take_bit_eq_mod)
  let ?r = "(Included (of_nat (al_start a)), Excluded (of_nat (al_end a)))"
  have "filter (range_contains ?r) (oids X db) = map of_nat [al_start a..<al_end a]"
    using oids_range [of "of_nat (al_start a)" "of_nat (al_end a)" db] le by (simp add: unat R(3) al_at_def)
  moreover have "filter (range_contains ?r) (oids X db) = oids X db"
    by (rule filter_True)
      (use le in \<open>auto simp: oids_def R(3) al_at_def range_contains_def word_le_nat_alt word_less_nat_alt unat split: if_splits\<close>)
  ultimately show ?thesis by simp
qed

lemma rep_log_state:
  assumes "al_rep X db a"
  shows "get_log_state X db = Inr \<lparr>ls_last_purged_log_id = al_purged a, ls_last_log_id = al_last a\<rparr>"
proof (cases "al_entries a = []")
  case True
  then show ?thesis
    using al_repD [OF assms] rep_oids [OF assms] by (simp add: log_state_up Let_def al_last_def al_end_def)
next
  case False
  note R = al_repD [OF assms]
  let ?n = "al_end a - 1"
  have n: "al_start a \<le> ?n" "?n < al_end a" "?n - al_start a = length (al_entries a) - 1"
    using False by (auto simp: al_end_def Suc_le_eq neq_Nil_conv)
  have "al_end a < 2 ^ 64" using R(1) by (simp add: al_ok_def consecutive_def al_end_def)
  then have "unat (of_nat ?n :: u64) = ?n" by (simp add: unat_of_nat take_bit_eq_mod)
  then have "olog_at X db (of_nat ?n) = Some (last (al_entries a))"
    using n False by (simp add: R(3) al_at_def last_conv_nth)
  moreover have "last (map of_nat [al_start a..<al_end a]) = (of_nat ?n :: u64)"
    using n by (simp add: last_map)
  ultimately show ?thesis
    using False n R(4) by (simp add: log_state_up [OF R(2)] Let_def rep_oids [OF assms] al_last_def del: upt_rec_numeral)
qed

lemma fresh_rep:
  assumes "\<And>cf k. db_view (o_rocks X) db cf k = None"
  shows "al_rep X db \<lparr>al_purged = None, al_entries = [], al_vote = None, al_committed = None\<rparr>"
  using assms
  by (simp add: al_rep_def al_ok_def consecutive_def olog_ok_def olog_at_def al_at_def al_end_def fun_eq_iff
      get_last_purged_def read_vote_def get_vote_def read_committed_def get_committed_def get_stored_def get_eq
      next_pos_def)

end

subsection \<open>The property\<close>

definition empty_log :: "('l, 'v, 'mem) abs_log" where
  "empty_log = \<lparr>al_purged = None, al_entries = [], al_vote = None, al_committed = None\<rparr>"

text \<open>
  C4: The log store is a list with a purged prefix: from an empty database, whatever appends,
  truncations, purges, votes and committed positions openraft saves in an order it is entitled
  to, every call succeeds, and afterwards the log state, the vote and the committed position
  are those of the list on which the same operations were done, and every range of present
  indexes reads exactly that stretch of the list: no hole, no lost, stale or reordered entry.
\<close>

theorem log_store_refines_list:
  assumes "oenv_up X" and "\<And>cf k. db_view (o_rocks X) db cf k = None" and "al_legals empty_log ops"
  shows "\<exists>db' a. a = al_run empty_log ops \<and> log_run X db ops = (db', Ret (Inr ())) \<and>
    get_log_state X db' = Inr \<lparr>ls_last_purged_log_id = al_purged a, ls_last_log_id = al_last a\<rparr> \<and>
    read_vote X db' = Inr (al_vote a) \<and> read_committed X db' = Inr (al_committed a) \<and>
    consecutive (al_start a) (al_entries a) \<and>
    (\<forall>i j. al_start a \<le> unat i \<longrightarrow> i \<le> j \<longrightarrow> unat j \<le> al_end a \<longrightarrow>
       try_get_log_entries X db' (Included i, Excluded j) =
         Ret (Inr (take (unat j - unat i) (drop (unat i - al_start a) (al_entries a)))))"
proof -
  note env = openraft_env.intro [OF assms(1)]
  have "al_rep X db empty_log"
    using openraft_env.fresh_rep [OF env assms(2)] by (simp add: empty_log_def)
  from openraft_env.log_run_refines [OF env this assms(3)]
  obtain db' where db': "log_run X db ops = (db', Ret (Inr ()))" "al_rep X db' (al_run empty_log ops)" by auto
  note R = al_repD [OF db'(2)]
  show ?thesis
    using db'(1) R openraft_env.rep_log_state [OF env db'(2)] openraft_env.rep_range [OF env db'(2)]
    by (intro exI [of _ db'] exI [of _ "al_run empty_log ops"]) (simp add: al_ok_def)
qed

text \<open>Two entries, a conflict at the second, its replacement, a vote, a purge of the first.\<close>

definition ref_ops :: "(u64, u64, u64) log_op list" where
  "ref_ops = [OpAppend [ref_oentry 0 Blank, ref_oentry 1 (Normal (Delete ''x''))], OpSaveVote 5,
     OpTruncate \<lparr>li_leader_id = 1, li_index = 1\<rparr>, OpAppend [ref_oentry 1 (Normal (Set ''x'' ''1''))],
     OpSaveCommitted (Some \<lparr>li_leader_id = 1, li_index = 1\<rparr>), OpPurge \<lparr>li_leader_id = 1, li_index = 0\<rparr>]"

lemma ref_ops_legal: "al_legals empty_log ref_ops"
  by (simp add: ref_ops_def empty_log_def consecutive_def al_end_def next_pos_def nth_Cons ref_oentry_def
      word_less_nat_alt unsigned_minus_1_eq_mask mask_eq_exp_minus_1 split: nat.splits)

lemma ref_ops_run:
  "al_run empty_log ref_ops = \<lparr>al_purged = Some \<lparr>li_leader_id = 1, li_index = 0\<rparr>,
     al_entries = [ref_oentry 1 (Normal (Set ''x'' ''1''))], al_vote = Some 5,
     al_committed = Some \<lparr>li_leader_id = 1, li_index = 1\<rparr>\<rparr>"
  by (simp add: al_run_def ref_ops_def empty_log_def next_pos_def)

lemma log_store_refines_list_witness:
  "\<exists>db'. log_run ref_oenv [] ref_ops = (db', Ret (Inr ())) \<and> read_vote ref_oenv db' = Inr (Some 5) \<and>
     try_get_log_entries ref_oenv db' (Included 1, Excluded 2) =
       Ret (Inr [ref_oentry 1 (Normal (Set ''x'' ''1''))])"
proof -
  have "db_view (o_rocks ref_oenv) [] cf k = None" for cf k by (simp add: ref_oenv_def)
  from log_store_refines_list [OF ref_oenv_up this ref_ops_legal]
  obtain db' a where a: "a = al_run empty_log ref_ops" and db': "log_run ref_oenv [] ref_ops = (db', Ret (Inr ()))"
    "read_vote ref_oenv db' = Inr (al_vote a)"
    and reads: "\<forall>i j. al_start a \<le> unat i \<longrightarrow> i \<le> j \<longrightarrow> unat j \<le> al_end a \<longrightarrow>
       try_get_log_entries ref_oenv db' (Included i, Excluded j) =
         Ret (Inr (take (unat j - unat i) (drop (unat i - al_start a) (al_entries a))))" by blast
  show ?thesis
    using db' reads [rule_format, of 1 2] by (simp add: a ref_ops_run al_end_def)
qed

end
