(* ===== verification/State_Machine_Store.thy ===== *)
theory State_Machine_Store
  imports Log_Store
begin

section \<open>StateMachineStore (src/placement-center/src/openraft/store/state_machine_store.rs)\<close>

text \<open>
  The state machine of the openraft path.  Its map lives behind an \<open>Arc<RwLock<BTreeMap>>\<close> that
  \<open>clone()\<close> shares, so the maps are cells of an explicit store and a machine holds the number
  of its cell; the database is the other part of the world.  The two things openraft supplies,
  the default membership and the rendering of a leader id, are arguments.
\<close>

record 'db sm_world =
  w_db :: 'db
  w_cells :: "kv_map list"

record ('l, 'mem) state_machine_data =
  last_applied_log_id :: "'l log_id option"
  last_membership :: "('l, 'mem) stored_membership"
  kvs_cell :: nat

record ('l, 'mem) state_machine_store =
  sm_data :: "('l, 'mem) state_machine_data"
  sm_snapshot_idx :: u64

record ('l, 'mem) osnapshot =
  sn_meta :: "('l, 'mem) snapshot_meta"
  sn_snapshot :: bytes

definition read_kvs :: "'db sm_world \<Rightarrow> ('l, 'mem) state_machine_store \<Rightarrow> kv_map" where
  "read_kvs w sm = w_cells w ! kvs_cell (sm_data sm)"

definition write_kvs ::
  "'db sm_world \<Rightarrow> ('l, 'mem) state_machine_store \<Rightarrow> kv_map \<Rightarrow> 'db sm_world" where
  "write_kvs w sm m = w\<lparr>w_cells := (w_cells w)[kvs_cell (sm_data sm) := m]\<rparr>"

subsection \<open>The stored snapshot\<close>

definition stored_current_snapshot ::
  "('db, 'l, 'v, 'mem) oenv \<Rightarrow> 'db \<Rightarrow> storage_error + ('l, 'mem) stored_snapshot option" where
  "stored_current_snapshot X db = get_stored X (o_snapshot X) db ''snapshot'' SE_read"

definition set_current_snapshot ::
  "('db, 'l, 'v, 'mem) oenv \<Rightarrow> 'db \<Rightarrow> ('l, 'mem) stored_snapshot \<Rightarrow> 'db \<times> (storage_error + unit) run" where
  "set_current_snapshot X db snap =
     (case js_to_vec (o_snapshot X) snap of
        Inl _ \<Rightarrow> (db, Panic UnwrapErr)
      | Inr json \<Rightarrow>
          (let (db', r) = put_and_flush X db ''snapshot'' json SE_write_snapshot SubjectSnapshot
           in (db', Ret r)))"

definition update_state_machine ::
  "('db, 'l, 'v, 'mem) oenv \<Rightarrow> 'db sm_world \<times> ('l, 'mem) state_machine_store \<Rightarrow>
   ('l, 'mem) stored_snapshot \<Rightarrow>
   ('db sm_world \<times> ('l, 'mem) state_machine_store) \<times> (storage_error + unit)" where
  "update_state_machine X st snap =
     (let (w, sm) = st in
      case js_from_slice (o_kvs X) (ss_data snap) of
        Inl e \<Rightarrow> ((w, sm), Inl (SE_read_snapshot e))
      | Inr m \<Rightarrow>
          (let sm' = sm\<lparr>sm_data := (sm_data sm)
                 \<lparr>last_applied_log_id := sme_last_log_id (ss_meta snap),
                  last_membership := sme_last_membership (ss_meta snap)\<rparr>\<rparr>
           in ((write_kvs w sm' m, sm'), Inr ())))"

definition sm_new ::
  "('db, 'l, 'v, 'mem) oenv \<Rightarrow> 'mem \<Rightarrow> 'db sm_world \<Rightarrow>
   'db sm_world \<times> (storage_error + ('l, 'mem) state_machine_store)" where
  "sm_new X default_mem w =
     (let sm = \<lparr>sm_data = \<lparr>last_applied_log_id = None,
                  last_membership = \<lparr>stm_log_id = None, stm_membership = default_mem\<rparr>,
                  kvs_cell = length (w_cells w)\<rparr>,
                sm_snapshot_idx = 0\<rparr>;
          w1 = w\<lparr>w_cells := w_cells w @ [fmempty]\<rparr>
      in case stored_current_snapshot X (w_db w1) of
           Inl e \<Rightarrow> (w1, Inl e)
         | Inr None \<Rightarrow> (w1, Inr sm)
         | Inr (Some snap) \<Rightarrow>
             (case update_state_machine X (w1, sm) snap of
                ((w2, sm'), Inl e) \<Rightarrow> (w2, Inl e)
              | ((w2, sm'), Inr _) \<Rightarrow> (w2, Inr sm')))"

subsection \<open>RaftSnapshotBuilder\<close>

definition snapshot_id_of ::
  "('l \<Rightarrow> string) \<Rightarrow> 'l log_id option \<Rightarrow> u64 \<Rightarrow> string" where
  "snapshot_id_of show_leader applied idx =
     (case applied of
        Some l \<Rightarrow> show_leader (li_leader_id l) @ ''-'' @ show_u64 (li_index l) @ ''-'' @ show_u64 idx
      | None \<Rightarrow> ''--'' @ show_u64 idx)"

definition build_snapshot ::
  "('db, 'l, 'v, 'mem) oenv \<Rightarrow> ('l \<Rightarrow> string) \<Rightarrow> 'db sm_world \<Rightarrow> ('l, 'mem) state_machine_store \<Rightarrow>
   'db sm_world \<times> (storage_error + ('l, 'mem) osnapshot) run" where
  "build_snapshot X show_leader w sm =
     (case js_to_vec (o_kvs X) (read_kvs w sm) of
        Inl e \<Rightarrow> (w, Ret (Inl (SE_read_state_machine e)))
      | Inr kv_json \<Rightarrow>
          (let meta = \<lparr>sme_last_log_id = last_applied_log_id (sm_data sm),
                 sme_last_membership = last_membership (sm_data sm),
                 sme_snapshot_id = snapshot_id_of show_leader (last_applied_log_id (sm_data sm))
                   (sm_snapshot_idx sm)\<rparr>
           in case set_current_snapshot X (w_db w) \<lparr>ss_meta = meta, ss_data = kv_json\<rparr> of
                (db', Panic p) \<Rightarrow> (w\<lparr>w_db := db'\<rparr>, Panic p)
              | (db', Ret (Inl e)) \<Rightarrow> (w\<lparr>w_db := db'\<rparr>, Ret (Inl e))
              | (db', Ret (Inr _)) \<Rightarrow>
                  (w\<lparr>w_db := db'\<rparr>, Ret (Inr \<lparr>sn_meta = meta, sn_snapshot = kv_json\<rparr>))))"

subsection \<open>RaftStateMachine\<close>

definition applied_state ::
  "('l, 'mem) state_machine_store \<Rightarrow>
   storage_error + ('l log_id option \<times> ('l, 'mem) stored_membership)" where
  "applied_state sm = Inr (last_applied_log_id (sm_data sm), last_membership (sm_data sm))"

text \<open>One iteration of the loop of \<open>apply\<close>: the entry's effect and its reply.\<close>

definition apply_entry ::
  "'db sm_world \<times> ('l, 'mem) state_machine_store \<Rightarrow> ('l, 'mem) oentry \<Rightarrow>
   ('db sm_world \<times> ('l, 'mem) state_machine_store) \<times> app_response_data" where
  "apply_entry st ent =
     (let (w, sm0) = st;
          sm = sm0\<lparr>sm_data := (sm_data sm0)\<lparr>last_applied_log_id := Some (oe_log_id ent)\<rparr>\<rparr>
      in case oe_payload ent of
           Blank \<Rightarrow> ((w, sm), \<lparr>rsp_value = None\<rparr>)
         | Normal req \<Rightarrow>
             (case req of
                Set k v \<Rightarrow> ((write_kvs w sm (fmupd k v (read_kvs w sm)), sm), \<lparr>rsp_value = Some v\<rparr>)
              | Delete k \<Rightarrow> ((write_kvs w sm (fmdrop k (read_kvs w sm)), sm), \<lparr>rsp_value = None\<rparr>))
         | Membership mem \<Rightarrow>
             ((w, sm\<lparr>sm_data := (sm_data sm)
                \<lparr>last_membership := \<lparr>stm_log_id = Some (oe_log_id ent), stm_membership = mem\<rparr>\<rparr>\<rparr>),
              \<lparr>rsp_value = None\<rparr>))"

fun apply_entries ::
  "'db sm_world \<times> ('l, 'mem) state_machine_store \<Rightarrow> ('l, 'mem) oentry list \<Rightarrow>
   ('db sm_world \<times> ('l, 'mem) state_machine_store) \<times> app_response_data list" where
  "apply_entries st [] = (st, [])"
| "apply_entries st (ent # ents) =
     (let (st1, reply) = apply_entry st ent; (st2, replies) = apply_entries st1 ents
      in (st2, reply # replies))"

definition sm_apply ::
  "'db sm_world \<times> ('l, 'mem) state_machine_store \<Rightarrow> ('l, 'mem) oentry list \<Rightarrow>
   ('db sm_world \<times> ('l, 'mem) state_machine_store) \<times> (storage_error + app_response_data list)" where
  "sm_apply st entries = (let (st', replies) = apply_entries st entries in (st', Inr replies))"

text \<open>\<open>self.snapshot_idx += 1; self.clone()\<close>: the machine and the builder, on the same cell.\<close>

definition get_snapshot_builder ::
  "('l, 'mem) state_machine_store \<Rightarrow> ('l, 'mem) state_machine_store \<times> ('l, 'mem) state_machine_store" where
  "get_snapshot_builder sm =
     (let sm' = sm\<lparr>sm_snapshot_idx := sm_snapshot_idx sm + 1\<rparr> in (sm', sm'))"

definition begin_receiving_snapshot :: "storage_error + bytes" where
  "begin_receiving_snapshot = Inr []"

definition install_snapshot ::
  "('db, 'l, 'v, 'mem) oenv \<Rightarrow> 'db sm_world \<times> ('l, 'mem) state_machine_store \<Rightarrow>
   ('l, 'mem) snapshot_meta \<Rightarrow> bytes \<Rightarrow>
   ('db sm_world \<times> ('l, 'mem) state_machine_store) \<times> (storage_error + unit) run" where
  "install_snapshot X st meta snap =
     (let new_snapshot = \<lparr>ss_meta = meta, ss_data = snap\<rparr> in
      case update_state_machine X st new_snapshot of
        (st1, Inl e) \<Rightarrow> (st1, Ret (Inl e))
      | ((w1, sm1), Inr _) \<Rightarrow>
          (case set_current_snapshot X (w_db w1) new_snapshot of
             (db', Panic p) \<Rightarrow> ((w1\<lparr>w_db := db'\<rparr>, sm1), Panic p)
           | (db', Ret (Inl e)) \<Rightarrow> ((w1\<lparr>w_db := db'\<rparr>, sm1), Ret (Inl e))
           | (db', Ret (Inr _)) \<Rightarrow> ((w1\<lparr>w_db := db'\<rparr>, sm1), Ret (Inr ()))))"

definition get_current_snapshot ::
  "('db, 'l, 'v, 'mem) oenv \<Rightarrow> 'db \<Rightarrow> storage_error + ('l, 'mem) osnapshot option" where
  "get_current_snapshot X db =
     (case stored_current_snapshot X db of
        Inl e \<Rightarrow> Inl e
      | Inr x \<Rightarrow> Inr (map_option (\<lambda>s. \<lparr>sn_meta = ss_meta s, sn_snapshot = ss_data s\<rparr>) x))"

subsection \<open>new_storage (store/mod.rs)\<close>

text \<open>
  \<open>DB::open_cf_descriptors\<close> is the argument \<open>opened\<close>; the log store is the database itself.
\<close>

definition new_storage ::
  "('db, 'l, 'v, 'mem) oenv \<Rightarrow> 'mem \<Rightarrow> (string \<Rightarrow> string list \<Rightarrow> ext_error + 'db) \<Rightarrow> string \<Rightarrow>
   ('db sm_world \<times> ('l, 'mem) state_machine_store) run" where
  "new_storage X default_mem opened db_path =
     (case opened db_path [''_raft_store'', ''_raft_logs''] of
        Inl _ \<Rightarrow> Panic UnwrapErr
      | Inr db \<Rightarrow>
          (case sm_new X default_mem \<lparr>w_db = db, w_cells = []\<rparr> of
             (w, Inl _) \<Rightarrow> Panic UnwrapErr
           | (w, Inr sm) \<Rightarrow> Ret (w, sm)))"

end
