(* ===== verification/State_Machine_Props.thy ===== *)
theory State_Machine_Props
  imports State_Machine_Store Log_Store_Props
begin

section \<open>The openraft state machine refines the abstract key-value machine\<close>

text \<open>
  The abstraction of \<^verbatim>\<open>State_Machine_Store\<close>: what a machine stands for (applied position,
  membership and map), the commands a run of entries carries, and the snapshot life cycle on it.
\<close>

abbreviation applied :: "('l, 'mem) state_machine_store \<Rightarrow> 'l log_id option" where
  "applied sm \<equiv> last_applied_log_id (sm_data sm)"

abbreviation members :: "('l, 'mem) state_machine_store \<Rightarrow> ('l, 'mem) stored_membership" where
  "members sm \<equiv> last_membership (sm_data sm)"

definition sm_live :: "'db sm_world \<times> ('l, 'mem) state_machine_store \<Rightarrow> bool" where
  "sm_live st \<longleftrightarrow> kvs_cell (sm_data (snd st)) < length (w_cells (fst st))"

definition sm_map ::
  "'db sm_world \<times> ('l, 'mem) state_machine_store \<Rightarrow> string \<Rightarrow> string option" where
  "sm_map st = fmlookup (read_kvs (fst st) (snd st))"

definition sm_view ::
  "'db sm_world \<times> ('l, 'mem) state_machine_store \<Rightarrow>
   'l log_id option \<times> ('l, 'mem) stored_membership \<times> kv_map" where
  "sm_view st = (applied (snd st), members (snd st), read_kvs (fst st) (snd st))"

fun entry_cmds :: "('l, 'mem) oentry list \<Rightarrow> kv_cmd list" where
  "entry_cmds [] = []"
| "entry_cmds (e # es) =
     (case oe_payload e of
        Normal (Set k v) \<Rightarrow> [CmdSet k v]
      | Normal (Delete k) \<Rightarrow> [CmdDelete k]
      | _ \<Rightarrow> []) @ entry_cmds es"

fun entry_members ::
  "('l, 'mem) oentry list \<Rightarrow> ('l, 'mem) stored_membership \<Rightarrow> ('l, 'mem) stored_membership" where
  "entry_members [] m = m"
| "entry_members (e # es) m =
     entry_members es
       (case oe_payload e of
          Membership x \<Rightarrow> \<lparr>stm_log_id = Some (oe_log_id e), stm_membership = x\<rparr>
        | _ \<Rightarrow> m)"

fun entry_applied :: "('l, 'mem) oentry list \<Rightarrow> 'l log_id option \<Rightarrow> 'l log_id option" where
  "entry_applied [] l = l"
| "entry_applied (e # es) l = entry_applied es (Some (oe_log_id e))"

definition entry_reply :: "('l, 'mem) oentry \<Rightarrow> app_response_data" where
  "entry_reply e = \<lparr>rsp_value = (case oe_payload e of Normal (Set k v) \<Rightarrow> Some v | _ \<Rightarrow> None)\<rparr>"

lemma entry_applied_last:
  "entry_applied es l = (if es = [] then l else Some (oe_log_id (last es)))"
  by (induction es arbitrary: l) simp_all

lemma apply_entry_effect:
  assumes "sm_live st" and "apply_entry st e = (st', r)"
  shows "sm_live st' \<and> sm_map st' = spec_run (entry_cmds [e]) (sm_map st) \<and>
    applied (snd st') = Some (oe_log_id e) \<and> members (snd st') = entry_members [e] (members (snd st)) \<and>
    kvs_cell (sm_data (snd st')) = kvs_cell (sm_data (snd st)) \<and>
    sm_snapshot_idx (snd st') = sm_snapshot_idx (snd st) \<and>
    w_db (fst st') = w_db (fst st) \<and> length (w_cells (fst st')) = length (w_cells (fst st)) \<and>
    (\<forall>c. c \<noteq> kvs_cell (sm_data (snd st)) \<longrightarrow> w_cells (fst st') ! c = w_cells (fst st) ! c) \<and>
    r = entry_reply e"
  using assms
  by (auto simp: apply_entry_def sm_live_def sm_map_def write_kvs_def read_kvs_def spec_run_def
      entry_reply_def fun_eq_iff split: entry_payload.splits app_request_data.splits prod.splits)

lemma spec_run_Nil [simp]: "spec_run [] m = m"
  by (simp add: spec_run_def)

lemma entry_cmds_Cons: "entry_cmds (e # es) = entry_cmds [e] @ entry_cmds es"
  by simp

lemma entry_members_Cons: "entry_members (e # es) m = entry_members es (entry_members [e] m)"
  by simp

lemma apply_entries_effect:
  "sm_live st \<Longrightarrow> apply_entries st es = (st', rs) \<Longrightarrow>
    sm_live st' \<and> sm_map st' = spec_run (entry_cmds es) (sm_map st) \<and>
    applied (snd st') = entry_applied es (applied (snd st)) \<and>
    members (snd st') = entry_members es (members (snd st)) \<and>
    kvs_cell (sm_data (snd st')) = kvs_cell (sm_data (snd st)) \<and>
    sm_snapshot_idx (snd st') = sm_snapshot_idx (snd st) \<and>
    w_db (fst st') = w_db (fst st) \<and> length (w_cells (fst st')) = length (w_cells (fst st)) \<and>
    (\<forall>c. c \<noteq> kvs_cell (sm_data (snd st)) \<longrightarrow> w_cells (fst st') ! c = w_cells (fst st) ! c) \<and>
    rs = map entry_reply es"
proof (induction es arbitrary: st st' rs)
  case Nil
  then show ?case by simp
next
  case (Cons e es)
  obtain st1 r where 1: "apply_entry st e = (st1, r)" by fastforce
  obtain st2 rs2 where 2: "apply_entries st1 es = (st2, rs2)" by fastforce
  note E = apply_entry_effect [OF Cons.prems(1) 1]
  note I = Cons.IH [OF conjunct1 [OF E] 2]
  have eq: "st' = st2" "rs = r # rs2" using Cons.prems(2) 1 2 by simp_all
  show ?case
    unfolding eq entry_cmds_Cons [of e es] entry_members_Cons [of e es] spec_run_append
    using E I by (simp del: entry_cmds.simps entry_members.simps)
qed

lemma apply_entries_append:
  "apply_entries st (es @ fs) =
     (let (st1, r1) = apply_entries st es; (st2, r2) = apply_entries st1 fs in (st2, r1 @ r2))"
  by (induction es arbitrary: st) (simp_all add: case_prod_beta Let_def)

lemma sm_apply_obtain:
  assumes "sm_live st"
  obtains st' where "sm_apply st es = (st', Inr (map entry_reply es))" "sm_live st'"
    "sm_map st' = spec_run (entry_cmds es) (sm_map st)"
    "applied (snd st') = entry_applied es (applied (snd st))"
    "members (snd st') = entry_members es (members (snd st))"
    "kvs_cell (sm_data (snd st')) = kvs_cell (sm_data (snd st))"
    "sm_snapshot_idx (snd st') = sm_snapshot_idx (snd st)"
    "w_db (fst st') = w_db (fst st)" "length (w_cells (fst st')) = length (w_cells (fst st))"
    "\<forall>c. c \<noteq> kvs_cell (sm_data (snd st)) \<longrightarrow> w_cells (fst st') ! c = w_cells (fst st) ! c"
proof -
  obtain st' rs where "apply_entries st es = (st', rs)" by fastforce
  with apply_entries_effect [OF assms this] that show thesis by (simp add: sm_apply_def)
qed

lemma read_kvs_eq: "sm_map st = sm_map st' \<Longrightarrow> read_kvs (fst st) (snd st) = read_kvs (fst st') (snd st')"
  unfolding sm_map_def by (rule fmap_ext) simp

subsection \<open>A component of the key-value contract\<close>

definition osm_set ::
  "'l log_id \<Rightarrow> unit \<Rightarrow> 'db sm_world \<times> ('l, 'mem) state_machine_store \<Rightarrow> string \<Rightarrow> string \<Rightarrow>
   ('db sm_world \<times> ('l, 'mem) state_machine_store) \<times> (storage_error + unit)" where
  "osm_set l x st k v = (fst (sm_apply st [\<lparr>oe_log_id = l, oe_payload = Normal (Set k v)\<rparr>]), Inr ())"

definition osm_delete ::
  "'l log_id \<Rightarrow> 'db sm_world \<times> ('l, 'mem) state_machine_store \<Rightarrow> string \<Rightarrow>
   ('db sm_world \<times> ('l, 'mem) state_machine_store) \<times> (storage_error + unit)" where
  "osm_delete l st k = (fst (sm_apply st [\<lparr>oe_log_id = l, oe_payload = Normal (Delete k)\<rparr>]), Inr ())"

lemma osm_set_effect:
  "sm_live st \<Longrightarrow> sm_live (fst (osm_set l x st k v)) \<and> sm_map (fst (osm_set l x st k v)) = (sm_map st)(k \<mapsto> v)"
  unfolding osm_set_def
  by (erule sm_apply_obtain [where es = "[\<lparr>oe_log_id = l, oe_payload = Normal (Set k v)\<rparr>]"])
    (simp add: spec_run_def)

lemma osm_delete_effect:
  "sm_live st \<Longrightarrow> sm_live (fst (osm_delete l st k)) \<and> sm_map (fst (osm_delete l st k)) = (sm_map st)(k := None)"
  unfolding osm_delete_def
  by (erule sm_apply_obtain [where es = "[\<lparr>oe_log_id = l, oe_payload = Normal (Delete k)\<rparr>]"])
    (simp add: spec_run_def)

interpretation osm: kv_store "osm_set l" "osm_delete l" "\<lambda>st k. Inr (sm_map st k)" sm_live "\<lambda>k. True" sm_map
  for l :: "'l log_id"
  by unfold_locales (simp_all add: osm_set_effect osm_delete_effect, simp_all add: osm_set_def osm_delete_def)

subsection \<open>Applying\<close>

text \<open>
  C2: Applying committed entries refines the abstract machine: the map becomes the run of their
  commands on the old map, so a key holds the value of the last command on it; the applied
  position is that of the last entry, the membership that of the last membership entry; there
  is one reply per entry, carrying the value of a set; neither the database nor the map of any
  other machine changes.
\<close>

theorem apply_refines_commands:
  assumes "sm_live st"
  shows "\<exists>st'. sm_apply st es = (st', Inr (map entry_reply es)) \<and> sm_live st' \<and>
    sm_map st' = spec_run (entry_cmds es) (sm_map st) \<and>
    (\<forall>k. sm_map st' k = (case last_value (entry_cmds es) k of None \<Rightarrow> sm_map st k | Some r \<Rightarrow> r)) \<and>
    applied (snd st') = (if es = [] then applied (snd st) else Some (oe_log_id (last es))) \<and>
    members (snd st') = entry_members es (members (snd st)) \<and> w_db (fst st') = w_db (fst st) \<and>
    (\<forall>c. c \<noteq> kvs_cell (sm_data (snd st)) \<longrightarrow> w_cells (fst st') ! c = w_cells (fst st) ! c)"
  by (rule sm_apply_obtain [OF assms, of es]) (auto simp: spec_run_last_value entry_applied_last)

definition ref_sm :: "mem_db sm_world \<times> (u64, u64) state_machine_store" where
  "ref_sm = (\<lparr>w_db = [], w_cells = [fmempty]\<rparr>,
     \<lparr>sm_data = \<lparr>last_applied_log_id = None,
        last_membership = \<lparr>stm_log_id = None, stm_membership = 0\<rparr>, kvs_cell = 0\<rparr>, sm_snapshot_idx = 0\<rparr>)"

lemma ref_sm_live [simp]: "sm_live ref_sm"
  by (simp add: sm_live_def ref_sm_def)

lemma ref_sm_map [simp]: "sm_map ref_sm = Map.empty"
  by (simp add: sm_map_def read_kvs_def ref_sm_def fun_eq_iff)

definition ref_sets :: "(u64, u64) oentry list" where
  "ref_sets = [ref_oentry 1 (Normal (Set ''a'' ''1'')), ref_oentry 2 (Membership 7),
     ref_oentry 3 (Normal (Set ''a'' ''2'')), ref_oentry 4 (Normal (Delete ''b''))]"

lemma apply_refines_commands_witness:
  "\<exists>st'. sm_apply ref_sm ref_sets =
      (st', Inr [\<lparr>rsp_value = Some ''1''\<rparr>, \<lparr>rsp_value = None\<rparr>, \<lparr>rsp_value = Some ''2''\<rparr>, \<lparr>rsp_value = None\<rparr>]) \<and>
    sm_map st' ''a'' = Some ''2''"
  using apply_refines_commands [OF ref_sm_live, of ref_sets]
  by (auto simp: ref_sets_def ref_oentry_def entry_reply_def)

text \<open>
  Replicas agree, however the log is cut into batches: two machines that hold the same state and
  apply the same entries, one in a single call and the other in two, hold the same state again
  and give the same replies.
\<close>

lemma replicas_agree_on_batches:
  assumes "sm_live st" and "sm_live t" and "sm_view st = sm_view t"
  shows "\<exists>st' t1 t2. sm_apply st (es @ fs) = (st', Inr (map entry_reply es @ map entry_reply fs)) \<and>
    sm_apply t es = (t1, Inr (map entry_reply es)) \<and> sm_apply t1 fs = (t2, Inr (map entry_reply fs)) \<and>
    sm_view st' = sm_view t2"
proof -
  from assms(3) have maps: "sm_map st = sm_map t" and data: "applied (snd st) = applied (snd t)"
    "members (snd st) = members (snd t)"
    by (simp_all add: sm_view_def sm_map_def)
  obtain t1 where t1: "sm_apply t es = (t1, Inr (map entry_reply es))" "sm_live t1"
    by (rule sm_apply_obtain [OF assms(2), of es])
  obtain t2 where t2: "sm_apply t1 fs = (t2, Inr (map entry_reply fs))"
    by (rule sm_apply_obtain [OF t1(2), of fs])
  have both: "sm_apply t (es @ fs) = (t2, Inr (map entry_reply es @ map entry_reply fs))"
    using t1(1) t2 by (auto simp: sm_apply_def apply_entries_append split: prod.splits)
  obtain t' where t': "sm_apply t (es @ fs) = (t', Inr (map entry_reply (es @ fs)))"
    "sm_map t' = spec_run (entry_cmds (es @ fs)) (sm_map t)"
    "applied (snd t') = entry_applied (es @ fs) (applied (snd t))"
    "members (snd t') = entry_members (es @ fs) (members (snd t))"
    by (rule sm_apply_obtain [OF assms(2), of "es @ fs"])
  obtain s' where s': "sm_apply st (es @ fs) = (s', Inr (map entry_reply (es @ fs)))"
    "sm_map s' = spec_run (entry_cmds (es @ fs)) (sm_map st)"
    "applied (snd s') = entry_applied (es @ fs) (applied (snd st))"
    "members (snd s') = entry_members (es @ fs) (members (snd st))"
    by (rule sm_apply_obtain [OF assms(1), of "es @ fs"])
  have "sm_view s' = sm_view t2"
    using s' t' both maps data read_kvs_eq [of s' t'] by (simp add: sm_view_def)
  with s'(1) t1(1) t2 show ?thesis by (simp del: split_paired_Ex)
qed

lemma replicas_agree_on_batches_witness:
  "\<exists>st' t1 t2. sm_apply ref_sm (ref_sets @ ref_oentries) =
      (st', Inr (map entry_reply ref_sets @ map entry_reply ref_oentries)) \<and>
    sm_apply ref_sm ref_sets = (t1, Inr (map entry_reply ref_sets)) \<and>
    sm_apply t1 ref_oentries = (t2, Inr (map entry_reply ref_oentries)) \<and> sm_view st' = sm_view t2"
  by (rule replicas_agree_on_batches [OF ref_sm_live ref_sm_live refl])

subsection \<open>The snapshot life cycle\<close>

context openraft_env
begin

lemma set_current_snapshot_effect:
  "\<exists>db' json. set_current_snapshot X db s = (db', Ret (Inr ())) \<and>
     stored_current_snapshot X db' = Inr (Some s) \<and> cell_written X db ''snapshot'' json db'"
proof -
  obtain db' where db': "put_and_flush X db ''snapshot'' (str_bytes (js_text (o_snapshot X) s))
      SE_write_snapshot SubjectSnapshot = (db', Inr ())"
    "cell_written X db ''snapshot'' (str_bytes (js_text (o_snapshot X) s)) db'"
    using put_and_flush_cell by blast
  have "set_current_snapshot X db s = (db', Ret (Inr ()))"
    by (simp add: set_current_snapshot_def to_vec_text db'(1))
  moreover have "stored_current_snapshot X db' = Inr (Some s)"
    by (simp add: stored_current_snapshot_def get_stored_cell [OF db'(2)] from_slice_text)
  ultimately show ?thesis using db'(2) by blast
qed

lemma build_snapshot_obtain:
  obtains db' sn where
    "build_snapshot X show_leader w sm = (w\<lparr>w_db := db'\<rparr>, Ret (Inr sn))"
    "stored_current_snapshot X db' = Inr (Some \<lparr>ss_meta = sn_meta sn, ss_data = sn_snapshot sn\<rparr>)"
    "\<exists>json. cell_written X (w_db w) ''snapshot'' json db'"
    "sme_last_log_id (sn_meta sn) = applied sm" "sme_last_membership (sn_meta sn) = members sm"
    "sme_snapshot_id (sn_meta sn) = snapshot_id_of show_leader (applied sm) (sm_snapshot_idx sm)"
    "js_from_slice (o_kvs X) (sn_snapshot sn) = Inr (read_kvs w sm)"
proof -
  let ?meta = "\<lparr>sme_last_log_id = applied sm, sme_last_membership = members sm,
     sme_snapshot_id = snapshot_id_of show_leader (applied sm) (sm_snapshot_idx sm)\<rparr>"
  let ?json = "str_bytes (js_text (o_kvs X) (read_kvs w sm))"
  obtain db' where db': "set_current_snapshot X (w_db w) \<lparr>ss_meta = ?meta, ss_data = ?json\<rparr> = (db', Ret (Inr ()))"
    "stored_current_snapshot X db' = Inr (Some \<lparr>ss_meta = ?meta, ss_data = ?json\<rparr>)"
    "\<exists>json. cell_written X (w_db w) ''snapshot'' json db'"
    using set_current_snapshot_effect by blast
  show thesis
    by (rule that [of db' "\<lparr>sn_meta = ?meta, sn_snapshot = ?json\<rparr>"])
      (simp_all add: build_snapshot_def to_vec_text db' from_slice_text Let_def)
qed

lemma update_state_machine_effect:
  assumes "sm_live st" and "js_from_slice (o_kvs X) (ss_data s) = Inr m"
  obtains st' where "update_state_machine X st s = (st', Inr ())" "sm_live st'"
    "sm_view st' = (sme_last_log_id (ss_meta s), sme_last_membership (ss_meta s), m)"
    "w_db (fst st') = w_db (fst st)"
    "\<forall>c. c \<noteq> kvs_cell (sm_data (snd st)) \<longrightarrow> w_cells (fst st') ! c = w_cells (fst st) ! c"
    "kvs_cell (sm_data (snd st')) = kvs_cell (sm_data (snd st))"
proof -
  obtain w sm where st: "st = (w, sm)" by fastforce
  let ?sm = "sm\<lparr>sm_data := (sm_data sm)\<lparr>last_applied_log_id := sme_last_log_id (ss_meta s),
     last_membership := sme_last_membership (ss_meta s)\<rparr>\<rparr>"
  show thesis
    by (rule that [of "(write_kvs w ?sm m, ?sm)"])
      (use assms in \<open>simp_all add: st update_state_machine_def sm_live_def sm_view_def read_kvs_def write_kvs_def Let_def\<close>)
qed

lemma install_snapshot_obtain:
  assumes "sm_live st" and "js_from_slice (o_kvs X) data = Inr m"
  obtains st' where "install_snapshot X st meta data = (st', Ret (Inr ()))" "sm_live st'"
    "sm_view st' = (sme_last_log_id meta, sme_last_membership meta, m)"
    "stored_current_snapshot X (w_db (fst st')) = Inr (Some \<lparr>ss_meta = meta, ss_data = data\<rparr>)"
    "\<exists>json. cell_written X (w_db (fst st)) ''snapshot'' json (w_db (fst st'))"
    "\<forall>c. c \<noteq> kvs_cell (sm_data (snd st)) \<longrightarrow> w_cells (fst st') ! c = w_cells (fst st) ! c"
    "kvs_cell (sm_data (snd st')) = kvs_cell (sm_data (snd st))"
proof -
  have "js_from_slice (o_kvs X) (ss_data \<lparr>ss_meta = meta, ss_data = data\<rparr>) = Inr m"
    using assms(2) by simp
  then obtain st1 where st1: "update_state_machine X st \<lparr>ss_meta = meta, ss_data = data\<rparr> = (st1, Inr ())"
    "sm_live st1" "sm_view st1 = (sme_last_log_id meta, sme_last_membership meta, m)"
    "w_db (fst st1) = w_db (fst st)"
    "\<forall>c. c \<noteq> kvs_cell (sm_data (snd st)) \<longrightarrow> w_cells (fst st1) ! c = w_cells (fst st) ! c"
    "kvs_cell (sm_data (snd st1)) = kvs_cell (sm_data (snd st))"
    by (rule update_state_machine_effect [OF assms(1)]) simp
  obtain db' where db': "set_current_snapshot X (w_db (fst st1)) \<lparr>ss_meta = meta, ss_data = data\<rparr> = (db', Ret (Inr ()))"
    "stored_current_snapshot X db' = Inr (Some \<lparr>ss_meta = meta, ss_data = data\<rparr>)"
    "\<exists>json. cell_written X (w_db (fst st1)) ''snapshot'' json db'"
    using set_current_snapshot_effect by blast
  obtain w1 sm1 where w1: "st1 = (w1, sm1)" by fastforce
  show thesis
    by (rule that [of "(w1\<lparr>w_db := db'\<rparr>, sm1)"])
      (use st1 db' in \<open>simp_all add: w1 install_snapshot_def Let_def sm_live_def sm_view_def read_kvs_def\<close>)
qed

end

lemma sm_new_stored:
  assumes "stored_current_snapshot X (w_db w) = Inr (Some s)" and "js_from_slice (o_kvs X) (ss_data s) = Inr m"
  shows "\<exists>w' sm. sm_new X dm w = (w', Inr sm) \<and> sm_live (w', sm) \<and> w_db w' = w_db w \<and>
    sm_view (w', sm) = (sme_last_log_id (ss_meta s), sme_last_membership (ss_meta s), m)"
  using assms
  by (simp add: sm_new_def update_state_machine_def sm_live_def sm_view_def read_kvs_def write_kvs_def Let_def)

text \<open>
  C26: A snapshot survives a restart: building one on a live machine succeeds, changes neither the
  machine nor the log, becomes the current snapshot, and a machine opened on the database
  afterwards holds exactly the applied position, the membership and the map of the machine that
  built it.
\<close>

theorem snapshot_restores_after_restart:
  assumes "oenv_up X" and "build_snapshot X show_leader w sm = (w', r)"
  shows "\<exists>sn. r = Ret (Inr sn) \<and> sm_view (w', sm) = sm_view (w, sm) \<and>
    olog_at X (w_db w') = olog_at X (w_db w) \<and> get_current_snapshot X (w_db w') = Inr (Some sn) \<and>
    (\<exists>w2 sm2. sm_new X dm w' = (w2, Inr sm2) \<and> sm_live (w2, sm2) \<and> sm_view (w2, sm2) = sm_view (w, sm))"
proof -
  note env = openraft_env.intro [OF assms(1)]
  obtain db' sn where b: "w' = w\<lparr>w_db := db'\<rparr>" "r = Ret (Inr sn)"
    "stored_current_snapshot X db' = Inr (Some \<lparr>ss_meta = sn_meta sn, ss_data = sn_snapshot sn\<rparr>)"
    "olog_at X db' = olog_at X (w_db w)"
    "sme_last_log_id (sn_meta sn) = applied sm" "sme_last_membership (sn_meta sn) = members sm"
    "js_from_slice (o_kvs X) (sn_snapshot sn) = Inr (read_kvs w sm)"
    by (rule openraft_env.build_snapshot_obtain [OF env, of show_leader w sm])
      (use assms(2) in \<open>auto dest: olog_at_cell\<close>)
  have stored: "stored_current_snapshot X (w_db w') = Inr (Some \<lparr>ss_meta = sn_meta sn, ss_data = sn_snapshot sn\<rparr>)"
    using b by simp
  obtain w2 sm2 where "sm_new X dm w' = (w2, Inr sm2)" "sm_live (w2, sm2)"
    "sm_view (w2, sm2) = (applied sm, members sm, read_kvs w sm)"
    using sm_new_stored [OF stored, of "read_kvs w sm" dm] b by auto
  moreover have "sm_view (w', sm) = sm_view (w, sm)" "sm_view (w, sm) = (applied sm, members sm, read_kvs w sm)"
    by (simp_all add: sm_view_def read_kvs_def b(1))
  moreover have "get_current_snapshot X (w_db w') = Inr (Some sn)"
    by (simp add: get_current_snapshot_def stored)
  ultimately show ?thesis using b by simp
qed

definition ref_leader :: "u64 \<Rightarrow> string" where
  "ref_leader l = show_u64 l"

lemma snapshot_restores_after_restart_witness:
  "\<exists>sn w2 sm2. snd (build_snapshot ref_oenv ref_leader (fst ref_sm) (snd ref_sm)) = Ret (Inr sn) \<and>
     sm_new ref_oenv 0 (fst (build_snapshot ref_oenv ref_leader (fst ref_sm) (snd ref_sm))) = (w2, Inr sm2) \<and>
     sm_view (w2, sm2) = sm_view ref_sm"
  using snapshot_restores_after_restart [OF ref_oenv_up, of ref_leader "fst ref_sm" "snd ref_sm" _ _ 0, OF surjective_pairing]
  by auto

text \<open>
  C12: Installing a snapshot replaces the whole state: a machine that installs what another one
  built then holds exactly the other's applied position, membership and map, whatever it held
  before, and keeps the snapshot as its current one; data that does not parse is refused with
  an error that changes neither the machine nor the database.
\<close>

theorem install_copies_or_refuses:
  assumes "oenv_up X" and "sm_live st"
  shows "(\<forall>w sm w' sn. build_snapshot X show_leader w sm = (w', Ret (Inr sn)) \<longrightarrow>
      (\<exists>st'. install_snapshot X st (sn_meta sn) (sn_snapshot sn) = (st', Ret (Inr ())) \<and>
        sm_live st' \<and> sm_view st' = sm_view (w, sm) \<and>
        get_current_snapshot X (w_db (fst st')) = Inr (Some sn))) \<and>
    (\<forall>meta data e. js_from_slice (o_kvs X) data = Inl e \<longrightarrow>
      install_snapshot X st meta data = (st, Ret (Inl (SE_read_snapshot e))))"
proof (intro conjI allI impI)
  note env = openraft_env.intro [OF assms(1)]
  fix w :: "'a sm_world" and sm w' sn
  assume built: "build_snapshot X show_leader w sm = (w', Ret (Inr sn))"
  have sn: "sme_last_log_id (sn_meta sn) = applied sm" "sme_last_membership (sn_meta sn) = members sm"
    "js_from_slice (o_kvs X) (sn_snapshot sn) = Inr (read_kvs w sm)"
    by (rule openraft_env.build_snapshot_obtain [OF env, of show_leader w sm], use built in simp)+
  obtain st' where st': "install_snapshot X st (sn_meta sn) (sn_snapshot sn) = (st', Ret (Inr ()))" "sm_live st'"
    "sm_view st' = (sme_last_log_id (sn_meta sn), sme_last_membership (sn_meta sn), read_kvs w sm)"
    "stored_current_snapshot X (w_db (fst st')) = Inr (Some \<lparr>ss_meta = sn_meta sn, ss_data = sn_snapshot sn\<rparr>)"
    by (rule openraft_env.install_snapshot_obtain [OF env assms(2) sn(3)])
  moreover have "sm_view (w, sm) = (applied sm, members sm, read_kvs w sm)" by (simp add: sm_view_def)
  ultimately show "\<exists>st'. install_snapshot X st (sn_meta sn) (sn_snapshot sn) = (st', Ret (Inr ())) \<and>
        sm_live st' \<and> sm_view st' = sm_view (w, sm) \<and>
        get_current_snapshot X (w_db (fst st')) = Inr (Some sn)"
    using sn by (intro exI [of _ st']) (simp add: get_current_snapshot_def)
next
  fix meta data e
  assume "js_from_slice (o_kvs X) data = Inl e"
  then show "install_snapshot X st meta data = (st, Ret (Inl (SE_read_snapshot e)))"
    by (cases st) (simp add: install_snapshot_def update_state_machine_def)
qed

lemma ref_build:
  "\<exists>w' sn. build_snapshot ref_oenv ref_leader w sm = (w', Ret (Inr sn))"
  by (rule oref.build_snapshot_obtain) blast

lemma ref_bad_kvs: "\<exists>e. js_from_slice (o_kvs ref_oenv) [] = Inl e"
  by (simp add: ref_oenv_def ref_serde_def ref_json_parse_def bytes_str_def)

definition ref_other :: "mem_db sm_world \<times> (u64, u64) state_machine_store" where
  "ref_other = fst (sm_apply ref_sm ref_sets)"

lemma install_copies_or_refuses_witness:
  "(\<exists>w' sn st'. build_snapshot ref_oenv ref_leader (fst ref_other) (snd ref_other) = (w', Ret (Inr sn)) \<and>
      install_snapshot ref_oenv ref_sm (sn_meta sn) (sn_snapshot sn) = (st', Ret (Inr ())) \<and>
      sm_view st' = sm_view ref_other) \<and>
   (\<exists>e. \<forall>meta. install_snapshot ref_oenv ref_sm meta [] = (ref_sm, Ret (Inl (SE_read_snapshot e))))"
proof -
  note I = install_copies_or_refuses [OF ref_oenv_up ref_sm_live, of ref_leader]
  obtain w' sn where sn: "build_snapshot ref_oenv ref_leader (fst ref_other) (snd ref_other) = (w', Ret (Inr sn))"
    using ref_build by blast
  obtain e where e: "js_from_slice (o_kvs ref_oenv) [] = Inl e"
    using ref_bad_kvs by blast
  from conjunct1 [OF I] sn
  obtain st' where "install_snapshot ref_oenv ref_sm (sn_meta sn) (sn_snapshot sn) = (st', Ret (Inr ()))"
    "sm_view st' = sm_view (fst ref_other, snd ref_other)" by blast
  moreover from conjunct2 [OF I] e
  have "\<forall>meta. install_snapshot ref_oenv ref_sm meta [] = (ref_sm, Ret (Inl (SE_read_snapshot e)))" by blast
  ultimately show ?thesis using sn by (simp del: split_paired_Ex)
qed

text \<open>The map of a machine after a run of commands is the same however often the run is repeated.\<close>

lemma spec_run_idem: "spec_run cs (spec_run cs m) = spec_run cs m"
  by (rule ext) (simp add: spec_run_last_value split: option.split)

text \<open>
  A snapshot builder shares the live machine's map, so the entries applied between
  \<open>get_snapshot_builder\<close> and \<open>build_snapshot\<close> are in the snapshot's data although its metadata
  names the older position.  No replica diverges from it: a machine that installs the snapshot
  and replays those entries ends in the same state as the machine that built it.
\<close>

lemma early_builder_converges:
  assumes "oenv_up X" and "sm_live (w, sm)" and "sm_live st" and "es \<noteq> []"
    and "get_snapshot_builder sm = (sm1, builder)"
    and "sm_apply (w, sm1) es = ((w2, sm2), Inr replies)"
    and "build_snapshot X show_leader w2 builder = (w3, Ret (Inr sn))"
  shows "sme_last_log_id (sn_meta sn) = applied sm \<and>
    js_from_slice (o_kvs X) (sn_snapshot sn) = Inr (read_kvs w2 sm2) \<and>
    (\<exists>st1 st2. install_snapshot X st (sn_meta sn) (sn_snapshot sn) = (st1, Ret (Inr ())) \<and>
       sm_apply st1 es = (st2, Inr replies) \<and> sm_view st2 = sm_view (w2, sm2))"
proof -
  note env = openraft_env.intro [OF assms(1)]
  have b: "sm1 = builder" "sm_data builder = sm_data sm"
    using assms(5) by (auto simp: get_snapshot_builder_def Let_def)
  have live: "sm_live (w, sm1)" using assms(2) b by (simp add: sm_live_def)
  obtain s2 where s2: "s2 = (w2, sm2)" "replies = map entry_reply es"
    "sm_map s2 = spec_run (entry_cmds es) (sm_map (w, sm1))"
    "applied (snd s2) = entry_applied es (applied sm)"
    "members (snd s2) = entry_members es (members sm)"
    "kvs_cell (sm_data (snd s2)) = kvs_cell (sm_data sm)"
    by (rule sm_apply_obtain [OF live, of es]) (use assms(6) b in auto)
  have cell: "read_kvs w2 builder = read_kvs w2 sm2"
    using s2 b by (simp add: read_kvs_def)
  have sn: "sme_last_log_id (sn_meta sn) = applied sm" "sme_last_membership (sn_meta sn) = members sm"
    "js_from_slice (o_kvs X) (sn_snapshot sn) = Inr (read_kvs w2 sm2)"
    by (rule openraft_env.build_snapshot_obtain [OF env, of show_leader w2 builder],
        use assms(7) b cell in simp)+
  obtain st1 where st1: "install_snapshot X st (sn_meta sn) (sn_snapshot sn) = (st1, Ret (Inr ()))" "sm_live st1"
    "sm_view st1 = (sme_last_log_id (sn_meta sn), sme_last_membership (sn_meta sn), read_kvs w2 sm2)"
    by (rule openraft_env.install_snapshot_obtain [OF env assms(3) sn(3)])
  obtain st2 where st2: "sm_apply st1 es = (st2, Inr replies)"
    "sm_map st2 = spec_run (entry_cmds es) (sm_map st1)"
    "applied (snd st2) = entry_applied es (applied (snd st1))"
    "members (snd st2) = entry_members es (members (snd st1))"
    by (rule sm_apply_obtain [OF st1(2), of es]) (use s2(2) in auto)
  have m1: "sm_map st1 = sm_map s2" "applied (snd st1) = applied sm" "members (snd st1) = members sm"
    using st1(3) sn s2(1) by (simp_all add: sm_view_def sm_map_def)
  have "sm_map st2 = sm_map s2" using st2(2) m1(1) s2(3) by (simp add: spec_run_idem)
  from read_kvs_eq [OF this] have "sm_view st2 = sm_view (w2, sm2)"
    using st2 s2 m1 by (simp add: sm_view_def)
  with st1(1) st2(1) sn show ?thesis by blast
qed

definition ref_builder :: "(u64, u64) state_machine_store" where
  "ref_builder = snd (get_snapshot_builder (snd ref_sm))"

definition ref_later :: "mem_db sm_world \<times> (u64, u64) state_machine_store" where
  "ref_later = fst (sm_apply (fst ref_sm, ref_builder) ref_sets)"

lemma early_builder_converges_witness:
  "\<exists>w3 sn st1 st2. build_snapshot ref_oenv ref_leader (fst ref_later) ref_builder = (w3, Ret (Inr sn)) \<and>
     install_snapshot ref_oenv ref_sm (sn_meta sn) (sn_snapshot sn) = (st1, Ret (Inr ())) \<and>
     sm_apply st1 ref_sets = (st2, Inr (map entry_reply ref_sets)) \<and> sm_view st2 = sm_view ref_later"
proof -
  obtain w3 sn where sn: "build_snapshot ref_oenv ref_leader (fst ref_later) ref_builder = (w3, Ret (Inr sn))"
    using ref_build by blast
  have live: "sm_live (fst ref_sm, snd ref_sm)" "sm_live (fst ref_sm, ref_builder)"
    by (simp_all add: sm_live_def ref_sm_def ref_builder_def get_snapshot_builder_def Let_def)
  have builder: "get_snapshot_builder (snd ref_sm) = (ref_builder, ref_builder)"
    by (simp add: ref_builder_def get_snapshot_builder_def Let_def)
  have later: "sm_apply (fst ref_sm, ref_builder) ref_sets =
      ((fst ref_later, snd ref_later), Inr (map entry_reply ref_sets))"
    by (rule sm_apply_obtain [OF live(2), of ref_sets]) (simp add: ref_later_def)
  have "ref_sets \<noteq> []" by (simp add: ref_sets_def)
  from conjunct2 [OF conjunct2 [OF early_builder_converges [OF ref_oenv_up live(1) ref_sm_live this builder later sn]]]
  show ?thesis using sn by (simp del: split_paired_Ex)
qed

end
