(* ===== verification/Replicas.thy ===== *)
theory Replicas
  imports Log_Refinement State_Machine_Props
begin

section \<open>Replicas of one committed log\<close>

text \<open>
  The nodes of a cluster on the openraft path, each a database with its log store and its state
  machine.  What openraft itself supplies is the committed log, the same for every node, and when
  it calls the storage: a node applies the entries after its position, asks for a snapshot builder
  and lets it build later, installs a snapshot another node built when that one is not behind it,
  works on its own log store, and may stop and start again at any moment.  The steps run the code's
  operations; the theorems hold of every state they reach.
\<close>

subsection \<open>States and steps\<close>

record ('db, 'l, 'mem) replica =
  rp_world :: "'db sm_world"
  rp_sm :: "('l, 'mem) state_machine_store"
  rp_builder :: "('l, 'mem) state_machine_store option"

record ('db, 'l, 'mem) cluster =
  cl_log :: "('l, 'mem) oentry list"
  cl_snaps :: "('l, 'mem) osnapshot list"
  cl_nodes :: "nat \<Rightarrow> ('db, 'l, 'mem) replica"

definition to_apply :: "('l, 'mem) oentry list \<Rightarrow> ('l, 'mem) state_machine_store \<Rightarrow> nat \<Rightarrow> ('l, 'mem) oentry list" where
  "to_apply log sm n = take n (drop (next_pos (applied sm)) log)"

inductive replica_step ::
  "('db, 'l, 'v, 'mem) oenv \<Rightarrow> 'mem \<Rightarrow> ('l \<Rightarrow> string) \<Rightarrow> ('l, 'mem) oentry list \<Rightarrow>
   ('l, 'mem) osnapshot list \<Rightarrow> ('db, 'l, 'mem) replica \<Rightarrow>
   ('l, 'mem) osnapshot list \<Rightarrow> ('db, 'l, 'mem) replica \<Rightarrow> bool"
  for X dm show_leader log where
  rs_apply: "sm_apply (w, sm) (to_apply log sm n) = ((w', sm'), Inr replies) \<Longrightarrow>
     replica_step X dm show_leader log snaps \<lparr>rp_world = w, rp_sm = sm, rp_builder = b\<rparr>
       snaps \<lparr>rp_world = w', rp_sm = sm', rp_builder = b\<rparr>"
| rs_builder: "get_snapshot_builder sm = (sm', builder) \<Longrightarrow>
     replica_step X dm show_leader log snaps \<lparr>rp_world = w, rp_sm = sm, rp_builder = b\<rparr>
       snaps \<lparr>rp_world = w, rp_sm = sm', rp_builder = Some builder\<rparr>"
| rs_build: "build_snapshot X show_leader w builder = (w', Ret (Inr sn)) \<Longrightarrow>
     replica_step X dm show_leader log snaps \<lparr>rp_world = w, rp_sm = sm, rp_builder = Some builder\<rparr>
       (sn # snaps) \<lparr>rp_world = w', rp_sm = sm, rp_builder = None\<rparr>"
| rs_install: "sn \<in> set snaps \<Longrightarrow> next_pos (applied sm) \<le> next_pos (sme_last_log_id (sn_meta sn)) \<Longrightarrow>
     install_snapshot X (w, sm) (sn_meta sn) (sn_snapshot sn) = ((w', sm'), Ret (Inr ())) \<Longrightarrow>
     replica_step X dm show_leader log snaps \<lparr>rp_world = w, rp_sm = sm, rp_builder = b\<rparr>
       snaps \<lparr>rp_world = w', rp_sm = sm', rp_builder = b\<rparr>"
| rs_log: "al_rep X (w_db w) a \<Longrightarrow> al_legal a op \<Longrightarrow> log_do X (w_db w) op = (db', r) \<Longrightarrow>
     replica_step X dm show_leader log snaps \<lparr>rp_world = w, rp_sm = sm, rp_builder = b\<rparr>
       snaps \<lparr>rp_world = w\<lparr>w_db := db'\<rparr>, rp_sm = sm, rp_builder = b\<rparr>"
| rs_restart: "new_storage X dm (\<lambda>path families. Inr (w_db w)) db_path = Ret (w', sm') \<Longrightarrow>
     replica_step X dm show_leader log snaps \<lparr>rp_world = w, rp_sm = sm, rp_builder = b\<rparr>
       snaps \<lparr>rp_world = w', rp_sm = sm', rp_builder = None\<rparr>"

inductive cluster_step ::
  "('db, 'l, 'v, 'mem) oenv \<Rightarrow> 'mem \<Rightarrow> ('l \<Rightarrow> string) \<Rightarrow> ('db, 'l, 'mem) cluster \<Rightarrow>
   ('db, 'l, 'mem) cluster \<Rightarrow> bool"
  for X dm show_leader where
  cs_commit: "consecutive 0 (cl_log c @ es) \<Longrightarrow>
     cluster_step X dm show_leader c (c\<lparr>cl_log := cl_log c @ es\<rparr>)"
| cs_node: "replica_step X dm show_leader (cl_log c) (cl_snaps c) (cl_nodes c i) snaps r \<Longrightarrow>
     cluster_step X dm show_leader c (c\<lparr>cl_snaps := snaps, cl_nodes := (cl_nodes c)(i := r)\<rparr>)"

text \<open>At first every node has started on a database of its own with nothing in it.\<close>

definition started ::
  "('db, 'l, 'v, 'mem) oenv \<Rightarrow> 'mem \<Rightarrow> ('db, 'l, 'mem) replica \<Rightarrow> bool" where
  "started X dm r \<longleftrightarrow>
     (\<exists>db path. (\<forall>cf k. db_view (o_rocks X) db cf k = None) \<and> rp_builder r = None \<and>
        new_storage X dm (\<lambda>path families. Inr db) path = Ret (rp_world r, rp_sm r))"

inductive cluster_reach ::
  "('db, 'l, 'v, 'mem) oenv \<Rightarrow> 'mem \<Rightarrow> ('l \<Rightarrow> string) \<Rightarrow> ('db, 'l, 'mem) cluster \<Rightarrow> bool"
  for X dm show_leader where
  cr_start: "(\<And>i. started X dm (nodes i)) \<Longrightarrow>
     cluster_reach X dm show_leader \<lparr>cl_log = [], cl_snaps = [], cl_nodes = nodes\<rparr>"
| cr_step: "cluster_reach X dm show_leader c \<Longrightarrow> cluster_step X dm show_leader c c' \<Longrightarrow>
     cluster_reach X dm show_leader c'"

subsection \<open>Positions of the log\<close>

definition replay_map :: "('l, 'mem) oentry list \<Rightarrow> nat \<Rightarrow> string \<Rightarrow> string option" where
  "replay_map log k = spec_run (entry_cmds (take k log)) Map.empty"

definition replay_members :: "'mem \<Rightarrow> ('l, 'mem) oentry list \<Rightarrow> nat \<Rightarrow> ('l, 'mem) stored_membership" where
  "replay_members dm log k = entry_members (take k log) \<lparr>stm_log_id = None, stm_membership = dm\<rparr>"

text \<open>Every key has the value that the log gives it at position \<open>k\<close> or at a later one.\<close>

definition ahead :: "('l, 'mem) oentry list \<Rightarrow> nat \<Rightarrow> (string \<Rightarrow> string option) \<Rightarrow> bool" where
  "ahead log k m \<longleftrightarrow> (\<forall>key. \<exists>j. k \<le> j \<and> j \<le> length log \<and> m key = replay_map log j key)"

definition at_position ::
  "'mem \<Rightarrow> ('l, 'mem) oentry list \<Rightarrow> 'l log_id option \<Rightarrow> ('l, 'mem) stored_membership \<Rightarrow> bool" where
  "at_position dm log pos mem \<longleftrightarrow>
     next_pos pos \<le> length log \<and> pos = entry_applied (take (next_pos pos) log) None \<and>
     mem = replay_members dm log (next_pos pos)"

definition good_snapshot ::
  "('db, 'l, 'v, 'mem) oenv \<Rightarrow> 'mem \<Rightarrow> ('l, 'mem) oentry list \<Rightarrow> ('l, 'mem) snapshot_meta \<Rightarrow> bytes \<Rightarrow> bool" where
  "good_snapshot X dm log meta data \<longleftrightarrow>
     at_position dm log (sme_last_log_id meta) (sme_last_membership meta) \<and>
     (\<exists>m. js_from_slice (o_kvs X) data = Inr m \<and> ahead log (next_pos (sme_last_log_id meta)) (fmlookup m))"

definition good_builder ::
  "'mem \<Rightarrow> ('l, 'mem) oentry list \<Rightarrow> ('l, 'mem) state_machine_store \<Rightarrow> ('l, 'mem) state_machine_store \<Rightarrow> bool" where
  "good_builder dm log sm builder \<longleftrightarrow>
     at_position dm log (applied builder) (members builder) \<and>
     next_pos (applied builder) \<le> next_pos (applied sm) \<and> kvs_cell (sm_data builder) = kvs_cell (sm_data sm)"

definition good_replica ::
  "('db, 'l, 'v, 'mem) oenv \<Rightarrow> 'mem \<Rightarrow> ('l, 'mem) oentry list \<Rightarrow> ('db, 'l, 'mem) replica \<Rightarrow> bool" where
  "good_replica X dm log r \<longleftrightarrow>
     sm_live (rp_world r, rp_sm r) \<and> at_position dm log (applied (rp_sm r)) (members (rp_sm r)) \<and>
     ahead log (next_pos (applied (rp_sm r))) (sm_map (rp_world r, rp_sm r)) \<and>
     (\<forall>b. rp_builder r = Some b \<longrightarrow> good_builder dm log (rp_sm r) b) \<and>
     (\<exists>a. al_rep X (w_db (rp_world r)) a) \<and>
     (\<exists>stored. stored_current_snapshot X (w_db (rp_world r)) = Inr stored \<and>
        (\<forall>s. stored = Some s \<longrightarrow> good_snapshot X dm log (ss_meta s) (ss_data s)))"

definition good_cluster ::
  "('db, 'l, 'v, 'mem) oenv \<Rightarrow> 'mem \<Rightarrow> ('db, 'l, 'mem) cluster \<Rightarrow> bool" where
  "good_cluster X dm c \<longleftrightarrow>
     consecutive 0 (cl_log c) \<and> (\<forall>i. good_replica X dm (cl_log c) (cl_nodes c i)) \<and>
     (\<forall>sn \<in> set (cl_snaps c). good_snapshot X dm (cl_log c) (sn_meta sn) (sn_snapshot sn))"

subsection \<open>Moving along the log\<close>

lemma last_value_append:
  "last_value (cs @ ds) k = (case last_value ds k of Some r \<Rightarrow> Some r | None \<Rightarrow> last_value cs k)"
  by (induction cs) (auto split: option.splits)

lemma entry_cmds_append: "entry_cmds (es @ fs) = entry_cmds es @ entry_cmds fs"
  by (induction es) simp_all

lemma entry_members_append: "entry_members (es @ fs) m = entry_members fs (entry_members es m)"
  by (induction es arbitrary: m) simp_all

lemma replay_map_extend:
  "k \<le> j \<Longrightarrow> replay_map log j = spec_run (entry_cmds (take (j - k) (drop k log))) (replay_map log k)"
  unfolding replay_map_def
  by (simp flip: spec_run_append entry_cmds_append take_add)

text \<open>A key the entries between two positions do not mention has the same value at both.\<close>

lemma replay_map_untouched:
  "k \<le> j \<Longrightarrow> last_value (entry_cmds (take (j - k) (drop k log))) key = None \<Longrightarrow>
     replay_map log j key = replay_map log k key"
  by (simp add: replay_map_extend [of k j log] spec_run_last_value)

lemma ahead_weaken: "ahead log k m \<Longrightarrow> k' \<le> k \<Longrightarrow> ahead log k' m"
  unfolding ahead_def by (meson le_trans)

lemma ahead_commit: "ahead log k m \<Longrightarrow> ahead (log @ es) k m"
  unfolding ahead_def replay_map_def by (metis length_append take_append append_Nil2 diff_is_0_eq le_add1 le_trans take_0)

lemma ahead_end: "ahead log (length log) m \<Longrightarrow> m = replay_map log (length log)"
  unfolding ahead_def by (rule ext) (metis le_antisym)

lemma ahead_apply:
  assumes "ahead log k m" and "k + n \<le> length log"
  shows "ahead log (k + n) (spec_run (entry_cmds (take n (drop k log))) m)"
  unfolding ahead_def
proof
  fix key
  let ?cs = "entry_cmds (take n (drop k log))"
  obtain j where j: "k \<le> j" "j \<le> length log" "m key = replay_map log j key"
    using assms(1) by (auto simp: ahead_def)
  have here: "spec_run ?cs m key = replay_map log (k + n) key" if "last_value ?cs key = Some r" for r
    using that by (simp add: replay_map_extend [of k "k + n"] spec_run_last_value)
  have later: "spec_run ?cs m key = replay_map log (max j (k + n)) key" if none: "last_value ?cs key = None"
  proof (cases "j \<le> k + n")
    case True
    have "take n (drop k log) = take (j - k) (drop k log) @ take (k + n - j) (drop j log)"
      using True j(1) take_add [of "j - k" "k + n - j" "drop k log"] by simp
    then have "last_value (entry_cmds (take (k + n - j) (drop j log))) key = None"
      using none by (simp add: entry_cmds_append last_value_append split: option.splits)
    then show ?thesis
      using replay_map_untouched [OF True, of log key] none j(3) True by (simp add: spec_run_last_value max_absorb2)
  qed (use none j(3) in \<open>simp add: spec_run_last_value max_absorb1\<close>)
  show "\<exists>i. k + n \<le> i \<and> i \<le> length log \<and> spec_run ?cs m key = replay_map log i key"
  proof (cases "last_value ?cs key")
    case None
    with later j(2) assms(2) show ?thesis by (intro exI [of _ "max j (k + n)"]) simp
  next
    case (Some r)
    with here assms(2) show ?thesis by (intro exI [of _ "k + n"]) simp
  qed
qed

lemma at_position_commit:
  "at_position dm log pos mem \<Longrightarrow> at_position dm (log @ es) pos mem"
  by (simp add: at_position_def replay_members_def)

lemma at_position_apply:
  assumes "at_position dm log pos mem" and "consecutive 0 log" and "next_pos pos + n \<le> length log"
  defines "es \<equiv> take n (drop (next_pos pos) log)"
  shows "next_pos (entry_applied es pos) = next_pos pos + n" and
    "at_position dm log (entry_applied es pos) (entry_members es mem)"
proof -
  let ?k = "next_pos pos"
  have len: "length es = n" using assms(3) by (simp add: es_def)
  show moved: "next_pos (entry_applied es pos) = ?k + n"
  proof (cases "n = 0")
    case False
    then have ne: "es \<noteq> []" using len by auto
    have "last es = log ! (?k + n - 1)"
      using False assms(3) by (simp add: last_conv_nth [OF ne] len) (simp add: es_def)
    moreover have "unat (oindex (log ! (?k + n - 1))) = ?k + n - 1"
      using assms(2,3) False by (simp add: consecutive_def)
    ultimately show ?thesis using ne False by (simp add: entry_applied_last)
  qed (simp add: es_def)
  have split: "take (?k + n) log = take ?k log @ es" by (simp add: es_def take_add)
  have "pos = entry_applied (take ?k log) None" "mem = replay_members dm log ?k"
    using assms(1) by (simp_all add: at_position_def)
  then have "entry_applied es pos = entry_applied (take (?k + n) log) None"
    "entry_members es mem = replay_members dm log (?k + n)"
    by (metis split entry_applied_last append_Nil2 append_is_Nil_conv last_appendR,
        simp add: split replay_members_def entry_members_append)
  then show "at_position dm log (entry_applied es pos) (entry_members es mem)"
    unfolding at_position_def moved using assms(3) by blast
qed

lemma to_apply_fits:
  assumes "next_pos (applied sm) \<le> length log"
  obtains m where "to_apply log sm n = take m (drop (next_pos (applied sm)) log)"
    "next_pos (applied sm) + m \<le> length log"
proof (rule that)
  let ?m = "min n (length log - next_pos (applied sm))"
  show "to_apply log sm n = take ?m (drop (next_pos (applied sm)) log)"
    by (cases "n \<le> length log - next_pos (applied sm)") (simp_all add: to_apply_def)
  show "next_pos (applied sm) + ?m \<le> length log" using assms by arith
qed

lemma good_snapshot_commit:
  "good_snapshot X dm log meta data \<Longrightarrow> good_snapshot X dm (log @ es) meta data"
  unfolding good_snapshot_def by (blast intro: at_position_commit ahead_commit)

lemma good_replica_commit: "good_replica X dm log r \<Longrightarrow> good_replica X dm (log @ es) r"
  unfolding good_replica_def good_builder_def
  by (blast intro: at_position_commit ahead_commit good_snapshot_commit)

subsection \<open>Every step keeps the invariant\<close>

context openraft_env
begin

lemma al_rep_cell:
  assumes "cell_written X db ''snapshot'' v db'" and "al_rep X db a"
  shows "al_rep X db' a"
proof -
  have "get_last_purged X db' = get_last_purged X db" "read_vote X db' = read_vote X db"
    "read_committed X db' = read_committed X db"
    by (rule stored_cells; use assms(1) in \<open>force simp: cell_written_def\<close>)+
  with assms(2) show ?thesis by (simp add: al_rep_def olog_at_cell [OF assms(1)] olog_ok_cell [OF assms(1)])
qed

lemma log_do_keeps_snapshot:
  assumes "al_rep X db a" and "al_legal a op" and "log_do X db op = (db', r)"
  shows "stored_current_snapshot X db' = stored_current_snapshot X db"
  unfolding stored_current_snapshot_def
proof (rule get_stored_cong)
  let ?same = "db_view (o_rocks X) db' raft_store_cf (str_bytes ''snapshot'') =
      db_view (o_rocks X) db raft_store_cf (str_bytes ''snapshot'')"
  have ok: "olog_ok X db" by (rule al_repD [OF assms(1)])
  show ?same
  proof (cases op)
    case (OpAppend es)
    then show ?thesis using log_append_effect [of db es] assms(3) by auto
  next
    case (OpTruncate l)
    then show ?thesis using truncate_effect [OF ok, of l] assms(3) by auto
  next
    case (OpPurge l)
    then have "li_index l < - 1" using assms(2) by simp
    from purge_effect [OF ok this] OpPurge assms(3) show ?thesis by auto
  next
    case (OpSaveVote v)
    then show ?thesis using save_vote_effect [of db v] assms(3) by (auto simp: cell_written_def)
  next
    case (OpSaveCommitted c)
    then show ?thesis using save_committed_effect [of db c] assms(3) by (auto simp: cell_written_def)
  qed
qed

lemma apply_good:
  assumes "good_replica X dm log \<lparr>rp_world = w, rp_sm = sm, rp_builder = b\<rparr>" and "consecutive 0 log"
    and "sm_apply (w, sm) (to_apply log sm n) = ((w', sm'), Inr replies)"
  shows "good_replica X dm log \<lparr>rp_world = w', rp_sm = sm', rp_builder = b\<rparr>"
proof -
  note G = assms(1) [unfolded good_replica_def, simplified]
  obtain m where m: "to_apply log sm n = take m (drop (next_pos (applied sm)) log)"
    "next_pos (applied sm) + m \<le> length log"
    by (rule to_apply_fits [of sm log n]) (use G in \<open>auto simp: at_position_def\<close>)
  note P = at_position_apply [OF conjunct1 [OF conjunct2 [OF G]] assms(2) m(2)]
  have "sm_live (w, sm)" using G by simp
  then obtain st' where st': "st' = (w', sm')" "sm_live st'"
    "sm_map st' = spec_run (entry_cmds (to_apply log sm n)) (sm_map (w, sm))"
    "applied (snd st') = entry_applied (to_apply log sm n) (applied sm)"
    "members (snd st') = entry_members (to_apply log sm n) (members sm)"
    "kvs_cell (sm_data (snd st')) = kvs_cell (sm_data sm)" "w_db (fst st') = w_db w"
    by (rule sm_apply_obtain [of _ "to_apply log sm n"]) (use assms(3) in auto)
  have pos: "at_position dm log (applied sm') (members sm')" "next_pos (applied sm') = next_pos (applied sm) + m"
    using st' P by (simp_all add: m(1))
  have "ahead log (next_pos (applied sm')) (sm_map (w', sm'))"
    using ahead_apply [of log "next_pos (applied sm)" "sm_map (w, sm)" m] G m st' pos(2) by simp
  with G st' pos show ?thesis by (auto simp: good_replica_def good_builder_def)
qed

lemma builder_good:
  assumes "good_replica X dm log \<lparr>rp_world = w, rp_sm = sm, rp_builder = b\<rparr>"
    and "get_snapshot_builder sm = (sm', builder)"
  shows "good_replica X dm log \<lparr>rp_world = w, rp_sm = sm', rp_builder = Some builder\<rparr>"
proof -
  have "sm' = builder" "sm_data builder = sm_data sm"
    using assms(2) by (auto simp: get_snapshot_builder_def Let_def)
  with assms(1) show ?thesis
    by (simp add: good_replica_def good_builder_def sm_live_def sm_map_def read_kvs_def)
qed

lemma build_good:
  assumes "good_replica X dm log \<lparr>rp_world = w, rp_sm = sm, rp_builder = Some builder\<rparr>"
    and "build_snapshot X show_leader w builder = (w', Ret (Inr sn))"
  shows "good_replica X dm log \<lparr>rp_world = w', rp_sm = sm, rp_builder = None\<rparr>"
    and "good_snapshot X dm log (sn_meta sn) (sn_snapshot sn)"
proof -
  note G = assms(1) [unfolded good_replica_def, simplified]
  obtain db' json where b: "w' = w\<lparr>w_db := db'\<rparr>"
    "stored_current_snapshot X db' = Inr (Some \<lparr>ss_meta = sn_meta sn, ss_data = sn_snapshot sn\<rparr>)"
    "cell_written X (w_db w) ''snapshot'' json db'"
    "sme_last_log_id (sn_meta sn) = applied builder" "sme_last_membership (sn_meta sn) = members builder"
    "js_from_slice (o_kvs X) (sn_snapshot sn) = Inr (read_kvs w builder)"
    by (rule build_snapshot_obtain [of show_leader w builder]) (use assms(2) in auto)
  have B: "at_position dm log (applied builder) (members builder)"
    "next_pos (applied builder) \<le> next_pos (applied sm)" "read_kvs w builder = read_kvs w sm"
    using G by (simp_all add: good_builder_def read_kvs_def)
  have "ahead log (next_pos (applied builder)) (fmlookup (read_kvs w builder))"
    using G B by (auto simp: sm_map_def intro: ahead_weaken)
  with b B show good: "good_snapshot X dm log (sn_meta sn) (sn_snapshot sn)"
    by (simp add: good_snapshot_def)
  have "\<exists>a. al_rep X db' a" using G al_rep_cell [OF b(3)] by blast
  then show "good_replica X dm log \<lparr>rp_world = w', rp_sm = sm, rp_builder = None\<rparr>"
    using G b(1,2) good by (simp add: good_replica_def sm_live_def sm_map_def read_kvs_def)
qed

lemma install_good:
  assumes "good_replica X dm log \<lparr>rp_world = w, rp_sm = sm, rp_builder = b\<rparr>"
    and "good_snapshot X dm log (sn_meta sn) (sn_snapshot sn)"
    and "next_pos (applied sm) \<le> next_pos (sme_last_log_id (sn_meta sn))"
    and "install_snapshot X (w, sm) (sn_meta sn) (sn_snapshot sn) = ((w', sm'), Ret (Inr ()))"
  shows "good_replica X dm log \<lparr>rp_world = w', rp_sm = sm', rp_builder = b\<rparr>"
proof -
  note G = assms(1) [unfolded good_replica_def, simplified]
  obtain m where m: "js_from_slice (o_kvs X) (sn_snapshot sn) = Inr m"
    "ahead log (next_pos (sme_last_log_id (sn_meta sn))) (fmlookup m)"
    using assms(2) by (auto simp: good_snapshot_def)
  have live: "sm_live (w, sm)" using G by simp
  obtain st' json where st': "st' = (w', sm')" "sm_live st'"
    "sm_view st' = (sme_last_log_id (sn_meta sn), sme_last_membership (sn_meta sn), m)"
    "stored_current_snapshot X (w_db (fst st')) = Inr (Some \<lparr>ss_meta = sn_meta sn, ss_data = sn_snapshot sn\<rparr>)"
    "cell_written X (w_db w) ''snapshot'' json (w_db (fst st'))"
    "kvs_cell (sm_data (snd st')) = kvs_cell (sm_data sm)"
    by (rule install_snapshot_obtain [OF live m(1), of "sn_meta sn"]) (use assms(4) in auto)
  have view: "applied sm' = sme_last_log_id (sn_meta sn)" "members sm' = sme_last_membership (sn_meta sn)"
    "sm_map (w', sm') = fmlookup m"
    using st'(1,3) by (simp_all add: sm_view_def sm_map_def)
  have "\<exists>a. al_rep X (w_db w') a" using G al_rep_cell [OF st'(5)] st'(1) by auto
  with G assms(2,3) st' view m(2) show ?thesis
    by (auto simp: good_replica_def good_builder_def) (simp add: good_snapshot_def)
qed

lemma log_good:
  assumes "good_replica X dm log \<lparr>rp_world = w, rp_sm = sm, rp_builder = b\<rparr>"
    and "al_rep X (w_db w) a" and "al_legal a op" and "log_do X (w_db w) op = (db', r)"
  shows "good_replica X dm log \<lparr>rp_world = w\<lparr>w_db := db'\<rparr>, rp_sm = sm, rp_builder = b\<rparr>"
proof -
  have "\<exists>a. al_rep X db' a" using log_do_refines [OF assms(2,3)] assms(4) by auto
  with assms(1) log_do_keeps_snapshot [OF assms(2-4)] show ?thesis
    by (simp add: good_replica_def good_builder_def sm_live_def sm_map_def read_kvs_def)
qed

text \<open>Starting: a machine opened on a database holds what the stored snapshot says, or nothing.\<close>

lemma start_good:
  assumes "new_storage X dm (\<lambda>path families. Inr db) path = Ret (w, sm)" and "al_rep X db a"
    and "stored_current_snapshot X db = Inr stored"
    and "\<And>s. stored = Some s \<Longrightarrow> good_snapshot X dm log (ss_meta s) (ss_data s)"
  shows "good_replica X dm log \<lparr>rp_world = w, rp_sm = sm, rp_builder = None\<rparr>"
proof -
  let ?w = "\<lparr>w_db = db, w_cells = []\<rparr>"
  have new: "sm_new X dm ?w = (w, Inr sm)"
    using assms(1) by (auto simp: new_storage_def split: prod.splits sum.splits)
  have "sm_live (w, sm) \<and> w_db w = db \<and> at_position dm log (applied sm) (members sm) \<and>
      ahead log (next_pos (applied sm)) (sm_map (w, sm))"
  proof (cases stored)
    case None
    then have "sm_live (w, sm)" "w_db w = db" "applied sm = None"
      "members sm = \<lparr>stm_log_id = None, stm_membership = dm\<rparr>" "sm_map (w, sm) = Map.empty"
      using new assms(3) by (auto simp: sm_new_def Let_def sm_live_def sm_map_def read_kvs_def fun_eq_iff)
    then show ?thesis
      by (auto simp: at_position_def next_pos_def replay_members_def ahead_def replay_map_def)
  next
    case (Some s)
    from assms(4) [OF Some] obtain m where m: "js_from_slice (o_kvs X) (ss_data s) = Inr m"
      "ahead log (next_pos (sme_last_log_id (ss_meta s))) (fmlookup m)"
      "at_position dm log (sme_last_log_id (ss_meta s)) (sme_last_membership (ss_meta s))"
      by (auto simp: good_snapshot_def)
    have "stored_current_snapshot X (w_db ?w) = Inr (Some s)" using assms(3) Some by simp
    from sm_new_stored [OF this m(1), of dm] new m show ?thesis by (auto simp: sm_view_def sm_map_def)
  qed
  with assms(2-4) show ?thesis by (auto simp: good_replica_def)
qed

lemma replica_step_good:
  assumes "replica_step X dm show_leader log snaps r snaps' r'" and "consecutive 0 log"
    and "good_replica X dm log r" and "\<forall>sn \<in> set snaps. good_snapshot X dm log (sn_meta sn) (sn_snapshot sn)"
  shows "good_replica X dm log r' \<and> (\<forall>sn \<in> set snaps'. good_snapshot X dm log (sn_meta sn) (sn_snapshot sn))"
  using assms(1)
proof cases
  case (rs_apply w sm n w' sm' replies b)
  then show ?thesis using apply_good [OF _ assms(2)] assms(3,4) by blast
next
  case (rs_builder sm sm' builder w b)
  then show ?thesis using builder_good assms(3,4) by blast
next
  case (rs_build w builder w' sn sm)
  then show ?thesis using build_good assms(3,4) by (metis set_ConsD)
next
  case (rs_install sn sm w w' sm' b)
  then show ?thesis using install_good [OF _ _ rs_install(5) rs_install(6)] assms(3,4) by blast
next
  case (rs_log w a op db' r sm b)
  then show ?thesis using log_good assms(3,4) by blast
next
  case (rs_restart w db_path w' sm' sm b)
  from assms(3) rs_restart obtain a stored where "al_rep X (w_db w) a"
    "stored_current_snapshot X (w_db w) = Inr stored"
    "\<forall>s. stored = Some s \<longrightarrow> good_snapshot X dm log (ss_meta s) (ss_data s)"
    by (auto simp: good_replica_def)
  with start_good [OF rs_restart(4)] rs_restart assms(4) show ?thesis by blast
qed

lemma reach_good: "cluster_reach X dm show_leader c \<Longrightarrow> good_cluster X dm c"
proof (induction rule: cluster_reach.induct)
  case (cr_start nodes)
  have "good_replica X dm [] (nodes i)" for i
  proof -
    from cr_start [of i] obtain db path where s: "\<And>cf k. db_view (o_rocks X) db cf k = None"
      "rp_builder (nodes i) = None"
      "new_storage X dm (\<lambda>path families. Inr db) path = Ret (rp_world (nodes i), rp_sm (nodes i))"
      unfolding started_def by blast
    have "stored_current_snapshot X db = Inr None"
      by (simp add: stored_current_snapshot_def get_stored_def get_eq s(1))
    from start_good [OF s(3) fresh_rep [OF s(1)] this, of "[]"] s(2)
    show ?thesis by (cases "nodes i") simp
  qed
  then show ?case by (simp add: good_cluster_def consecutive_def)
next
  case (cr_step c c')
  from cr_step.hyps(2) show ?case
  proof cases
    case (cs_commit es)
    then show ?thesis using cr_step.IH
      by (auto simp: good_cluster_def intro: good_replica_commit good_snapshot_commit)
  next
    case (cs_node i snaps r)
    with cr_step.IH show ?thesis
      using replica_step_good [OF cs_node(2)] by (auto simp: good_cluster_def)
  qed
qed

end

subsection \<open>A concrete run\<close>

text \<open>
  Node 0 asks for a builder after the first of two entries and lets it build after the second;
  node 1 installs that snapshot; node 2 applies the first entry.
\<close>

definition ref_log :: "(u64, u64) oentry list" where
  "ref_log = [ref_oentry 0 (Normal (Set ''a'' ''1'')), ref_oentry 1 (Normal (Set ''a'' ''2''))]"

definition ref_replica :: "(mem_db, u64, u64) replica" where
  "ref_replica = \<lparr>rp_world = fst ref_sm, rp_sm = snd ref_sm, rp_builder = None\<rparr>"

definition ref_replicas :: "(mem_db, u64, u64) cluster" where
  "ref_replicas = \<lparr>cl_log = ref_log, cl_snaps = [], cl_nodes = (\<lambda>i. ref_replica)\<rparr>"

lemma ref_log_consecutive: "consecutive 0 ref_log"
  by (simp add: ref_log_def consecutive_def nth_Cons split: nat.splits)

lemma ref_started: "started ref_oenv 0 ref_replica"
proof -
  have "stored_current_snapshot ref_oenv [] = Inr None"
    by (simp add: stored_current_snapshot_def get_stored_def oref.get_eq) (simp add: ref_oenv_def)
  then have "new_storage ref_oenv 0 (\<lambda>path families. Inr []) ''db'' = Ret (rp_world ref_replica, rp_sm ref_replica)"
    by (simp add: new_storage_def sm_new_def ref_replica_def ref_sm_def)
  moreover have "db_view (o_rocks ref_oenv) [] cf k = None" for cf k by (simp add: ref_oenv_def)
  ultimately show ?thesis by (auto simp: started_def ref_replica_def)
qed

lemma ref_replicas_reach: "cluster_reach ref_oenv 0 ref_leader ref_replicas"
proof -
  let ?c = "\<lparr>cl_log = [], cl_snaps = [], cl_nodes = (\<lambda>i. ref_replica)\<rparr>"
  have "cluster_step ref_oenv 0 ref_leader ?c (?c\<lparr>cl_log := cl_log ?c @ ref_log\<rparr>)"
    by (rule cs_commit) (simp add: ref_log_consecutive)
  then have "cluster_step ref_oenv 0 ref_leader ?c ref_replicas" by (simp add: ref_replicas_def)
  moreover have "cluster_reach ref_oenv 0 ref_leader ?c" by (rule cr_start) (rule ref_started)
  ultimately show ?thesis by (rule cr_step [rotated])
qed

lemma node_steps:
  "cluster_reach X dm sl \<lparr>cl_log = log, cl_snaps = snaps, cl_nodes = nodes\<rparr> \<Longrightarrow>
     replica_step X dm sl log snaps (nodes i) snaps' r \<Longrightarrow>
     cluster_reach X dm sl \<lparr>cl_log = log, cl_snaps = snaps', cl_nodes = nodes(i := r)\<rparr>"
  using cs_node [of X dm sl "\<lparr>cl_log = log, cl_snaps = snaps, cl_nodes = nodes\<rparr>" i snaps' r]
  by (auto intro: cr_step)

text \<open>The machine after its next entry.\<close>

definition apply_next ::
  "(u64, u64) oentry list \<Rightarrow> mem_db sm_world \<times> (u64, u64) state_machine_store \<Rightarrow>
   mem_db sm_world \<times> (u64, u64) state_machine_store" where
  "apply_next log st = fst (sm_apply st (to_apply log (snd st) 1))"

lemma step_apply_next:
  "replica_step X dm sl log snaps \<lparr>rp_world = w, rp_sm = sm, rp_builder = b\<rparr> snaps
     \<lparr>rp_world = fst (apply_next log (w, sm)), rp_sm = snd (apply_next log (w, sm)), rp_builder = b\<rparr>"
  by (rule rs_apply [where n = 1]) (simp add: apply_next_def sm_apply_def case_prod_beta)

definition ref_one :: "mem_db sm_world \<times> (u64, u64) state_machine_store" where
  "ref_one = apply_next ref_log ref_sm"

definition ref_waiting :: "(u64, u64) state_machine_store" where
  "ref_waiting = snd (get_snapshot_builder (snd ref_one))"

definition ref_two :: "mem_db sm_world \<times> (u64, u64) state_machine_store" where
  "ref_two = apply_next ref_log (fst ref_one, ref_waiting)"

lemma ref_one_eq:
  "ref_one = (\<lparr>w_db = [], w_cells = [fmupd ''a'' ''1'' fmempty]\<rparr>,
     \<lparr>sm_data = \<lparr>last_applied_log_id = Some \<lparr>li_leader_id = 1, li_index = 0\<rparr>,
        last_membership = \<lparr>stm_log_id = None, stm_membership = 0\<rparr>, kvs_cell = 0\<rparr>, sm_snapshot_idx = 0\<rparr>)"
  by (simp add: ref_one_def apply_next_def sm_apply_def to_apply_def ref_sm_def ref_log_def next_pos_def
      ref_oentry_def apply_entry_def write_kvs_def read_kvs_def)

lemma ref_two_eq:
  "fst ref_two = \<lparr>w_db = [], w_cells = [fmupd ''a'' ''2'' (fmupd ''a'' ''1'' fmempty)]\<rparr>"
  "kvs_cell (sm_data ref_waiting) = 0" "applied ref_waiting = applied (snd ref_one)"
  "members ref_waiting = members (snd ref_one)"
  by (simp_all add: ref_two_def apply_next_def sm_apply_def to_apply_def ref_one_eq ref_log_def ref_waiting_def
      get_snapshot_builder_def Let_def ref_oentry_def apply_entry_def write_kvs_def read_kvs_def)

lemma ref_run:
  "\<exists>w sn st. cluster_reach ref_oenv 0 ref_leader \<lparr>cl_log = ref_log, cl_snaps = [sn],
       cl_nodes = (\<lambda>i. ref_replica)
         (0 := \<lparr>rp_world = w, rp_sm = snd ref_two, rp_builder = None\<rparr>,
          1 := \<lparr>rp_world = fst st, rp_sm = snd st, rp_builder = None\<rparr>,
          2 := \<lparr>rp_world = fst ref_one, rp_sm = snd ref_one, rp_builder = None\<rparr>)\<rparr> \<and>
     sm_view st = (applied (snd ref_one), members (snd ref_one), read_kvs (fst ref_two) ref_waiting)"
proof -
  let ?step = "replica_step ref_oenv 0 ref_leader ref_log"
  let ?n1 = "\<lparr>rp_world = fst ref_one, rp_sm = snd ref_one, rp_builder = None\<rparr>"
  let ?n2 = "\<lparr>rp_world = fst ref_one, rp_sm = ref_waiting, rp_builder = Some ref_waiting\<rparr>"
  let ?n3 = "\<lparr>rp_world = fst ref_two, rp_sm = snd ref_two, rp_builder = Some ref_waiting\<rparr>"
  have s1: "?step [] ref_replica [] ?n1"
    using step_apply_next [of ref_oenv 0 ref_leader ref_log "[]" "fst ref_sm" "snd ref_sm" None]
    by (simp add: ref_replica_def ref_one_def)
  have s2: "?step [] ?n1 [] ?n2"
    by (rule rs_builder) (simp add: ref_waiting_def get_snapshot_builder_def Let_def)
  have s3: "?step [] ?n2 [] ?n3"
    using step_apply_next [of ref_oenv 0 ref_leader ref_log "[]" "fst ref_one" ref_waiting "Some ref_waiting"]
    by (simp add: ref_two_def)
  obtain w sn where b: "build_snapshot ref_oenv ref_leader (fst ref_two) ref_waiting = (w, Ret (Inr sn))"
    "sme_last_log_id (sn_meta sn) = applied ref_waiting" "sme_last_membership (sn_meta sn) = members ref_waiting"
    "js_from_slice (o_kvs ref_oenv) (sn_snapshot sn) = Inr (read_kvs (fst ref_two) ref_waiting)"
    by (rule oref.build_snapshot_obtain [of ref_leader "fst ref_two" ref_waiting])
  note s4 = rs_build [OF b(1), of 0 ref_log "[]" "snd ref_two"]
  obtain st where st: "install_snapshot ref_oenv ref_sm (sn_meta sn) (sn_snapshot sn) = (st, Ret (Inr ()))"
    "sm_view st = (sme_last_log_id (sn_meta sn), sme_last_membership (sn_meta sn), read_kvs (fst ref_two) ref_waiting)"
    by (rule oref.install_snapshot_obtain [OF ref_sm_live b(4), of "sn_meta sn"])
  have s5: "?step [sn] ref_replica [sn] \<lparr>rp_world = fst st, rp_sm = snd st, rp_builder = None\<rparr>"
    unfolding ref_replica_def by (rule rs_install) (use st(1) in \<open>simp_all add: ref_sm_def next_pos_def\<close>)
  have s6: "?step [sn] ref_replica [sn] ?n1"
    using step_apply_next [of ref_oenv 0 ref_leader ref_log "[sn]" "fst ref_sm" "snd ref_sm" None]
    by (simp add: ref_replica_def ref_one_def)
  note r0 = ref_replicas_reach [unfolded ref_replicas_def]
  note r1 = node_steps [OF r0, where i = 0, OF s1]
  note r2 = node_steps [OF r1, where i = 0, unfolded fun_upd_same fun_upd_upd, OF s2]
  note r3 = node_steps [OF r2, where i = 0, unfolded fun_upd_same fun_upd_upd, OF s3]
  note r4 = node_steps [OF r3, where i = 0, unfolded fun_upd_same fun_upd_upd, OF s4]
  have r5: "cluster_reach ref_oenv 0 ref_leader \<lparr>cl_log = ref_log, cl_snaps = [sn],
       cl_nodes = (\<lambda>i. ref_replica)(0 := \<lparr>rp_world = w, rp_sm = snd ref_two, rp_builder = None\<rparr>,
          1 := \<lparr>rp_world = fst st, rp_sm = snd st, rp_builder = None\<rparr>)\<rparr>"
    by (rule node_steps [OF r4]) (use s5 in simp)
  have "cluster_reach ref_oenv 0 ref_leader \<lparr>cl_log = ref_log, cl_snaps = [sn],
       cl_nodes = (\<lambda>i. ref_replica)(0 := \<lparr>rp_world = w, rp_sm = snd ref_two, rp_builder = None\<rparr>,
          1 := \<lparr>rp_world = fst st, rp_sm = snd st, rp_builder = None\<rparr>, 2 := ?n1)\<rparr>"
    by (rule node_steps [OF r5]) (use s6 in simp)
  moreover have "sm_view st = (applied (snd ref_one), members (snd ref_one), read_kvs (fst ref_two) ref_waiting)"
    by (simp add: st(2) b(2,3) ref_two_eq(3,4))
  ultimately show ?thesis by blast
qed

subsection \<open>Properties\<close>

text \<open>
  C6: Replicas follow the log: in every state the cluster reaches, through commits, applies, snapshots
  built and installed at any moment, work on the log stores and restarts, each node's applied
  position and membership are exactly those of a prefix of the committed log, and every key of
  its map has the value the log gives it at that position or at a later committed one, never a
  lost, stale or invented value; its log store is a list without holes.
\<close>

theorem replicas_follow_log:
  assumes "oenv_up X" and "cluster_reach X dm show_leader c"
  shows "\<exists>k \<le> length (cl_log c).
    applied (rp_sm (cl_nodes c i)) = (if k = 0 then None else Some (oe_log_id (cl_log c ! (k - 1)))) \<and>
    members (rp_sm (cl_nodes c i)) = entry_members (take k (cl_log c)) \<lparr>stm_log_id = None, stm_membership = dm\<rparr> \<and>
    (\<forall>key. \<exists>j. k \<le> j \<and> j \<le> length (cl_log c) \<and>
       sm_map (rp_world (cl_nodes c i), rp_sm (cl_nodes c i)) key =
         spec_run (entry_cmds (take j (cl_log c))) Map.empty key) \<and>
    (\<exists>a. al_rep X (w_db (rp_world (cl_nodes c i))) a)"
proof -
  let ?r = "cl_nodes c i" and ?k = "next_pos (applied (rp_sm (cl_nodes c i)))"
  have "good_replica X dm (cl_log c) ?r"
    using openraft_env.reach_good [OF openraft_env.intro [OF assms(1)] assms(2)] by (simp add: good_cluster_def)
  then have G: "at_position dm (cl_log c) (applied (rp_sm ?r)) (members (rp_sm ?r))"
    "ahead (cl_log c) ?k (sm_map (rp_world ?r, rp_sm ?r))" "\<exists>a. al_rep X (w_db (rp_world ?r)) a"
    by (simp_all add: good_replica_def)
  have le: "?k \<le> length (cl_log c)" using G(1) by (simp add: at_position_def)
  have "applied (rp_sm ?r) = (if ?k = 0 then None else Some (oe_log_id (cl_log c ! (?k - 1))))"
  proof (cases "?k = 0")
    case False
    then have ne: "take ?k (cl_log c) \<noteq> []" using le by auto
    then have "last (take ?k (cl_log c)) = cl_log c ! (?k - 1)"
      using le False by (simp add: last_conv_nth [OF ne])
    moreover have "applied (rp_sm ?r) = entry_applied (take ?k (cl_log c)) None"
      using G(1) unfolding at_position_def by blast
    ultimately show ?thesis using ne False by (simp only: entry_applied_last if_False)
  qed (simp add: next_pos_def split: option.splits)
  with G le show ?thesis
    by (intro exI [of _ ?k]) (simp add: at_position_def replay_members_def ahead_def replay_map_def)
qed

lemma replicas_follow_log_witness:
  "\<exists>k \<le> 2. applied (rp_sm (cl_nodes ref_replicas 5)) = (if k = 0 then None else Some (oe_log_id (ref_log ! (k - 1))))"
  using replicas_follow_log [OF ref_oenv_up ref_replicas_reach, of 5]
  by (auto simp: ref_replicas_def ref_log_def)

text \<open>
  C3: Replicas converge: two nodes that have both applied the whole committed log hold the same state,
  namely the replay of the log, whatever batches, snapshots, early builders and restarts led
  each of them there.
\<close>

theorem replicas_converge:
  assumes "oenv_up X" and "cluster_reach X dm show_leader c"
    and "next_pos (applied (rp_sm (cl_nodes c i))) = length (cl_log c)"
    and "next_pos (applied (rp_sm (cl_nodes c j))) = length (cl_log c)"
  shows "sm_view (rp_world (cl_nodes c i), rp_sm (cl_nodes c i)) =
      sm_view (rp_world (cl_nodes c j), rp_sm (cl_nodes c j)) \<and>
    sm_map (rp_world (cl_nodes c i), rp_sm (cl_nodes c i)) = spec_run (entry_cmds (cl_log c)) Map.empty"
proof -
  have good: "good_replica X dm (cl_log c) (cl_nodes c n)" for n
    using openraft_env.reach_good [OF openraft_env.intro [OF assms(1)] assms(2)] by (simp add: good_cluster_def)
  have state: "sm_map (rp_world (cl_nodes c n), rp_sm (cl_nodes c n)) = replay_map (cl_log c) (length (cl_log c))"
    "applied (rp_sm (cl_nodes c n)) = entry_applied (cl_log c) None"
    "members (rp_sm (cl_nodes c n)) = replay_members dm (cl_log c) (length (cl_log c))"
    if "next_pos (applied (rp_sm (cl_nodes c n))) = length (cl_log c)" for n
    using good [of n] that ahead_end by (auto simp: good_replica_def at_position_def)
  have "sm_map (rp_world (cl_nodes c i), rp_sm (cl_nodes c i)) = sm_map (rp_world (cl_nodes c j), rp_sm (cl_nodes c j))"
    using state(1) [OF assms(3)] state(1) [OF assms(4)] by simp
  from read_kvs_eq [OF this] show ?thesis
    using state [OF assms(3)] state [OF assms(4)] by (simp add: sm_view_def replay_map_def)
qed

definition ref_all :: "mem_db sm_world \<times> (u64, u64) state_machine_store" where
  "ref_all = fst (sm_apply ref_sm (to_apply ref_log (snd ref_sm) 2))"

definition ref_both :: "mem_db sm_world \<times> (u64, u64) state_machine_store" where
  "ref_both = apply_next ref_log ref_one"

lemma ref_applied_all:
  "next_pos (applied (snd ref_all)) = 2" "next_pos (applied (snd ref_both)) = 2"
  by (simp_all add: ref_all_def ref_both_def apply_next_def ref_one_eq ref_sm_def to_apply_def ref_log_def
      sm_apply_def apply_entry_def write_kvs_def read_kvs_def ref_oentry_def next_pos_def)

lemma ref_converged:
  "cluster_reach ref_oenv 0 ref_leader \<lparr>cl_log = ref_log, cl_snaps = [], cl_nodes = (\<lambda>i. ref_replica)
     (3 := \<lparr>rp_world = fst ref_all, rp_sm = snd ref_all, rp_builder = None\<rparr>,
      4 := \<lparr>rp_world = fst ref_both, rp_sm = snd ref_both, rp_builder = None\<rparr>)\<rparr>"
proof -
  let ?step = "replica_step ref_oenv 0 ref_leader ref_log []"
  let ?n4 = "\<lparr>rp_world = fst ref_one, rp_sm = snd ref_one, rp_builder = None\<rparr>"
  have s3: "?step ref_replica [] \<lparr>rp_world = fst ref_all, rp_sm = snd ref_all, rp_builder = None\<rparr>"
    unfolding ref_replica_def by (rule rs_apply [where n = 2]) (simp add: ref_all_def sm_apply_def case_prod_beta)
  have s4: "?step ref_replica [] ?n4"
    using step_apply_next [of ref_oenv 0 ref_leader ref_log "[]" "fst ref_sm" "snd ref_sm" None]
    by (simp add: ref_replica_def ref_one_def)
  have s5: "?step ?n4 [] \<lparr>rp_world = fst ref_both, rp_sm = snd ref_both, rp_builder = None\<rparr>"
    using step_apply_next [of ref_oenv 0 ref_leader ref_log "[]" "fst ref_one" "snd ref_one" None]
    by (simp add: ref_both_def)
  note r3 = node_steps [OF ref_replicas_reach [unfolded ref_replicas_def], where i = 3, OF s3]
  have r4: "cluster_reach ref_oenv 0 ref_leader \<lparr>cl_log = ref_log, cl_snaps = [], cl_nodes = (\<lambda>i. ref_replica)
     (3 := \<lparr>rp_world = fst ref_all, rp_sm = snd ref_all, rp_builder = None\<rparr>, 4 := ?n4)\<rparr>"
    by (rule node_steps [OF r3]) (use s4 in simp)
  show ?thesis by (rule node_steps [OF r4, where i = 4, unfolded fun_upd_same fun_upd_upd, OF s5])
qed

lemma replicas_converge_witness:
  "sm_view ref_all = sm_view ref_both \<and>
   sm_map ref_all = spec_run [CmdSet ''a'' ''1'', CmdSet ''a'' ''2''] Map.empty"
  using replicas_converge [OF ref_oenv_up ref_converged, of 3 4] ref_applied_all
  by (simp add: ref_log_def ref_oentry_def)

text \<open>
  C24: An applied position does not determine the state: a snapshot builder shares the map of the machine
  that made it, so a snapshot taken late pairs an old position with newer data, and a reachable
  cluster has two nodes that report the same applied position and answer the same key
  differently.
\<close>

theorem same_position_may_differ:
  "\<exists>c. cluster_reach ref_oenv 0 ref_leader c \<and>
    applied (rp_sm (cl_nodes c 1)) = applied (rp_sm (cl_nodes c 2)) \<and>
    sm_map (rp_world (cl_nodes c 1), rp_sm (cl_nodes c 1)) ''a'' = Some ''2'' \<and>
    sm_map (rp_world (cl_nodes c 2), rp_sm (cl_nodes c 2)) ''a'' = Some ''1''"
proof -
  from ref_run obtain w sn st where run: "cluster_reach ref_oenv 0 ref_leader
      \<lparr>cl_log = ref_log, cl_snaps = [sn], cl_nodes = (\<lambda>i. ref_replica)
         (0 := \<lparr>rp_world = w, rp_sm = snd ref_two, rp_builder = None\<rparr>,
          1 := \<lparr>rp_world = fst st, rp_sm = snd st, rp_builder = None\<rparr>,
          2 := \<lparr>rp_world = fst ref_one, rp_sm = snd ref_one, rp_builder = None\<rparr>)\<rparr>"
    "sm_view st = (applied (snd ref_one), members (snd ref_one), read_kvs (fst ref_two) ref_waiting)"
    by blast
  have st: "applied (snd st) = applied (snd ref_one)" "read_kvs (fst st) (snd st) = read_kvs (fst ref_two) ref_waiting"
    using run(2) by (simp_all add: sm_view_def)
  have "fmlookup (read_kvs (fst ref_two) ref_waiting) ''a'' = Some ''2''"
    "fmlookup (read_kvs (fst ref_one) (snd ref_one)) ''a'' = Some ''1''"
    by (simp_all add: ref_two_eq(1,2) ref_one_eq read_kvs_def)
  then show ?thesis
    by - (rule exI, rule conjI, rule run(1), simp add: st sm_map_def)
qed

end
