(* ===== verification/Clients.thy ===== *)
theory Clients
  imports Raft_Apply
begin

section \<open>The gRPC clients (src/clients)\<close>

text \<open>
  The connection pools (\<open>poll.rs\<close>), the retry loop (\<open>placement/mod.rs\<close>) and the calls of the two
  services.  The network, mobc's pools and the generated stubs are not code of \<open>src/clients\<close>:
  they are the operations of \<open>client_env\<close> on a world of type \<open>'w\<close>, which every attempt may
  change, so that a later attempt may answer differently.  The state is that world together with
  the client's pools.
\<close>

subsection \<open>Messages (protocol/src/kv.rs, protocol/src/openraft.rs)\<close>

record get_request =
  getq_key :: string

record get_reply =
  getr_value :: string

record exists_request =
  exq_key :: string

record exists_reply =
  exr_flag :: bool

datatype common_reply = CommonReply

record vote_request =
  vq_value :: bytes

record vote_reply =
  vr_value :: bytes

record append_request =
  aq_value :: bytes

record append_reply =
  ar_value :: bytes

record snapshot_request =
  sq_value :: bytes

record snapshot_reply =
  sr_value :: bytes

subsection \<open>The environment\<close>

text \<open>A pool as the code builds it: its manager's address and its bound.\<close>

record pool =
  pl_addr :: string
  pl_max_open :: u64

record client_pool =
  cp_max_open_connection :: u64
  cp_kv_pools :: "(string \<times> pool) list"
  cp_openraft_pools :: "(string \<times> pool) list"

record ('w, 'k, 'o) client_env =
  ce_kv_get :: "'w \<Rightarrow> pool \<Rightarrow> 'w \<times> (ext_error + 'k)"
  ce_openraft_get :: "'w \<Rightarrow> pool \<Rightarrow> 'w \<times> (ext_error + 'o)"
  ce_set :: "'w \<Rightarrow> 'k \<Rightarrow> set_request \<Rightarrow> 'w \<times> (status + common_reply)"
  ce_delete :: "'w \<Rightarrow> 'k \<Rightarrow> delete_request \<Rightarrow> 'w \<times> (status + common_reply)"
  ce_get :: "'w \<Rightarrow> 'k \<Rightarrow> get_request \<Rightarrow> 'w \<times> (status + get_reply)"
  ce_exists :: "'w \<Rightarrow> 'k \<Rightarrow> exists_request \<Rightarrow> 'w \<times> (status + exists_reply)"
  ce_vote :: "'w \<Rightarrow> 'o \<Rightarrow> vote_request \<Rightarrow> 'w \<times> (status + vote_reply)"
  ce_append :: "'w \<Rightarrow> 'o \<Rightarrow> append_request \<Rightarrow> 'w \<times> (status + append_reply)"
  ce_snapshot :: "'w \<Rightarrow> 'o \<Rightarrow> snapshot_request \<Rightarrow> 'w \<times> (status + snapshot_reply)"
  pc_set :: "set_request prost"
  pc_delete :: "delete_request prost"
  pc_get :: "get_request prost"
  pc_exists :: "exists_request prost"
  pc_common_reply :: "common_reply prost"
  pc_get_reply :: "get_reply prost"
  pc_exists_reply :: "exists_reply prost"
  pc_vote :: "vote_request prost"
  pc_append :: "append_request prost"
  pc_snapshot :: "snapshot_request prost"
  pc_vote_reply :: "vote_reply prost"
  pc_append_reply :: "append_reply prost"
  pc_snapshot_reply :: "snapshot_reply prost"

text \<open>An effectful call: from a state to a state and a result.\<close>

type_synonym ('s, 'a) call = "'s \<Rightarrow> 's \<times> (robust_error + 'a)"

text \<open>\<open>match m { Ok(x) => ..., Err(e) => return Err(e) }\<close>.\<close>

definition and_then :: "('s, 'a) call \<Rightarrow> ('a \<Rightarrow> ('s, 'b) call) \<Rightarrow> ('s, 'b) call" where
  "and_then m f s = (case m s of (s', Inl e) \<Rightarrow> (s', Inl e) | (s', Inr a) \<Rightarrow> f a s')"

subsection \<open>Pools (poll.rs)\<close>

definition client_pool_new :: "u64 \<Rightarrow> client_pool" where
  "client_pool_new max_open_connection =
     \<lparr>cp_max_open_connection = max_open_connection, cp_kv_pools = [], cp_openraft_pools = []\<rparr>"

definition pool_key :: "string \<Rightarrow> string \<Rightarrow> string" where
  "pool_key module addr = ''PlacementCenter'' @ ''_'' @ module @ ''_'' @ addr"

text \<open>\<open>if !pools.contains_key(&key) { pools.insert(key, Pool::builder()...) }\<close>.\<close>

definition ensure_pool :: "u64 \<Rightarrow> string \<Rightarrow> string \<Rightarrow> (string \<times> pool) list \<Rightarrow> (string \<times> pool) list" where
  "ensure_pool max_open key addr pools =
     (if map_of pools key = None
      then AList.update key \<lparr>pl_addr = addr, pl_max_open = max_open\<rparr> pools else pools)"

definition placement_center_kv_services_client ::
  "('w, 'k, 'o) client_env \<Rightarrow> string \<Rightarrow> ('w \<times> client_pool, 'k) call" where
  "placement_center_kv_services_client C addr st =
     (let (w, cp) = st;
          module = ''KvServices'';
          key = pool_key module addr;
          cp1 = cp\<lparr>cp_kv_pools := ensure_pool (cp_max_open_connection cp) key addr (cp_kv_pools cp)\<rparr>
      in case map_of (cp_kv_pools cp1) key of
           Some poll \<Rightarrow>
             (case ce_kv_get C w poll of
                (w', Inr conn) \<Rightarrow> ((w', cp1), Inr conn)
              | (w', Inl e) \<Rightarrow> ((w', cp1), Inl (NoAvailableGrpcConnection module (err_display e))))
         | None \<Rightarrow>
             ((w, cp1), Inl (NoAvailableGrpcConnection module ''connection pool is not initialized'')))"

definition placement_center_openraft_services_client ::
  "('w, 'k, 'o) client_env \<Rightarrow> string \<Rightarrow> ('w \<times> client_pool, 'o) call" where
  "placement_center_openraft_services_client C addr st =
     (let (w, cp) = st;
          module = ''OpenRaftServices'';
          key = pool_key module addr;
          cp1 = cp\<lparr>cp_openraft_pools :=
                    ensure_pool (cp_max_open_connection cp) key addr (cp_openraft_pools cp)\<rparr>
      in case map_of (cp_openraft_pools cp1) key of
           Some poll \<Rightarrow>
             (case ce_openraft_get C w poll of
                (w', Inr conn) \<Rightarrow> ((w', cp1), Inr conn)
              | (w', Inl e) \<Rightarrow> ((w', cp1), Inl (NoAvailableGrpcConnection module (err_display e))))
         | None \<Rightarrow>
             ((w, cp1), Inl (NoAvailableGrpcConnection module ''connection pool is not initialized'')))"

text \<open>The managers: how mobc opens a connection, given the generated client's \<open>connect\<close>.\<close>

definition kv_manager_connect ::
  "(string \<Rightarrow> ext_error + 'k) \<Rightarrow> string \<Rightarrow> robust_error + 'k" where
  "kv_manager_connect connect addr =
     (case connect (''http://'' @ addr) of
        Inr client \<Rightarrow> Inr client
      | Inl err \<Rightarrow> Inl (CommmonError (err_display err @ '','' @ addr)))"

definition openraft_manager_connect ::
  "(string \<Rightarrow> ext_error + 'o) \<Rightarrow> string \<Rightarrow> robust_error + 'o" where
  "openraft_manager_connect connect self_addr =
     (let addr = ''http://'' @ self_addr in
      case connect addr of
        Inr client \<Rightarrow> Inr client
      | Inl err \<Rightarrow> Inl (CommmonError (err_display err @ '','' @ addr)))"

text \<open>The managers themselves; \<open>check\<close> keeps every connection, a broken one too.\<close>

record kv_service_manager =
  ksm_addr :: string

definition kv_manager_new :: "string \<Rightarrow> kv_service_manager" where
  "kv_manager_new addr = \<lparr>ksm_addr = addr\<rparr>"

definition kv_manager_check :: "'k \<Rightarrow> robust_error + 'k" where
  "kv_manager_check conn = Inr conn"

record open_raft_service_manager =
  orm_addr :: string

definition openraft_manager_new :: "string \<Rightarrow> open_raft_service_manager" where
  "openraft_manager_new addr = \<lparr>orm_addr = addr\<rparr>"

definition openraft_manager_check :: "'o \<Rightarrow> robust_error + 'o" where
  "openraft_manager_check conn = Inr conn"

subsection \<open>One call of a service (kv/inner.rs, openraft/inner.rs)\<close>

text \<open>Decode the request, call the stub, encode the reply.\<close>

definition inner_call ::
  "'q prost \<Rightarrow> 'p prost \<Rightarrow> ('w \<Rightarrow> 'q \<Rightarrow> 'w \<times> (status + 'p)) \<Rightarrow> bytes \<Rightarrow>
   ('w \<times> client_pool, bytes) call" where
  "inner_call Q P stub request st =
     (case pb_decode Q request of
        Inl e \<Rightarrow> (st, Inl (CommmonError (err_display e)))
      | Inr req \<Rightarrow>
          (case stub (fst st) req of
             (w', Inr result) \<Rightarrow> ((w', snd st), Inr (pb_encode P result))
           | (w', Inl e) \<Rightarrow> ((w', snd st), Inl (GrpcServerStatus e))))"

definition inner_get :: "('w, 'k, 'o) client_env \<Rightarrow> 'k \<Rightarrow> bytes \<Rightarrow> ('w \<times> client_pool, bytes) call" where
  "inner_get C client = inner_call (pc_get C) (pc_get_reply C) (\<lambda>w. ce_get C w client)"

definition inner_set :: "('w, 'k, 'o) client_env \<Rightarrow> 'k \<Rightarrow> bytes \<Rightarrow> ('w \<times> client_pool, bytes) call" where
  "inner_set C client = inner_call (pc_set C) (pc_common_reply C) (\<lambda>w. ce_set C w client)"

definition inner_delete :: "('w, 'k, 'o) client_env \<Rightarrow> 'k \<Rightarrow> bytes \<Rightarrow> ('w \<times> client_pool, bytes) call" where
  "inner_delete C client = inner_call (pc_delete C) (pc_common_reply C) (\<lambda>w. ce_delete C w client)"

definition inner_exists :: "('w, 'k, 'o) client_env \<Rightarrow> 'k \<Rightarrow> bytes \<Rightarrow> ('w \<times> client_pool, bytes) call" where
  "inner_exists C client = inner_call (pc_exists C) (pc_exists_reply C) (\<lambda>w. ce_exists C w client)"

definition inner_vote :: "('w, 'k, 'o) client_env \<Rightarrow> 'o \<Rightarrow> bytes \<Rightarrow> ('w \<times> client_pool, bytes) call" where
  "inner_vote C client = inner_call (pc_vote C) (pc_vote_reply C) (\<lambda>w. ce_vote C w client)"

definition inner_append :: "('w, 'k, 'o) client_env \<Rightarrow> 'o \<Rightarrow> bytes \<Rightarrow> ('w \<times> client_pool, bytes) call" where
  "inner_append C client = inner_call (pc_append C) (pc_append_reply C) (\<lambda>w. ce_append C w client)"

definition inner_snapshot :: "('w, 'k, 'o) client_env \<Rightarrow> 'o \<Rightarrow> bytes \<Rightarrow> ('w \<times> client_pool, bytes) call" where
  "inner_snapshot C client = inner_call (pc_snapshot C) (pc_snapshot_reply C) (\<lambda>w. ce_snapshot C w client)"

subsection \<open>Dispatch (kv/mod.rs, openraft/mod.rs)\<close>

datatype placement_center_service = Kv | OpenRaft

datatype placement_center_interface =
    Iface_Set | Iface_Get | Iface_Delete | Iface_Exists | Iface_Vote | Iface_Append | Iface_Snapshot

text \<open>The derived \<open>Debug\<close>.\<close>

fun interface_debug :: "placement_center_interface \<Rightarrow> string" where
  "interface_debug Iface_Set = ''Set''"
| "interface_debug Iface_Get = ''Get''"
| "interface_debug Iface_Delete = ''Delete''"
| "interface_debug Iface_Exists = ''Exists''"
| "interface_debug Iface_Vote = ''Vote''"
| "interface_debug Iface_Append = ''Append''"
| "interface_debug Iface_Snapshot = ''Snapshot''"

definition kv_client :: "('w, 'k, 'o) client_env \<Rightarrow> string \<Rightarrow> ('w \<times> client_pool, 'k) call" where
  "kv_client C addr st =
     (case placement_center_kv_services_client C addr st of
        (st1, Inr client) \<Rightarrow> (st1, Inr client)
      | (st1, Inl e) \<Rightarrow> (st1, Inl e))"

definition openraft_client :: "('w, 'k, 'o) client_env \<Rightarrow> string \<Rightarrow> ('w \<times> client_pool, 'o) call" where
  "openraft_client C addr st =
     (case placement_center_openraft_services_client C addr st of
        (st1, Inr client) \<Rightarrow> (st1, Inr client)
      | (st1, Inl e) \<Rightarrow> (st1, Inl e))"

lemma service_clients [simp]:
  "kv_client C addr = placement_center_kv_services_client C addr"
  "openraft_client C addr = placement_center_openraft_services_client C addr"
  by (rule ext, simp add: kv_client_def openraft_client_def split: prod.split sum.split)+

definition kv_interface_call ::
  "('w, 'k, 'o) client_env \<Rightarrow> placement_center_interface \<Rightarrow> string \<Rightarrow> bytes \<Rightarrow>
   ('w \<times> client_pool, bytes) call" where
  "kv_interface_call C interface addr request =
     and_then (kv_client C addr) (\<lambda>client.
       (case interface of
          Iface_Set \<Rightarrow> inner_set C client request
        | Iface_Delete \<Rightarrow> inner_delete C client request
        | Iface_Get \<Rightarrow> inner_get C client request
        | Iface_Exists \<Rightarrow> inner_exists C client request
        | _ \<Rightarrow> (\<lambda>st. (st, Inl (CommmonError
            (''kv service does not support service interfaces ['' @ interface_debug interface @ '']''))))))"

definition openraft_interface_call ::
  "('w, 'k, 'o) client_env \<Rightarrow> placement_center_interface \<Rightarrow> string \<Rightarrow> bytes \<Rightarrow>
   ('w \<times> client_pool, bytes) call" where
  "openraft_interface_call C interface addr request =
     and_then (openraft_client C addr) (\<lambda>client.
       (case interface of
          Iface_Vote \<Rightarrow> inner_vote C client request
        | Iface_Append \<Rightarrow> inner_append C client request
        | Iface_Snapshot \<Rightarrow> inner_snapshot C client request
        | _ \<Rightarrow> (\<lambda>st. (st, Inl (CommmonError
            (''openraft service does not support service interfaces ['' @ interface_debug interface @ '']''))))))"

subsection \<open>The retry loop (lib.rs, placement/mod.rs)\<close>

definition retry_times :: nat where
  "retry_times = 3"

definition retry_sleep_time :: "nat \<Rightarrow> nat" where
  "retry_sleep_time turn = turn * 2"

text \<open>
  The loop from its \<open>turn\<close>-th attempt on (the variable \<open>times\<close> of the code): the addresses tried, the seconds slept, and the result.
  An empty address list is a remainder by zero.
\<close>

function retry_loop ::
  "(string \<Rightarrow> ('s, bytes) call) \<Rightarrow> string list \<Rightarrow> nat \<Rightarrow> 's \<Rightarrow>
   ('s \<times> string list \<times> nat list) \<times> (robust_error + bytes) run" where
  "retry_loop call addrs turn st =
     (if addrs = [] then ((st, [], []), Panic RemainderByZero)
      else
        (let addr = addrs ! (turn mod length addrs) in
         case call addr st of
           (st1, Inr d) \<Rightarrow> ((st1, [addr], []), Ret (Inr d))
         | (st1, Inl e) \<Rightarrow>
             (if retry_times < turn then ((st1, [addr], []), Ret (Inl e))
              else
                (let ((st2, tried, slept), r) = retry_loop call addrs (turn + 1) st1
                 in ((st2, addr # tried, retry_sleep_time (turn + 1) # slept), r)))))"
  by pat_completeness auto
termination
  by (relation "measure (\<lambda>(call, addrs, turn, st). Suc retry_times - turn)") auto

definition retry_call ::
  "('w, 'k, 'o) client_env \<Rightarrow> placement_center_service \<Rightarrow> placement_center_interface \<Rightarrow> string list \<Rightarrow>
   bytes \<Rightarrow> 'w \<times> client_pool \<Rightarrow>
   (('w \<times> client_pool) \<times> string list \<times> nat list) \<times> (robust_error + bytes) run" where
  "retry_call C service interface addrs request st =
     retry_loop
       (\<lambda>addr. case service of
          Kv \<Rightarrow> kv_interface_call C interface addr request
        | OpenRaft \<Rightarrow> openraft_interface_call C interface addr request) addrs 1 st"

subsection \<open>The client functions (kv/call.rs, openraft/call.rs)\<close>

text \<open>Encode, \<open>retry_call\<close>, decode.\<close>

definition placement_call ::
  "('w, 'k, 'o) client_env \<Rightarrow> placement_center_service \<Rightarrow> placement_center_interface \<Rightarrow>
   'q prost \<Rightarrow> 'p prost \<Rightarrow> string list \<Rightarrow> 'q \<Rightarrow> 'w \<times> client_pool \<Rightarrow>
   ('w \<times> client_pool) \<times> (robust_error + 'p) run" where
  "placement_call C service interface Q P addrs request st =
     (case retry_call C service interface addrs (pb_encode Q request) st of
        ((st', _), Panic p) \<Rightarrow> (st', Panic p)
      | ((st', _), Ret (Inl e)) \<Rightarrow> (st', Ret (Inl e))
      | ((st', _), Ret (Inr d)) \<Rightarrow>
          (st', Ret (map_err (\<lambda>e. CommmonError (err_display e)) (pb_decode P d))))"

definition placement_set ::
  "('w, 'k, 'o) client_env \<Rightarrow> string list \<Rightarrow> set_request \<Rightarrow> 'w \<times> client_pool \<Rightarrow>
   ('w \<times> client_pool) \<times> (robust_error + common_reply) run" where
  "placement_set C = placement_call C Kv Iface_Set (pc_set C) (pc_common_reply C)"

definition placement_get ::
  "('w, 'k, 'o) client_env \<Rightarrow> string list \<Rightarrow> get_request \<Rightarrow> 'w \<times> client_pool \<Rightarrow>
   ('w \<times> client_pool) \<times> (robust_error + get_reply) run" where
  "placement_get C = placement_call C Kv Iface_Get (pc_get C) (pc_get_reply C)"

definition placement_delete ::
  "('w, 'k, 'o) client_env \<Rightarrow> string list \<Rightarrow> delete_request \<Rightarrow> 'w \<times> client_pool \<Rightarrow>
   ('w \<times> client_pool) \<times> (robust_error + common_reply) run" where
  "placement_delete C = placement_call C Kv Iface_Delete (pc_delete C) (pc_common_reply C)"

definition placement_exists ::
  "('w, 'k, 'o) client_env \<Rightarrow> string list \<Rightarrow> exists_request \<Rightarrow> 'w \<times> client_pool \<Rightarrow>
   ('w \<times> client_pool) \<times> (robust_error + exists_reply) run" where
  "placement_exists C = placement_call C Kv Iface_Exists (pc_exists C) (pc_exists_reply C)"

definition placement_openraft_vote ::
  "('w, 'k, 'o) client_env \<Rightarrow> string list \<Rightarrow> vote_request \<Rightarrow> 'w \<times> client_pool \<Rightarrow>
   ('w \<times> client_pool) \<times> (robust_error + vote_reply) run" where
  "placement_openraft_vote C = placement_call C OpenRaft Iface_Vote (pc_vote C) (pc_vote_reply C)"

definition placement_openraft_append ::
  "('w, 'k, 'o) client_env \<Rightarrow> string list \<Rightarrow> append_request \<Rightarrow> 'w \<times> client_pool \<Rightarrow>
   ('w \<times> client_pool) \<times> (robust_error + append_reply) run" where
  "placement_openraft_append C = placement_call C OpenRaft Iface_Append (pc_append C) (pc_append_reply C)"

definition placement_openraft_snapshot ::
  "('w, 'k, 'o) client_env \<Rightarrow> string list \<Rightarrow> snapshot_request \<Rightarrow> 'w \<times> client_pool \<Rightarrow>
   ('w \<times> client_pool) \<times> (robust_error + snapshot_reply) run" where
  "placement_openraft_snapshot C =
     placement_call C OpenRaft Iface_Snapshot (pc_snapshot C) (pc_snapshot_reply C)"

end
