(* ===== verification/Clients_Props.thy ===== *)
theory Clients_Props
  imports Clients
begin

section \<open>What the clients promise\<close>

text \<open>
  The retry loop against its schedule, the invariant of the connection pools, and delivery: what
  reaches the stub is the caller's request, and what comes back is the stub's reply.
\<close>

subsection \<open>The schedule of the retry loop\<close>

definition schedule :: "string list \<Rightarrow> nat \<Rightarrow> string list" where
  "schedule addrs t = map (\<lambda>i. addrs ! (i mod length addrs)) [t ..< 5]"

text \<open>The reference: the addresses in order, up to the first success.\<close>

fun first_ok ::
  "(string \<Rightarrow> ('s, bytes) call) \<Rightarrow> string list \<Rightarrow> 's \<Rightarrow> ('s \<times> string list) \<times> (robust_error + bytes)" where
  "first_ok call [] st = ((st, []), Inl ClusterNoAvailableNode)"
| "first_ok call (a # as) st =
     (case call a st of
        (st1, Inr d) \<Rightarrow> ((st1, [a]), Inr d)
      | (st1, Inl e) \<Rightarrow>
          (if as = [] then ((st1, [a]), Inl e)
           else (let ((st2, tried), r) = first_ok call as st1 in ((st2, a # tried), r))))"

lemma schedule_Cons: "t < 5 \<Longrightarrow> schedule addrs t = addrs ! (t mod length addrs) # schedule addrs (t + 1)"
  by (simp add: schedule_def upt_rec)

lemma schedule_Nil: "5 \<le> t \<Longrightarrow> schedule addrs t = []"
  by (simp add: schedule_def)

lemma schedule_ne: "t < 5 \<Longrightarrow> schedule addrs t \<noteq> []"
  by (simp add: schedule_Cons)

lemma length_schedule [simp]: "length (schedule addrs t) = 5 - t"
  by (simp add: schedule_def)

lemma first_ok_tried:
  "first_ok call as st = ((st', tried), r) \<Longrightarrow> as \<noteq> [] \<Longrightarrow>
     tried \<noteq> [] \<and> prefix tried as \<and> (is_ok r \<or> tried = as)"
proof (induction as arbitrary: st st' tried r)
  case Nil
  then show ?case by simp
next
  case (Cons a as)
  obtain st1 r1 where 1: "call a st = (st1, r1)" by fastforce
  show ?case
  proof (cases r1)
    case (Inr d)
    with Cons.prems 1 show ?thesis by auto
  next
    case (Inl e)
    show ?thesis
    proof (cases "as = []")
      case True
      with Cons.prems 1 Inl show ?thesis by auto
    next
      case False
      obtain st2 tried2 r2 where 2: "first_ok call as st1 = ((st2, tried2), r2)"
        by (cases "first_ok call as st1") auto
      with Cons.prems 1 Inl False have "tried = a # tried2" "r = r2" by auto
      with Cons.IH [OF 2 False] show ?thesis by simp
    qed
  qed
qed

lemma retry_loop_eq:
  "addrs \<noteq> [] \<Longrightarrow> t \<le> 4 \<Longrightarrow>
     retry_loop call addrs t st =
       (let ((st', tried), r) = first_ok call (schedule addrs t) st
        in ((st', tried, map retry_sleep_time [t + 1 ..< t + length tried]), Ret r))"
proof (induction "4 - t" arbitrary: t st)
  case 0
  then have t: "t = 4" by simp
  show ?case
    by (subst retry_loop.simps)
      (use 0 in \<open>simp add: t schedule_Cons schedule_Nil retry_times_def Let_def split: sum.split prod.split\<close>)
next
  case (Suc n)
  then have t: "n = 4 - (t + 1)" "t + 1 \<le> 4" "t < 5" "\<not> retry_times < t"
    by (simp_all add: retry_times_def)
  let ?a = "addrs ! (t mod length addrs)"
  obtain st1 r1 where 1: "call ?a st = (st1, r1)" by fastforce
  show ?case
  proof (cases r1)
    case (Inr d)
    show ?thesis
      by (subst retry_loop.simps) (simp add: schedule_Cons [OF t(3)] Suc.prems 1 Inr)
  next
    case (Inl e)
    obtain st2 tried r where 2: "first_ok call (schedule addrs (t + 1)) st1 = ((st2, tried), r)"
      by (cases "first_ok call (schedule addrs (t + 1)) st1") auto
    have ne: "schedule addrs (t + 1) \<noteq> []" using t by (intro schedule_ne) simp
    have "tried \<noteq> []" using first_ok_tried [OF 2 ne] by blast
    then have "[t + 1 ..< t + 1 + length tried] = (t + 1) # [t + 2 ..< t + 1 + length tried]"
      by (cases tried) (simp_all add: upt_rec)
    then have up: "retry_sleep_time (t + 1) # map retry_sleep_time [t + 2 ..< t + 1 + length tried] =
        map retry_sleep_time [t + 1 ..< t + length (?a # tried)]"
      by simp
    show ?thesis
      by (subst retry_loop.simps)
        (use up ne t(4) Suc.prems 1 2 Inl Suc.hyps(1) [OF t(1) Suc.prems(1) t(2), of st1]
          in \<open>simp add: schedule_Cons [OF t(3)]\<close>)
  qed
qed

lemma sleeps:
  assumes "1 \<le> n" and "n \<le> 4"
  shows "map retry_sleep_time [2 ..< 1 + n] = take (n - 1) [4, 6, 8]" and "sum_list (take (n - 1) [4, 6, 8 :: nat]) \<le> 18"
proof -
  have "n = 1 \<or> n = 2 \<or> n = 3 \<or> n = 4" using assms by arith
  then show "map retry_sleep_time [2 ..< 1 + n] = take (n - 1) [4, 6, 8]"
    and "sum_list (take (n - 1) [4, 6, 8 :: nat]) \<le> 18"
    by (elim disjE; simp add: retry_sleep_time_def upt_rec)+
qed

text \<open>
  C14: The retry loop always ends, and is its schedule: it asks the addresses 1, 2, 3, 4 (modulo their
  number) in this order, stops at the first success, returns the last error when all four
  attempts fail, and sleeps 4, 6 and 8 seconds between attempts, so 18 seconds at most; only an
  empty list of addresses panics.
\<close>

theorem retry_loop_follows_schedule:
  "(addrs = [] \<longrightarrow> retry_loop call addrs 1 st = ((st, [], []), Panic RemainderByZero)) \<and>
   (addrs \<noteq> [] \<longrightarrow>
     (\<exists>st' tried slept r. retry_loop call addrs 1 st = ((st', tried, slept), Ret r) \<and>
        first_ok call (schedule addrs 1) st = ((st', tried), r) \<and>
        prefix tried (schedule addrs 1) \<and> 1 \<le> length tried \<and> length tried \<le> 4 \<and>
        (is_ok r \<or> length tried = 4) \<and> slept = take (length tried - 1) [4, 6, 8] \<and> sum_list slept \<le> 18))"
proof (intro conjI impI)
  assume "addrs = []"
  then show "retry_loop call addrs 1 st = ((st, [], []), Panic RemainderByZero)"
    by (subst retry_loop.simps) simp
next
  assume ne: "addrs \<noteq> []"
  obtain st' tried r where f: "first_ok call (schedule addrs 1) st = ((st', tried), r)"
    by (cases "first_ok call (schedule addrs 1) st") auto
  have "schedule addrs 1 \<noteq> []" by (rule schedule_ne) simp
  from first_ok_tried [OF f this]
  have tried: "tried \<noteq> []" "prefix tried (schedule addrs 1)" "is_ok r \<or> tried = schedule addrs 1" by auto
  have len: "1 \<le> length tried" "length tried \<le> 4" "is_ok r \<or> length tried = 4"
    using tried prefix_length_le [OF tried(2)] by (auto simp: Suc_le_eq)
  have "retry_loop call addrs 1 st =
      ((st', tried, map retry_sleep_time [2 ..< 1 + length tried]), Ret r)"
    using retry_loop_eq [OF ne, of 1 call st] f by (simp add: numeral_2_eq_2)
  with f tried(2) len sleeps [OF len(1,2)]
  show "\<exists>st' tried slept r. retry_loop call addrs 1 st = ((st', tried, slept), Ret r) \<and>
        first_ok call (schedule addrs 1) st = ((st', tried), r) \<and>
        prefix tried (schedule addrs 1) \<and> 1 \<le> length tried \<and> length tried \<le> 4 \<and>
        (is_ok r \<or> length tried = 4) \<and> slept = take (length tried - 1) [4, 6, 8] \<and> sum_list slept \<le> 18"
    by (intro exI conjI) simp_all
qed

lemma retry_loop_ends:
  assumes "addrs \<noteq> []"
  obtains st' tried slept r where "retry_loop call addrs 1 st = ((st', tried, slept), Ret r)"
    "first_ok call (schedule addrs 1) st = ((st', tried), r)" "prefix tried (schedule addrs 1)"
proof -
  obtain st' tried r where f: "first_ok call (schedule addrs 1) st = ((st', tried), r)"
    by (cases "first_ok call (schedule addrs 1) st") auto
  have "schedule addrs 1 \<noteq> []" by (rule schedule_ne) simp
  then show thesis
    using that [OF _ f] first_ok_tried [OF f] retry_loop_eq [OF assms, of 1 call st] f by simp
qed

lemma first_ok_live:
  assumes "\<And>b s. good s \<Longrightarrow> good (fst (call b s))" and "\<And>s. good s \<Longrightarrow> is_ok (snd (call a s))"
  shows "a \<in> set as \<Longrightarrow> good st \<Longrightarrow> is_ok (snd (first_ok call as st))"
proof (induction as arbitrary: st)
  case Nil
  then show ?case by simp
next
  case (Cons b as)
  obtain st1 r1 where 1: "call b st = (st1, r1)" by fastforce
  show ?case
  proof (cases r1)
    case (Inr d)
    with 1 show ?thesis by simp
  next
    case (Inl e)
    with 1 assms(2) [OF Cons.prems(2)] have "b \<noteq> a" by auto
    with Cons.prems have a: "a \<in> set as" by simp
    then have "as \<noteq> []" by auto
    moreover have "good st1" using assms(1) [OF Cons.prems(2), of b] 1 by simp
    ultimately show ?thesis using Cons.IH [OF a, of st1] 1 Inl
      by (simp add: case_prod_beta Let_def)
  qed
qed

lemma first_ok_dead:
  assumes "\<And>b s. good s \<Longrightarrow> good (fst (call b s))" and "\<And>s. good s \<Longrightarrow> \<not> is_ok (snd (call a s))"
  shows "set as \<subseteq> {a} \<Longrightarrow> good st \<Longrightarrow> \<not> is_ok (snd (first_ok call as st))"
proof (induction as arbitrary: st)
  case Nil
  then show ?case by simp
next
  case (Cons b as)
  then have "b = a" by simp
  obtain st1 r1 where 1: "call a st = (st1, r1)" by fastforce
  with assms(2) [OF Cons.prems(2)] obtain e where "r1 = Inl e" by (cases r1) auto
  moreover have "good st1" using assms(1) [OF Cons.prems(2), of a] 1 by simp
  ultimately show ?case using Cons.IH [of st1] Cons.prems 1 \<open>b = a\<close>
    by (simp add: case_prod_beta Let_def)
qed

lemma schedule_covers: "length addrs \<le> 4 \<Longrightarrow> a \<in> set addrs \<Longrightarrow> a \<in> set (schedule addrs 1)"
proof -
  assume n: "length addrs \<le> 4" and "a \<in> set addrs"
  then obtain j where j: "j < length addrs" "a = addrs ! j" by (auto simp: in_set_conv_nth)
  let ?i = "if j = 0 then length addrs else j"
  have "a = addrs ! (?i mod length addrs)" using j by simp
  moreover have "?i \<in> set [1 ..< 5]" using j n by auto
  ultimately show ?thesis unfolding schedule_def set_map by (rule image_eqI)
qed

lemma schedule_skips_first:
  "distinct addrs \<Longrightarrow> 5 \<le> length addrs \<Longrightarrow> addrs ! 0 \<notin> set (schedule addrs 1)"
proof
  assume d: "distinct addrs" "5 \<le> length addrs" and "addrs ! 0 \<in> set (schedule addrs 1)"
  then obtain i where i: "1 \<le> i" "i < 5" "addrs ! 0 = addrs ! i" by (auto simp: schedule_def)
  moreover have "addrs \<noteq> []" using d by auto
  ultimately show False using d nth_eq_iff_index_eq [OF d(1), of 0 i] by simp
qed

subsection \<open>Pools\<close>

definition pools_of :: "string \<Rightarrow> u64 \<Rightarrow> (string \<times> pool) list \<Rightarrow> bool" where
  "pools_of module max_open pools \<longleftrightarrow>
     (\<forall>key p. map_of pools key = Some p \<longrightarrow>
        p = \<lparr>pl_addr = pl_addr p, pl_max_open = max_open\<rparr> \<and> key = pool_key module (pl_addr p))"

definition pools_ok :: "client_pool \<Rightarrow> bool" where
  "pools_ok cp \<longleftrightarrow>
     pools_of ''KvServices'' (cp_max_open_connection cp) (cp_kv_pools cp) \<and>
     pools_of ''OpenRaftServices'' (cp_max_open_connection cp) (cp_openraft_pools cp)"

lemma pool_key_inject [simp]: "pool_key m a = pool_key m b \<longleftrightarrow> a = b"
  by (simp add: pool_key_def)

lemma ensure_pool_ok: "pools_of m n pools \<Longrightarrow> pools_of m n (ensure_pool n (pool_key m a) a pools)"
  by (auto simp: pools_of_def ensure_pool_def update_conv' split: if_splits)

lemma ensure_pool_at:
  "pools_of m n pools \<Longrightarrow>
     map_of (ensure_pool n (pool_key m a) a pools) (pool_key m a) = Some \<lparr>pl_addr = a, pl_max_open = n\<rparr>"
proof (cases "map_of pools (pool_key m a)")
  case None
  then show ?thesis by (simp add: ensure_pool_def update_conv')
next
  case (Some p)
  moreover assume "pools_of m n pools"
  ultimately have "p = \<lparr>pl_addr = pl_addr p, pl_max_open = n\<rparr>" "pl_addr p = a"
    unfolding pools_of_def by fastforce+
  with Some show ?thesis by (simp add: ensure_pool_def)
qed

lemma kv_client_eq:
  assumes "pools_ok cp"
  obtains cp' where "pools_ok cp'" "cp_max_open_connection cp' = cp_max_open_connection cp"
    "\<And>C w. placement_center_kv_services_client C a (w, cp) =
       (let (w', q) = ce_kv_get C w \<lparr>pl_addr = a, pl_max_open = cp_max_open_connection cp\<rparr>
        in ((w', cp'), map_err (\<lambda>e. NoAvailableGrpcConnection ''KvServices'' (err_display e)) q))"
proof -
  let ?cp = "cp\<lparr>cp_kv_pools := ensure_pool (cp_max_open_connection cp) (pool_key ''KvServices'' a) a (cp_kv_pools cp)\<rparr>"
  show thesis
  proof (rule that [of ?cp])
    show "pools_ok ?cp" using assms by (simp add: pools_ok_def ensure_pool_ok)
    show "placement_center_kv_services_client C a (w, cp) =
       (let (w', q) = ce_kv_get C w \<lparr>pl_addr = a, pl_max_open = cp_max_open_connection cp\<rparr>
        in ((w', ?cp), map_err (\<lambda>e. NoAvailableGrpcConnection ''KvServices'' (err_display e)) q))" for C w
      using assms
      by (simp add: pools_ok_def placement_center_kv_services_client_def ensure_pool_at Let_def
          split: prod.split sum.split)
  qed simp
qed

lemma openraft_client_eq:
  assumes "pools_ok cp"
  obtains cp' where "pools_ok cp'" "cp_max_open_connection cp' = cp_max_open_connection cp"
    "\<And>C w. placement_center_openraft_services_client C a (w, cp) =
       (let (w', q) = ce_openraft_get C w \<lparr>pl_addr = a, pl_max_open = cp_max_open_connection cp\<rparr>
        in ((w', cp'), map_err (\<lambda>e. NoAvailableGrpcConnection ''OpenRaftServices'' (err_display e)) q))"
proof -
  let ?cp = "cp\<lparr>cp_openraft_pools := ensure_pool (cp_max_open_connection cp) (pool_key ''OpenRaftServices'' a) a
       (cp_openraft_pools cp)\<rparr>"
  show thesis
  proof (rule that [of ?cp])
    show "pools_ok ?cp" using assms by (simp add: pools_ok_def ensure_pool_ok)
    show "placement_center_openraft_services_client C a (w, cp) =
       (let (w', q) = ce_openraft_get C w \<lparr>pl_addr = a, pl_max_open = cp_max_open_connection cp\<rparr>
        in ((w', ?cp), map_err (\<lambda>e. NoAvailableGrpcConnection ''OpenRaftServices'' (err_display e)) q))" for C w
      using assms
      by (simp add: pools_ok_def placement_center_openraft_services_client_def ensure_pool_at Let_def
          split: prod.split sum.split)
  qed simp
qed

lemma inner_call_pool [simp]: "snd (fst (inner_call Q P stub request st)) = snd st"
  by (simp add: inner_call_def split: sum.split prod.split)

lemma kv_interface_call_pools_ok:
  assumes "pools_ok (snd st)"
  shows "pools_ok (snd (fst (kv_interface_call C interface a request st)))"
proof -
  obtain w cp where st: "st = (w, cp)" by fastforce
  with assms have "pools_ok cp" by simp
  then obtain cp' where cp': "pools_ok cp'" "placement_center_kv_services_client C a (w, cp) =
       (let (w', q) = ce_kv_get C w \<lparr>pl_addr = a, pl_max_open = cp_max_open_connection cp\<rparr>
        in ((w', cp'), map_err (\<lambda>e. NoAvailableGrpcConnection ''KvServices'' (err_display e)) q))"
    using kv_client_eq [of cp a] by metis
  obtain w' q where get: "ce_kv_get C w \<lparr>pl_addr = a, pl_max_open = cp_max_open_connection cp\<rparr> = (w', q)"
    by fastforce
  show ?thesis
    using cp'(1) by (cases q; cases interface)
      (simp_all add: st kv_interface_call_def and_then_def cp'(2) get
        inner_set_def inner_delete_def inner_get_def inner_exists_def)
qed

lemma kv_interface_call_no_connection:
  assumes "pools_ok (snd st)"
    and "\<And>w n. \<not> is_ok (snd (ce_kv_get C w \<lparr>pl_addr = a, pl_max_open = n\<rparr>))"
  shows "\<not> is_ok (snd (kv_interface_call C interface a request st))"
proof -
  obtain cp' where eq: "placement_center_kv_services_client C a (fst st, snd st) =
       (let (w', q) = ce_kv_get C (fst st) \<lparr>pl_addr = a, pl_max_open = cp_max_open_connection (snd st)\<rparr>
        in ((w', cp'), map_err (\<lambda>e. NoAvailableGrpcConnection ''KvServices'' (err_display e)) q))"
    using kv_client_eq [OF assms(1), of a] by metis
  obtain w' e where "ce_kv_get C (fst st) \<lparr>pl_addr = a, pl_max_open = cp_max_open_connection (snd st)\<rparr> = (w', Inl e)"
    using assms(2) [of "fst st" "cp_max_open_connection (snd st)"]
    by (metis is_ok.simps(1) prod.collapse sum.exhaust)
  with eq show ?thesis by (simp add: kv_interface_call_def and_then_def)
qed

lemma pools_ok_new [simp]: "pools_ok (client_pool_new n)"
  by (simp add: pools_ok_def pools_of_def client_pool_new_def)


text \<open>
  Connections are never mixed up: as long as every pool is filed under its own address, which
  holds of a new pool set and is kept by every request for a connection, the connection for an
  address comes from a pool whose manager has exactly that address and the configured bound,
  failures carry the service's name, and the "not initialized" error cannot occur.
\<close>

lemma connections_match_addresses:
  assumes "pools_ok cp"
  shows "(\<exists>cp'. pools_ok cp' \<and> placement_center_kv_services_client C a (w, cp) =
       (let (w', q) = ce_kv_get C w \<lparr>pl_addr = a, pl_max_open = cp_max_open_connection cp\<rparr>
        in ((w', cp'), map_err (\<lambda>e. NoAvailableGrpcConnection ''KvServices'' (err_display e)) q))) \<and>
    (\<exists>cp'. pools_ok cp' \<and> placement_center_openraft_services_client C a (w, cp) =
       (let (w', q) = ce_openraft_get C w \<lparr>pl_addr = a, pl_max_open = cp_max_open_connection cp\<rparr>
        in ((w', cp'), map_err (\<lambda>e. NoAvailableGrpcConnection ''OpenRaftServices'' (err_display e)) q)))"
  using kv_client_eq [OF assms, of a] openraft_client_eq [OF assms, of a] by metis

subsection \<open>Delivery\<close>

definition client_laws :: "('w, 'k, 'o) client_env \<Rightarrow> bool" where
  "client_laws C \<longleftrightarrow>
     prost_laws (pc_set C) \<and> prost_laws (pc_delete C) \<and> prost_laws (pc_get C) \<and> prost_laws (pc_exists C) \<and>
     prost_laws (pc_common_reply C) \<and> prost_laws (pc_get_reply C) \<and> prost_laws (pc_exists_reply C) \<and>
     prost_laws (pc_vote C) \<and> prost_laws (pc_append C) \<and> prost_laws (pc_snapshot C) \<and>
     prost_laws (pc_vote_reply C) \<and> prost_laws (pc_append_reply C) \<and> prost_laws (pc_snapshot_reply C)"

lemma inner_call_encoded:
  "prost_laws Q \<Longrightarrow> inner_call Q P stub (pb_encode Q req) (w, cp) =
     (let (w', r) = stub w req in ((w', cp), map_err GrpcServerStatus (map_sum id (pb_encode P) r)))"
  by (simp add: inner_call_def prost_roundtrip split: prod.split sum.split)

lemma placement_call_single:
  assumes "prost_laws P"
    and "(case service of Kv \<Rightarrow> kv_interface_call C interface a (pb_encode Q req) st
      | OpenRaft \<Rightarrow> openraft_interface_call C interface a (pb_encode Q req) st) = (st', Inr (pb_encode P rep))"
  shows "placement_call C service interface Q P [a] req st = (st', Ret (Inr rep))"
proof -
  have "retry_call C service interface [a] (pb_encode Q req) st = ((st', [a], []), Ret (Inr (pb_encode P rep)))"
    unfolding retry_call_def
    by (subst retry_loop.simps) (use assms(2) in \<open>cases service; simp\<close>)
  then show ?thesis by (simp add: placement_call_def prost_roundtrip [OF assms(1)])
qed

locale grpc_client =
  fixes C :: "('w, 'k, 'o) client_env"
  assumes laws: "client_laws C"
begin

lemma codec_laws [simp]:
  "prost_laws (pc_set C)" "prost_laws (pc_delete C)" "prost_laws (pc_get C)" "prost_laws (pc_exists C)"
  "prost_laws (pc_common_reply C)" "prost_laws (pc_get_reply C)" "prost_laws (pc_exists_reply C)"
  "prost_laws (pc_vote C)" "prost_laws (pc_append C)" "prost_laws (pc_snapshot C)"
  "prost_laws (pc_vote_reply C)" "prost_laws (pc_append_reply C)" "prost_laws (pc_snapshot_reply C)"
  using laws by (simp_all add: client_laws_def)

text \<open>With a connection at hand the stub gets the request as it is, and its reply comes back.\<close>

lemma kv_delivery:
  assumes "pools_ok cp"
    and conn: "ce_kv_get C w \<lparr>pl_addr = a, pl_max_open = cp_max_open_connection cp\<rparr> = (w1, Inr conn)"
  obtains cp' where "pools_ok cp'"
    "\<And>req w2 rep. ce_set C w1 conn req = (w2, Inr rep) \<Longrightarrow> placement_set C [a] req (w, cp) = ((w2, cp'), Ret (Inr rep))"
    "\<And>req w2 rep. ce_delete C w1 conn req = (w2, Inr rep) \<Longrightarrow> placement_delete C [a] req (w, cp) = ((w2, cp'), Ret (Inr rep))"
    "\<And>req w2 rep. ce_get C w1 conn req = (w2, Inr rep) \<Longrightarrow> placement_get C [a] req (w, cp) = ((w2, cp'), Ret (Inr rep))"
    "\<And>req w2 rep. ce_exists C w1 conn req = (w2, Inr rep) \<Longrightarrow> placement_exists C [a] req (w, cp) = ((w2, cp'), Ret (Inr rep))"
proof -
  obtain cp' where cp': "pools_ok cp'" "placement_center_kv_services_client C a (w, cp) = ((w1, cp'), Inr conn)"
    using kv_client_eq [OF assms(1), of a] conn by (metis case_prod_conv map_err.simps(2))
  note ev = kv_interface_call_def and_then_def cp'(2) inner_call_encoded
    inner_set_def inner_delete_def inner_get_def inner_exists_def
  show thesis
    by (rule that [OF cp'(1)];
        (unfold placement_set_def placement_delete_def placement_get_def placement_exists_def)?;
        rule placement_call_single; simp add: ev)
qed

lemma openraft_delivery:
  assumes "pools_ok cp"
    and conn: "ce_openraft_get C w \<lparr>pl_addr = a, pl_max_open = cp_max_open_connection cp\<rparr> = (w1, Inr conn)"
  obtains cp' where "pools_ok cp'"
    "\<And>req w2 rep. ce_vote C w1 conn req = (w2, Inr rep) \<Longrightarrow> placement_openraft_vote C [a] req (w, cp) = ((w2, cp'), Ret (Inr rep))"
    "\<And>req w2 rep. ce_append C w1 conn req = (w2, Inr rep) \<Longrightarrow> placement_openraft_append C [a] req (w, cp) = ((w2, cp'), Ret (Inr rep))"
    "\<And>req w2 rep. ce_snapshot C w1 conn req = (w2, Inr rep) \<Longrightarrow> placement_openraft_snapshot C [a] req (w, cp) = ((w2, cp'), Ret (Inr rep))"
proof -
  obtain cp' where cp': "pools_ok cp'" "placement_center_openraft_services_client C a (w, cp) = ((w1, cp'), Inr conn)"
    using openraft_client_eq [OF assms(1), of a] conn by (metis case_prod_conv map_err.simps(2))
  note ev = openraft_interface_call_def and_then_def cp'(2) inner_call_encoded
    inner_vote_def inner_append_def inner_snapshot_def
  show thesis
    by (rule that [OF cp'(1)];
        (unfold placement_openraft_vote_def placement_openraft_append_def placement_openraft_snapshot_def)?;
        rule placement_call_single; simp add: ev)
qed

end


subsection \<open>A reference network\<close>

text \<open>
  One reachable node, \<open>b:1\<close>, with a key-value store as the world; votes and appends are echoed.
\<close>

definition unit_prost :: "'a \<Rightarrow> 'a prost" where
  "unit_prost x = \<lparr>pb_encode = (\<lambda>_. []), pb_decode = (\<lambda>_. Inr x)\<rparr>"

definition bytes_prost :: "(bytes \<Rightarrow> 'a) \<Rightarrow> ('a \<Rightarrow> bytes) \<Rightarrow> 'a prost" where
  "bytes_prost mk un = \<lparr>pb_encode = un, pb_decode = (\<lambda>b. Inr (mk b))\<rparr>"

definition string_prost :: "(string \<Rightarrow> 'a) \<Rightarrow> ('a \<Rightarrow> string) \<Rightarrow> 'a prost" where
  "string_prost mk un = bytes_prost (\<lambda>b. mk (bytes_str b)) (\<lambda>x. str_bytes (un x))"

lemma bytes_prost_laws: "(\<And>x. mk (un x) = x) \<Longrightarrow> prost_laws (bytes_prost mk un)"
  by (simp add: prost_laws_def bytes_prost_def)

lemma string_prost_laws: "(\<And>x. mk (un x) = x) \<Longrightarrow> prost_laws (string_prost mk un)"
  unfolding string_prost_def by (rule bytes_prost_laws) simp

definition ref_client :: "((string \<times> string) list, string, string) client_env" where
  "ref_client =
     \<lparr>ce_kv_get = (\<lambda>w p. (w, if pl_addr p = ''b:1'' then Inr (pl_addr p) else Inl parse_error)),
      ce_openraft_get = (\<lambda>w p. (w, if pl_addr p = ''b:1'' then Inr (pl_addr p) else Inl parse_error)),
      ce_set = (\<lambda>w c r. (AList.update (set_key r) (set_value r) w, Inr CommonReply)),
      ce_delete = (\<lambda>w c r. (AList.delete (del_key r) w, Inr CommonReply)),
      ce_get = (\<lambda>w c r. (w, Inr \<lparr>getr_value = (case map_of w (getq_key r) of None \<Rightarrow> [] | Some v \<Rightarrow> v)\<rparr>)),
      ce_exists = (\<lambda>w c r. (w, Inr \<lparr>exr_flag = (map_of w (exq_key r) \<noteq> None)\<rparr>)),
      ce_vote = (\<lambda>w c r. (w, Inr \<lparr>vr_value = vq_value r\<rparr>)),
      ce_append = (\<lambda>w c r. (w, Inr \<lparr>ar_value = aq_value r\<rparr>)),
      ce_snapshot = (\<lambda>w c r. (w, Inl (status_cancelled []))),
      pc_set = pb_set_request ref_codecs,
      pc_delete = pb_delete_request ref_codecs,
      pc_get = string_prost (\<lambda>k. \<lparr>getq_key = k\<rparr>) getq_key,
      pc_exists = string_prost (\<lambda>k. \<lparr>exq_key = k\<rparr>) exq_key,
      pc_common_reply = unit_prost CommonReply,
      pc_get_reply = string_prost (\<lambda>k. \<lparr>getr_value = k\<rparr>) getr_value,
      pc_exists_reply = \<lparr>pb_encode = (\<lambda>r. if exr_flag r then [1] else []), pb_decode = (\<lambda>b. Inr \<lparr>exr_flag = (b = [1])\<rparr>)\<rparr>,
      pc_vote = bytes_prost (\<lambda>b. \<lparr>vq_value = b\<rparr>) vq_value,
      pc_append = bytes_prost (\<lambda>b. \<lparr>aq_value = b\<rparr>) aq_value,
      pc_snapshot = bytes_prost (\<lambda>b. \<lparr>sq_value = b\<rparr>) sq_value,
      pc_vote_reply = bytes_prost (\<lambda>b. \<lparr>vr_value = b\<rparr>) vr_value,
      pc_append_reply = bytes_prost (\<lambda>b. \<lparr>ar_value = b\<rparr>) ar_value,
      pc_snapshot_reply = bytes_prost (\<lambda>b. \<lparr>sr_value = b\<rparr>) sr_value\<rparr>"

lemma tagged_prost_laws: "fmt_ok f \<Longrightarrow> prost_laws (tagged_prost f)"
proof -
  assume "fmt_ok f"
  then have "get_fmt f (put_fmt f v @ []) = Some (v, [])" for v unfolding fmt_ok_def by blast
  then show ?thesis by (simp add: prost_laws_def tagged_prost_def)
qed

lemma common_reply_prost: "prost_laws (unit_prost CommonReply)"
  by (simp add: prost_laws_def unit_prost_def) (metis common_reply.exhaust)

lemma ref_request_laws: "prost_laws (pb_set_request ref_codecs)" "prost_laws (pb_delete_request ref_codecs)"
  by (simp_all add: ref_codecs_def tagged_prost_laws fmt_map_ok)

lemma ref_client_laws: "client_laws ref_client"
  by (simp add: client_laws_def ref_client_def ref_request_laws common_reply_prost string_prost_laws bytes_prost_laws)
    (simp add: prost_laws_def)

interpretation ref_net: grpc_client ref_client
  by unfold_locales (rule ref_client_laws)

lemma connections_match_addresses_witness:
  "\<exists>cp'. pools_ok cp' \<and> placement_center_kv_services_client ref_client ''b:1'' ([], client_pool_new 3) =
     (([], cp'), Inr ''b:1'')"
  using conjunct1 [OF connections_match_addresses [OF pools_ok_new, of ref_client "''b:1''" "[]" 3]]
  by (simp add: ref_client_def)

lemma retry_loop_follows_schedule_witness:
  "\<exists>st' tried slept r. retry_loop (\<lambda>a s. (s, Inl ClusterNoAvailableNode)) [''a'', ''b''] 1 () =
     ((st', tried, slept), Ret r) \<and> length tried \<le> 4"
  using conjunct2 [OF retry_loop_follows_schedule [of "[''a'', ''b'']" "\<lambda>a s. (s, Inl ClusterNoAvailableNode)" "()"]]
  by (simp del: retry_loop.simps) blast

text \<open>
  C27: A call survives failing nodes: if one of at most four addresses always answers, the retry loop
  returns a success, whatever the others do.  Four attempts are not enough for five addresses:
  the first one is then never asked.
\<close>

theorem live_node_is_found:
  assumes "addrs \<noteq> []" and "pools_ok (snd st)"
  shows "\<exists>st' tried slept r.
    retry_call C Kv interface addrs request st = ((st', tried, slept), Ret r) \<and>
    (length addrs \<le> 4 \<and>
       (\<exists>a \<in> set addrs. \<forall>s. pools_ok (snd s) \<longrightarrow> is_ok (snd (kv_interface_call C interface a request s))) \<longrightarrow>
     is_ok r) \<and>
    (distinct addrs \<and> 5 \<le> length addrs \<longrightarrow> addrs ! 0 \<notin> set tried)"
proof -
  let ?call = "\<lambda>addr. kv_interface_call C interface addr request"
  obtain st' tried slept r where r: "retry_loop ?call addrs 1 st = ((st', tried, slept), Ret r)"
    "first_ok ?call (schedule addrs 1) st = ((st', tried), r)" "prefix tried (schedule addrs 1)"
    by (rule retry_loop_ends [OF assms(1)])
  have "is_ok r" if "length addrs \<le> 4" "a \<in> set addrs"
    "\<forall>s. pools_ok (snd s) \<longrightarrow> is_ok (snd (?call a s))" for a
    using first_ok_live [where good = "\<lambda>s. pools_ok (snd s)" and call = ?call, OF kv_interface_call_pools_ok _
        schedule_covers [OF that(1,2)] assms(2)] that(3) r(2) by simp
  moreover have "addrs ! 0 \<notin> set tried" if "distinct addrs" "5 \<le> length addrs"
    using schedule_skips_first [OF that] set_mono_prefix [OF r(3)] by blast
  ultimately show ?thesis using r(1) unfolding retry_call_def by (simp del: retry_loop.simps) blast
qed

lemma ref_connection:
  "ce_kv_get ref_client w \<lparr>pl_addr = ''b:1'', pl_max_open = n\<rparr> = (w, Inr ''b:1'')"
  by (simp add: ref_client_def)

lemma ref_inner_get:
  "is_ok (snd (inner_get ref_client c (pb_encode (pc_get ref_client) req) (w, cp)))"
proof -
  have "\<exists>rep. ce_get ref_client w c req = (w, Inr rep)" by (simp add: ref_client_def)
  then show ?thesis by (auto simp: inner_get_def inner_call_encoded)
qed

lemma ref_live:
  assumes "pools_ok (snd s)"
  shows "is_ok (snd (kv_interface_call ref_client Iface_Get ''b:1'' (pb_encode (pc_get ref_client) req) s))"
proof -
  obtain cp' where "placement_center_kv_services_client ref_client ''b:1'' (fst s, snd s) =
       (let (w', q) = ce_kv_get ref_client (fst s) \<lparr>pl_addr = ''b:1'', pl_max_open = cp_max_open_connection (snd s)\<rparr>
        in ((w', cp'), map_err (\<lambda>e. NoAvailableGrpcConnection ''KvServices'' (err_display e)) q))"
    using kv_client_eq [OF assms, of "''b:1''"] by metis
  then have "placement_center_kv_services_client ref_client ''b:1'' s = ((fst s, cp'), Inr ''b:1'')"
    by (simp add: ref_connection)
  then show ?thesis by (simp add: kv_interface_call_def and_then_def ref_inner_get)
qed

lemma live_node_is_found_witness:
  "\<exists>st' tried slept r. retry_call ref_client Kv Iface_Get [''a:1'', ''b:1''] (pb_encode (pc_get ref_client) \<lparr>getq_key = ''k''\<rparr>)
     ([], client_pool_new 3) = ((st', tried, slept), Ret r) \<and> is_ok r"
proof -
  let ?as = "[''a:1'', ''b:1'']" and ?r = "pb_encode (pc_get ref_client) \<lparr>getq_key = ''k''\<rparr>"
  have "?as \<noteq> []" "pools_ok (snd ([] :: (string \<times> string) list, client_pool_new 3))" by simp_all
  from live_node_is_found [OF this, of ref_client Iface_Get ?r]
  obtain st' tried slept r where r: "retry_call ref_client Kv Iface_Get ?as ?r ([], client_pool_new 3) = ((st', tried, slept), Ret r)"
    "length ?as \<le> 4 \<and> (\<exists>a \<in> set ?as. \<forall>s. pools_ok (snd s) \<longrightarrow>
      is_ok (snd (kv_interface_call ref_client Iface_Get a ?r s))) \<longrightarrow> is_ok r" by blast
  have "''b:1'' \<in> set ?as" "length ?as \<le> 4" by simp_all
  then have "is_ok r" using r(2) ref_live by blast
  with r(1) show ?thesis by blast
qed

text \<open>
  Delivery, end to end: when the node gives a connection, each of the four client functions of
  the key-value service hands the stub exactly the caller's request and returns exactly the
  stub's reply, through both encodings, the pool and the retry loop.
\<close>

lemma kv_calls_deliver:
  assumes "client_laws C" and "pools_ok cp"
    and "ce_kv_get C w \<lparr>pl_addr = a, pl_max_open = cp_max_open_connection cp\<rparr> = (w1, Inr conn)"
  shows "\<exists>cp'. pools_ok cp' \<and>
    (\<forall>req w2 rep. ce_set C w1 conn req = (w2, Inr rep) \<longrightarrow>
       placement_set C [a] req (w, cp) = ((w2, cp'), Ret (Inr rep))) \<and>
    (\<forall>req w2 rep. ce_delete C w1 conn req = (w2, Inr rep) \<longrightarrow>
       placement_delete C [a] req (w, cp) = ((w2, cp'), Ret (Inr rep))) \<and>
    (\<forall>req w2 rep. ce_get C w1 conn req = (w2, Inr rep) \<longrightarrow>
       placement_get C [a] req (w, cp) = ((w2, cp'), Ret (Inr rep))) \<and>
    (\<forall>req w2 rep. ce_exists C w1 conn req = (w2, Inr rep) \<longrightarrow>
       placement_exists C [a] req (w, cp) = ((w2, cp'), Ret (Inr rep)))"
  by (rule grpc_client.kv_delivery [OF grpc_client.intro [OF assms(1)] assms(2,3)]) blast

lemma kv_calls_deliver_witness:
  "\<exists>cp'. placement_get ref_client [''b:1''] \<lparr>getq_key = ''k''\<rparr> ([(''k'', ''v'')], client_pool_new 3) =
     (([(''k'', ''v'')], cp'), Ret (Inr \<lparr>getr_value = ''v''\<rparr>))"
proof -
  have "ce_get ref_client [(''k'', ''v'')] ''b:1'' \<lparr>getq_key = ''k''\<rparr> = ([(''k'', ''v'')], Inr \<lparr>getr_value = ''v''\<rparr>)"
    by (simp add: ref_client_def)
  then show ?thesis
    using kv_calls_deliver [OF ref_client_laws pools_ok_new ref_connection, of "[(''k'', ''v'')]" 3] by blast
qed

end
