(* ===== verification/Grpc_Services.thy ===== *)
theory Grpc_Services
  imports Clients_Props Raft_Metadata Openraft_Types
begin

section \<open>The gRPC services (src/placement-center/src/server/grpc)\<close>

text \<open>
  The handlers behind the generated servers: the key-value service of the raft-rs path
  (\<open>services_kv.rs\<close>) and of the openraft path (\<open>services_kv_new.rs\<close>), the transport of
  Raft messages (\<open>services_raft.rs\<close>) and of openraft's calls (\<open>services_openraft.rs\<close>), and
  the other end of the latter, \<open>openraft/network\<close>.  A handler that puts a message on the state
  machine's queue returns it beside its result; \<open>sx\<close> and \<open>rx\<close> are the two ends of the answer
  channel, as in \<^verbatim>\<open>Raft_Apply\<close>; \<open>sd\<close> renders a \<open>tonic::Status\<close>.
\<close>

definition null_parameter :: "(status \<Rightarrow> string) \<Rightarrow> string \<Rightarrow> status" where
  "null_parameter sd name = status_cancelled (error_string sd (ParameterCannotBeNull name))"

subsection \<open>services_kv.rs\<close>

text \<open>
  The state of the handlers: the network and pools of the client, and the message sent to the
  Raft machine, if any.
\<close>

definition forwarded ::
  "(status \<Rightarrow> string) \<Rightarrow> 's \<times> (robust_error + 'a) run \<Rightarrow> ('s \<times> 'q option) \<times> (status + 'a) run" where
  "forwarded sd m =
     (case m of
        (st, Panic p) \<Rightarrow> ((st, None), Panic p)
      | (st, Ret r) \<Rightarrow> ((st, None), Ret (map_err (\<lambda>e. status_cancelled (error_string sd e)) r)))"

definition proposed ::
  "(status \<Rightarrow> string) \<Rightarrow> 's \<Rightarrow> ('q \<times> (robust_error + unit)) run \<Rightarrow>
   ('s \<times> 'q option) \<times> (status + common_reply) run" where
  "proposed sd st m =
     (case m of
        Panic p \<Rightarrow> ((st, None), Panic p)
      | Ret (msg, Inr _) \<Rightarrow> ((st, Some msg), Ret (Inr CommonReply))
      | Ret (msg, Inl e) \<Rightarrow> ((st, Some msg), Ret (Inl (status_cancelled (error_string sd e)))))"

definition grpc_kv_set ::
  "(status \<Rightarrow> string) \<Rightarrow> ('w, 'k, 'o) client_env \<Rightarrow> route_codecs \<Rightarrow> raft_group_metadata \<Rightarrow> 'c \<Rightarrow> reply \<Rightarrow>
   set_request \<Rightarrow> 'w \<times> client_pool \<Rightarrow>
   (('w \<times> client_pool) \<times> ('m, 'cc, 'c) raft_message option) \<times> (status + common_reply) run" where
  "grpc_kv_set sd C W cluster sx rx req st =
     (if set_key req = [] \<or> set_value req = [] then
        ((st, None), Ret (Inl (null_parameter sd ''key or value'')))
      else if \<not> is_leader cluster then
        forwarded sd (placement_set C [leader_addr cluster] req st)
      else
        proposed sd st (apply_propose_message W
          (storage_data_new KvSet (pb_encode (pb_set_request W) req)) ''set'' sx rx))"

definition grpc_kv_delete ::
  "(status \<Rightarrow> string) \<Rightarrow> ('w, 'k, 'o) client_env \<Rightarrow> route_codecs \<Rightarrow> raft_group_metadata \<Rightarrow> 'c \<Rightarrow> reply \<Rightarrow>
   delete_request \<Rightarrow> 'w \<times> client_pool \<Rightarrow>
   (('w \<times> client_pool) \<times> ('m, 'cc, 'c) raft_message option) \<times> (status + common_reply) run" where
  "grpc_kv_delete sd C W cluster sx rx req st =
     (if del_key req = [] then ((st, None), Ret (Inl (null_parameter sd ''key'')))
      else if \<not> is_leader cluster then
        forwarded sd (placement_delete C [leader_addr cluster] req st)
      else
        proposed sd st (apply_propose_message W
          (storage_data_new KvDelete (pb_encode (pb_delete_request W) req)) ''delete'' sx rx))"

definition grpc_kv_get ::
  "(status \<Rightarrow> string) \<Rightarrow> 'db env \<Rightarrow> 'db \<Rightarrow> get_request \<Rightarrow> status + get_reply" where
  "grpc_kv_get sd E db req =
     (if getq_key req = [] then Inl (null_parameter sd ''key'')
      else (case kv_get E db (getq_key req) of
              Inr (Some d) \<Rightarrow> Inr \<lparr>getr_value = d\<rparr>
            | Inr None \<Rightarrow> Inr \<lparr>getr_value = []\<rparr>
            | Inl e \<Rightarrow> Inl (status_cancelled (error_string sd e))))"

definition grpc_kv_exists ::
  "(status \<Rightarrow> string) \<Rightarrow> 'db env \<Rightarrow> 'db \<Rightarrow> exists_request \<Rightarrow> status + exists_reply" where
  "grpc_kv_exists sd E db req =
     (if exq_key req = [] then Inl (null_parameter sd ''key'')
      else (case kv_exists E db (exq_key req) of
              Inr flag \<Rightarrow> Inr \<lparr>exr_flag = flag\<rparr>
            | Inl e \<Rightarrow> Inl (status_cancelled (error_string sd e))))"

subsection \<open>services_kv_new.rs\<close>

text \<open>\<open>client_write\<close> is \<open>openraft::Raft::client_write\<close> on a node of type \<open>'n\<close>.\<close>

definition grpc_kv_new_set ::
  "(status \<Rightarrow> string) \<Rightarrow> ('n \<Rightarrow> app_request_data \<Rightarrow> 'n \<times> (ext_error + 'r)) \<Rightarrow> 'n \<Rightarrow> set_request \<Rightarrow>
   'n \<times> (status + common_reply)" where
  "grpc_kv_new_set sd client_write n req =
     (if set_key req = [] \<or> set_value req = [] then (n, Inl (null_parameter sd ''key or value''))
      else (case client_write n (Set ''k1'' ''v1'') of
              (n', Inr _) \<Rightarrow> (n', Inr CommonReply)
            | (n', Inl e) \<Rightarrow> (n', Inl (status_cancelled (err_display e)))))"

definition grpc_kv_new_delete ::
  "(status \<Rightarrow> string) \<Rightarrow> ('n \<Rightarrow> app_request_data \<Rightarrow> 'n \<times> (ext_error + 'r)) \<Rightarrow> 'n \<Rightarrow> delete_request \<Rightarrow>
   'n \<times> (status + common_reply)" where
  "grpc_kv_new_delete sd client_write n req =
     (if del_key req = [] then (n, Inl (null_parameter sd ''key''))
      else (case client_write n (Delete ''k1'') of
              (n', Inr _) \<Rightarrow> (n', Inr CommonReply)
            | (n', Inl e) \<Rightarrow> (n', Inl (status_cancelled (err_display e)))))"

definition grpc_kv_new_get ::
  "(status \<Rightarrow> string) \<Rightarrow> 'db env \<Rightarrow> 'db \<Rightarrow> get_request \<Rightarrow> status + get_reply" where
  "grpc_kv_new_get sd E db req =
     (if getq_key req = [] then Inl (null_parameter sd ''key'')
      else (case kv_get E db (getq_key req) of
              Inr (Some d) \<Rightarrow> Inr \<lparr>getr_value = d\<rparr>
            | Inr None \<Rightarrow> Inr \<lparr>getr_value = []\<rparr>
            | Inl e \<Rightarrow> Inl (status_cancelled (error_string sd e))))"

definition grpc_kv_new_exists ::
  "(status \<Rightarrow> string) \<Rightarrow> 'db env \<Rightarrow> 'db \<Rightarrow> exists_request \<Rightarrow> status + exists_reply" where
  "grpc_kv_new_exists sd E db req =
     (if exq_key req = [] then Inl (null_parameter sd ''key'')
      else (case kv_exists E db (exq_key req) of
              Inr flag \<Rightarrow> Inr \<lparr>exr_flag = flag\<rparr>
            | Inl e \<Rightarrow> Inl (status_cancelled (error_string sd e))))"

subsection \<open>services_raft.rs\<close>

record send_raft_message_request =
  srm_message :: bytes

record send_raft_conf_change_request =
  srcc_message :: bytes

datatype send_raft_message_reply = SendRaftMessageReply
datatype send_raft_conf_change_reply = SendRaftConfChangeReply

text \<open>A bad message is refused before anything is sent; a timeout is reported as such, nested.\<close>

definition send_raft_message ::
  "(status \<Rightarrow> string) \<Rightarrow> 'm prost \<Rightarrow> 'c \<Rightarrow> reply \<Rightarrow> send_raft_message_request \<Rightarrow>
   ('m, 'cc, 'c) raft_message option \<times> (status + send_raft_message_reply)" where
  "send_raft_message sd P sx rx request =
     (case pb_decode P (srm_message request) of
        Inl e \<Rightarrow> (None, Inl (status_invalid_argument (err_display e)))
      | Inr message \<Rightarrow>
          (case apply_raft_message message ''send_raft_message'' sx rx of
             (msg, Inr _) \<Rightarrow> (Some msg, Inr SendRaftMessageReply)
           | (msg, Inl e) \<Rightarrow> (Some msg, Inl (status_cancelled
               (error_string sd (RaftLogCommitTimeout (error_string sd e)))))))"

definition send_raft_conf_change ::
  "(status \<Rightarrow> string) \<Rightarrow> 'cc prost \<Rightarrow> 'c \<Rightarrow> reply \<Rightarrow> send_raft_conf_change_request \<Rightarrow>
   ('m, 'cc, 'c) raft_message option \<times> (status + send_raft_conf_change_reply)" where
  "send_raft_conf_change sd P sx rx request =
     (case pb_decode P (srcc_message request) of
        Inl e \<Rightarrow> (None, Inl (status_invalid_argument (err_display e)))
      | Inr change \<Rightarrow>
          (case apply_conf_raft_message change ''send_conf_raft_message'' sx rx of
             (msg, Inr _) \<Rightarrow> (Some msg, Inr SendRaftConfChangeReply)
           | (msg, Inl e) \<Rightarrow> (Some msg, Inl (status_cancelled
               (error_string sd (RaftLogCommitTimeout (error_string sd e)))))))"

subsection \<open>services_openraft.rs\<close>

text \<open>
  One handler: \<open>f\<close> is the method of \<open>openraft::Raft\<close>, \<open>Q\<close> and \<open>R\<close> are bincode at its request
  and reply types; a request that does not deserialize is unwrapped.
\<close>

definition openraft_handle ::
  "'q bincode \<Rightarrow> 'r bincode \<Rightarrow> ('n \<Rightarrow> 'q \<Rightarrow> 'n \<times> (ext_error + 'r)) \<Rightarrow> 'n \<Rightarrow> bytes \<Rightarrow>
   'n \<times> (status + bytes) run" where
  "openraft_handle Q R f n req =
     (case bc_deserialize Q req of
        Inl _ \<Rightarrow> (n, Panic UnwrapErr)
      | Inr d \<Rightarrow>
          (case f n d of
             (n', Inl e) \<Rightarrow> (n', Ret (Inl (status_cancelled (err_display e))))
           | (n', Inr res) \<Rightarrow>
               (n', Ret (map_err (\<lambda>e. status_cancelled (err_display e)) (bc_serialize R res)))))"

definition map_reply :: "('a \<Rightarrow> 'b) \<Rightarrow> 'n \<times> (status + 'a) run \<Rightarrow> 'n \<times> (status + 'b) run" where
  "map_reply g m = bind_run m (\<lambda>n r. (n, Ret (map_sum id g r)))"

definition openraft_service_vote ::
  "'q bincode \<Rightarrow> 'r bincode \<Rightarrow> ('n \<Rightarrow> 'q \<Rightarrow> 'n \<times> (ext_error + 'r)) \<Rightarrow> 'n \<Rightarrow> vote_request \<Rightarrow>
   'n \<times> (status + vote_reply) run" where
  "openraft_service_vote Q R vote n req =
     map_reply (\<lambda>b. \<lparr>vr_value = b\<rparr>) (openraft_handle Q R vote n (vq_value req))"

definition openraft_service_append ::
  "'q bincode \<Rightarrow> 'r bincode \<Rightarrow> ('n \<Rightarrow> 'q \<Rightarrow> 'n \<times> (ext_error + 'r)) \<Rightarrow> 'n \<Rightarrow> append_request \<Rightarrow>
   'n \<times> (status + append_reply) run" where
  "openraft_service_append Q R append_entries n req =
     map_reply (\<lambda>b. \<lparr>ar_value = b\<rparr>) (openraft_handle Q R append_entries n (aq_value req))"

definition openraft_service_snapshot ::
  "'q bincode \<Rightarrow> 'r bincode \<Rightarrow> ('n \<Rightarrow> 'q \<Rightarrow> 'n \<times> (ext_error + 'r)) \<Rightarrow> 'n \<Rightarrow> snapshot_request \<Rightarrow>
   'n \<times> (status + snapshot_reply) run" where
  "openraft_service_snapshot Q R install_snapshot n req =
     map_reply (\<lambda>b. \<lparr>sr_value = b\<rparr>) (openraft_handle Q R install_snapshot n (sq_value req))"

subsection \<open>openraft/network, openraft/error.rs\<close>

datatype rpc_error = Unreachable robust_error

definition to_error :: "robust_error \<Rightarrow> rpc_error" where
  "to_error e = Unreachable e"

record network_connection =
  nc_addr :: string
  nc_target :: u64

record node =
  n_node_id :: u64
  n_rpc_addr :: string

definition connection_new :: "string \<Rightarrow> u64 \<Rightarrow> network_connection" where
  "connection_new addr target = \<lparr>nc_addr = addr, nc_target = target\<rparr>"

definition new_client :: "u64 \<Rightarrow> node \<Rightarrow> network_connection" where
  "new_client target nd = connection_new (n_rpc_addr nd) target"

definition connection_c ::
  "('w, 'k, 'o) client_env \<Rightarrow> network_connection \<Rightarrow> ('w \<times> client_pool, 'o) call" where
  "connection_c C nc = placement_center_openraft_services_client C (nc_addr nc)"

text \<open>
  One call: connection, \<open>serialize\<close>, stub, \<open>deserialize\<close>, every error turned into
  \<open>Unreachable\<close>.  \<open>call\<close> is the stub's method on the bytes of the message.
\<close>

definition network_call ::
  "(status \<Rightarrow> string) \<Rightarrow> ('w, 'k, 'o) client_env \<Rightarrow> network_connection \<Rightarrow> 'q bincode \<Rightarrow> 'r bincode \<Rightarrow>
   ('w \<Rightarrow> 'o \<Rightarrow> bytes \<Rightarrow> 'w \<times> (status + bytes)) \<Rightarrow> 'q \<Rightarrow> 'w \<times> client_pool \<Rightarrow>
   ('w \<times> client_pool) \<times> (rpc_error + 'r)" where
  "network_call sd C nc Q R call req st =
     (case connection_c C nc st of
        (st1, Inl e) \<Rightarrow> (st1, Inl (to_error e))
      | ((w1, cp1), Inr c) \<Rightarrow>
          (case bc_serialize Q req of
             Inl e \<Rightarrow> ((w1, cp1), Inl (to_error (CommmonError (err_display e))))
           | Inr v \<Rightarrow>
               (case call w1 c v of
                  (w2, Inl e) \<Rightarrow> ((w2, cp1), Inl (to_error (CommmonError (sd e))))
                | (w2, Inr reply) \<Rightarrow>
                    ((w2, cp1), map_err (\<lambda>e. to_error (CommmonError (err_display e)))
                       (bc_deserialize R reply)))))"

definition connection_append_entries ::
  "(status \<Rightarrow> string) \<Rightarrow> ('w, 'k, 'o) client_env \<Rightarrow> network_connection \<Rightarrow> 'q bincode \<Rightarrow> 'r bincode \<Rightarrow>
   'q \<Rightarrow> 'w \<times> client_pool \<Rightarrow> ('w \<times> client_pool) \<times> (rpc_error + 'r)" where
  "connection_append_entries sd C nc Q R =
     network_call sd C nc Q R (\<lambda>w c v. map_prod id (map_sum id ar_value) (ce_append C w c \<lparr>aq_value = v\<rparr>))"

definition connection_install_snapshot ::
  "(status \<Rightarrow> string) \<Rightarrow> ('w, 'k, 'o) client_env \<Rightarrow> network_connection \<Rightarrow> 'q bincode \<Rightarrow> 'r bincode \<Rightarrow>
   'q \<Rightarrow> 'w \<times> client_pool \<Rightarrow> ('w \<times> client_pool) \<times> (rpc_error + 'r)" where
  "connection_install_snapshot sd C nc Q R =
     network_call sd C nc Q R (\<lambda>w c v. map_prod id (map_sum id sr_value) (ce_snapshot C w c \<lparr>sq_value = v\<rparr>))"

definition connection_vote ::
  "(status \<Rightarrow> string) \<Rightarrow> ('w, 'k, 'o) client_env \<Rightarrow> network_connection \<Rightarrow> 'q bincode \<Rightarrow> 'r bincode \<Rightarrow>
   'q \<Rightarrow> 'w \<times> client_pool \<Rightarrow> ('w \<times> client_pool) \<times> (rpc_error + 'r)" where
  "connection_vote sd C nc Q R =
     network_call sd C nc Q R (\<lambda>w c v. map_prod id (map_sum id vr_value) (ce_vote C w c \<lparr>vq_value = v\<rparr>))"

end
