(* ===== verification/Grpc_Props.thy ===== *)
theory Grpc_Props
  imports Grpc_Services
begin

section \<open>What the services promise\<close>

text \<open>
  What a handler does with a request on every branch, and the paths that cross components: a
  write through the leader, a write through a follower, a read after writes, and an openraft
  call from one node to another.
\<close>

lemma is_ok_map_err [simp]: "is_ok (map_err f r) = is_ok r"
  by (cases r) simp_all

subsection \<open>Writes\<close>

text \<open>What a proposal carries: the envelope's bytes decode to its kind and payload.\<close>

lemma proposal_eq:
  assumes "bincode_laws (bc_storage_data W)"
  shows "apply_propose_message W d action sx rx = Ret (Propose (bc_bytes (bc_storage_data W) d) sx,
      if wait_recv_chan_resp rx then Inr () else Inl (RaftLogCommitTimeout action))"
  by (simp add: apply_propose_message_def bincode_serialize_eq [OF assms] apply_raft_status_machine_message_def)

text \<open>
  A write on the leader proposes exactly what was asked: the one message put on the queue is a
  proposal whose bytes decode to the kind of the write and a payload that decodes to the request
  itself; the caller is told \<open>Ok\<close> exactly when an answer came before the timeout.  No request
  is sent to any other node.
\<close>

lemma leader_proposes_request:
  assumes "bincode_laws (bc_storage_data W)" and "prost_laws (pb_set_request W)"
    and "prost_laws (pb_delete_request W)" and "is_leader cluster"
    and "set_key sreq \<noteq> []" and "set_value sreq \<noteq> []" and "del_key dreq \<noteq> []"
  shows "(\<exists>b v r. grpc_kv_set sd C W cluster sx rx sreq st = ((st, Some (Propose b sx)), Ret r) \<and>
      bc_deserialize (bc_storage_data W) b = Inr \<lparr>sd_data_type = KvSet, sd_value = v\<rparr> \<and>
      pb_decode (pb_set_request W) v = Inr sreq \<and> (is_ok r \<longleftrightarrow> wait_recv_chan_resp rx)) \<and>
    (\<exists>b v r. grpc_kv_delete sd C W cluster sx rx dreq st = ((st, Some (Propose b sx)), Ret r) \<and>
      bc_deserialize (bc_storage_data W) b = Inr \<lparr>sd_data_type = KvDelete, sd_value = v\<rparr> \<and>
      pb_decode (pb_delete_request W) v = Inr dreq \<and> (is_ok r \<longleftrightarrow> wait_recv_chan_resp rx))"
  using assms(2-)
  by (simp add: grpc_kv_set_def grpc_kv_delete_def proposed_def storage_data_new_def proposal_eq [OF assms(1)]
      bincode_roundtrip [OF assms(1)] prost_roundtrip)

definition ref_leader_meta :: raft_group_metadata where
  "ref_leader_meta = \<lparr>gm_local = broker_node_default, gm_leader = None, gm_state = Starting,
     gm_raft_role = Leader, gm_peers = []\<rparr>"

lemma ref_bincode_storage_data: "bincode_laws (bc_storage_data ref_codecs)"
  using ref_wire_formats by (simp add: wire_formats_def)

lemma leader_proposes_request_witness:
  "\<exists>b v r. grpc_kv_set status_message ref_client ref_codecs ref_leader_meta (7 :: nat) TimedOut
      \<lparr>set_key = ''k'', set_value = ''v''\<rparr> ([], client_pool_new 3) =
      ((([], client_pool_new 3), Some (Propose b 7) :: (unit, unit, nat) raft_message option), Ret r) \<and>
    pb_decode (pb_set_request ref_codecs) v = Inr \<lparr>set_key = ''k'', set_value = ''v''\<rparr> \<and> \<not> is_ok r"
  using conjunct1 [OF leader_proposes_request [OF ref_bincode_storage_data ref_request_laws, of ref_leader_meta
        "\<lparr>set_key = ''k'', set_value = ''v''\<rparr>" "\<lparr>del_key = ''k''\<rparr>" status_message ref_client 7 TimedOut
        "([], client_pool_new 3)"]]
  by (auto simp: is_leader_def ref_leader_meta_def wait_recv_chan_resp_def recv_value_def)

text \<open>
  A write on a follower is forwarded to the leader's address, which is empty for ever: when no
  connection can be made to it, the caller gets a \<open>Cancelled\<close> error after four attempts.
\<close>

lemma follower_write:
  assumes "metadata_reachable ts config cluster" and "\<not> is_leader cluster" and "pools_ok (snd st)"
    and "\<forall>w n. \<not> is_ok (snd (ce_kv_get C w \<lparr>pl_addr = [], pl_max_open = n\<rparr>))"
    and "set_key req \<noteq> []" and "set_value req \<noteq> []"
  shows "\<exists>st' tried slept m.
    retry_call C Kv Iface_Set [leader_addr cluster] (pb_encode (pc_set C) req) st = ((st', tried, slept), Ret (Inl m)) \<and>
    set tried = {[]} \<and> length tried = 4 \<and>
    grpc_kv_set sd C W cluster sx rx req st =
      ((st', None :: ('m, 'cc, 'c) raft_message option), Ret (Inl (status_cancelled (error_string sd m))))"
proof -
  have la: "leader_addr cluster = []" by (rule leader_addr_empty [OF assms(1)])
  let ?call = "\<lambda>addr. kv_interface_call C Iface_Set addr (pb_encode (pc_set C) req)"
  let ?good = "\<lambda>s. pools_ok (snd s)"
  have dead: "\<not> is_ok (snd (?call [] s))" if "?good s" for s
    by (rule kv_interface_call_no_connection [OF that]) (use assms(4) in blast)
  obtain st' tried slept r where r: "retry_loop ?call [[]] 1 st = ((st', tried, slept), Ret r)"
    "first_ok ?call (schedule [[]] 1) st = ((st', tried), r)" "prefix tried (schedule [[]] 1)"
    by (rule retry_loop_ends [of "[[]]"]) simp_all
  have sched: "schedule [[]] 1 = [[], [], [], []]" by (simp add: schedule_def upt_rec)
  have "\<not> is_ok r"
    using first_ok_dead [where good = ?good and call = ?call, OF kv_interface_call_pools_ok dead,
        of "schedule [[]] 1" st] assms(3) r(2) sched by simp
  moreover from this have "tried = [[], [], [], []]"
    using first_ok_tried [OF r(2)] sched by simp
  ultimately show ?thesis
    using r(1) assms(2,5,6)
    by (cases r) (auto simp: grpc_kv_set_def forwarded_def placement_set_def placement_call_def retry_call_def la
        simp del: retry_loop.simps)
qed

lemma ref_no_empty_address:
  "\<forall>w n. \<not> is_ok (snd (ce_kv_get ref_client w \<lparr>pl_addr = [], pl_max_open = n\<rparr>))"
  by (simp add: ref_client_def)

subsection \<open>Reads\<close>

text \<open>
  A read serves the last write: after any sequence of applied sets and deletes on keys outside
  the Raft namespace, a get answers the value of the last set on its key, and the empty string
  when the last command was a delete or there never was one.
\<close>

lemma grpc_get_serves_last_write:
  assumes "env_up E" and "kv_readable E db" and "user_cmds cs" and "kv_user_key k" and "k \<noteq> []"
  shows "grpc_kv_get sd E (kv_run E cs db) \<lparr>getq_key = k\<rparr> =
    Inr \<lparr>getr_value = (case (case last_value (map snd cs) k of None \<Rightarrow> kv_abs E db k | Some r \<Rightarrow> r) of
       None \<Rightarrow> [] | Some v \<Rightarrow> v)\<rparr>"
  using kv_get_of_run [OF assms(1-4)] assms(5) by (auto simp: grpc_kv_get_def split: option.split)

lemma grpc_get_serves_last_write_witness:
  "grpc_kv_get status_message ref_env (kv_run ref_env
     [(10, CmdSet ''k1'' ''a''), (11, CmdSet ''k2'' ''b''), (12, CmdDelete ''k1'')] []) \<lparr>getq_key = ''k2''\<rparr> =
   Inr \<lparr>getr_value = ''b''\<rparr>"
  by (subst grpc_get_serves_last_write) (simp_all add: ref_env_up)

subsection \<open>The openraft variant\<close>

text \<open>
  The key-value service of the openraft path ignores what it is asked to write: any two set
  requests with non-empty fields submit the same command, a set of \<open>k1\<close> to \<open>v1\<close>, and any two
  deletes the deletion of \<open>k1\<close>; its reads do not see that state machine at all but the RocksDB
  store of the raft-rs path.
\<close>

lemma new_service_ignores_request:
  assumes "set_key req \<noteq> []" and "set_value req \<noteq> []" and "del_key dreq \<noteq> []"
  shows "grpc_kv_new_set sd client_write n req =
      (let (n', r) = client_write n (Set ''k1'' ''v1'')
       in (n', map_err (\<lambda>e. status_cancelled (err_display e)) (map_sum id (\<lambda>_. CommonReply) r))) \<and>
    grpc_kv_new_delete sd client_write n dreq =
      (let (n', r) = client_write n (Delete ''k1'')
       in (n', map_err (\<lambda>e. status_cancelled (err_display e)) (map_sum id (\<lambda>_. CommonReply) r))) \<and>
    grpc_kv_new_get sd E db greq = grpc_kv_get sd E db greq"
  using assms
  by (auto simp: grpc_kv_new_set_def grpc_kv_new_delete_def grpc_kv_new_get_def grpc_kv_get_def
      split: prod.split sum.split)

lemma new_service_ignores_request_witness:
  "fst (grpc_kv_new_set status_message (\<lambda>n c. (n @ [c], Inr ())) [] \<lparr>set_key = ''name'', set_value = ''geek''\<rparr>) =
     [Set ''k1'' ''v1'']"
  using conjunct1 [OF new_service_ignores_request [of "\<lparr>set_key = ''name'', set_value = ''geek''\<rparr>" "\<lparr>del_key = ''name''\<rparr>"
        status_message "\<lambda>n c. (n @ [c], Inr ())" "[]"]]
  by simp

subsection \<open>Calls between openraft nodes\<close>

text \<open>
  What a network that runs the service on the other side does with the handler's outcome; a panic
  of the handler kills the call with some status.
\<close>

definition deliver :: "status \<Rightarrow> 'n \<times> (status + 'a) run \<Rightarrow> 'n \<times> (status + 'a)" where
  "deliver dead m = (case m of (n, Ret r) \<Rightarrow> (n, r) | (n, Panic p) \<Rightarrow> (n, Inl dead))"

lemma map_sum_ident [simp]: "map_sum (\<lambda>x. x) (\<lambda>x. x) x = x"
  by (cases x) simp_all

lemma openraft_handle_eq:
  assumes "bincode_laws Q" and "bincode_laws R"
  shows "openraft_handle Q R f n (bc_bytes Q d) =
    (let (n', r) = f n d
     in (n', Ret (map_err (\<lambda>e. status_cancelled (err_display e)) (map_sum id (bc_bytes R) r))))"
  by (simp add: openraft_handle_def bincode_roundtrip [OF assms(1)] bincode_serialize_eq [OF assms(2)]
      split: prod.split sum.split)

lemma strip_reply:
  "(\<And>b. g (h b) = b) \<Longrightarrow> map_prod (\<lambda>x. x) (map_sum (\<lambda>x. x) g) (deliver dead (map_reply h m)) = deliver dead m"
  by (cases m; cases "snd m") (auto simp: map_reply_def deliver_def sum.map_comp comp_def)

lemma network_call_eq:
  assumes "pools_ok cp" and "bincode_laws Q" and "bincode_laws R"
    and "ce_openraft_get C w \<lparr>pl_addr = nc_addr nc, pl_max_open = cp_max_open_connection cp\<rparr> = (w, Inr c)"
    and "call w c (bc_bytes Q req) = deliver dead (openraft_handle Q R f w (bc_bytes Q req))"
  shows "\<exists>cp'. pools_ok cp' \<and> network_call sd C nc Q R call req (w, cp) =
    (let (w', r) = f w req
     in ((w', cp'), map_err (\<lambda>e. Unreachable (CommmonError (sd (status_cancelled (err_display e))))) r))"
proof -
  obtain cp' where cp': "pools_ok cp'"
    "placement_center_openraft_services_client C (nc_addr nc) (w, cp) = ((w, cp'), Inr c)"
    using openraft_client_eq [OF assms(1), of "nc_addr nc"] assms(4) by (metis case_prod_conv map_err.simps(2))
  obtain w' r where fr: "f w req = (w', r)" by fastforce
  show ?thesis
    by (rule exI [of _ cp'], cases r)
      (simp_all add: cp'(1) network_call_def connection_c_def cp'(2) bincode_serialize_eq [OF assms(2)] assms(5) deliver_def
        openraft_handle_eq [OF assms(2,3)] to_error_def bincode_roundtrip [OF assms(3)] fr)
qed

text \<open>
  An openraft call to another node is transparent: when a connection can be had and the node on
  the other side runs the service, a vote, an append or a snapshot call has exactly the effect of
  the method on that node, and returns its response; an error of the method arrives as
  \<open>Unreachable\<close>, with the handler's status as its text.
\<close>

lemma rpc_transparent:
  assumes "pools_ok cp"
    and conn: "ce_openraft_get C w \<lparr>pl_addr = nc_addr nc, pl_max_open = cp_max_open_connection cp\<rparr> = (w, Inr c)"
    and laws: "bincode_laws Qv" "bincode_laws Rv" "bincode_laws Qa" "bincode_laws Ra" "bincode_laws Qs" "bincode_laws Rs"
    and vote: "\<And>r. ce_vote C w c r = deliver dead (openraft_service_vote Qv Rv vote w r)"
    and app: "\<And>r. ce_append C w c r = deliver dead (openraft_service_append Qa Ra append_entries w r)"
    and snap: "\<And>r. ce_snapshot C w c r = deliver dead (openraft_service_snapshot Qs Rs install w r)"
  shows "(\<exists>cp'. pools_ok cp' \<and> connection_vote sd C nc Qv Rv vreq (w, cp) =
      (let (w', r) = vote w vreq
       in ((w', cp'), map_err (\<lambda>e. Unreachable (CommmonError (sd (status_cancelled (err_display e))))) r))) \<and>
    (\<exists>cp'. pools_ok cp' \<and> connection_append_entries sd C nc Qa Ra areq (w, cp) =
      (let (w', r) = append_entries w areq
       in ((w', cp'), map_err (\<lambda>e. Unreachable (CommmonError (sd (status_cancelled (err_display e))))) r))) \<and>
    (\<exists>cp'. pools_ok cp' \<and> connection_install_snapshot sd C nc Qs Rs sreq (w, cp) =
      (let (w', r) = install w sreq
       in ((w', cp'), map_err (\<lambda>e. Unreachable (CommmonError (sd (status_cancelled (err_display e))))) r)))"
proof (intro conjI)
  show "\<exists>cp'. pools_ok cp' \<and> connection_vote sd C nc Qv Rv vreq (w, cp) =
      (let (w', r) = vote w vreq
       in ((w', cp'), map_err (\<lambda>e. Unreachable (CommmonError (sd (status_cancelled (err_display e))))) r))"
    unfolding connection_vote_def
    by (rule network_call_eq [OF assms(1) laws(1,2) conn, where dead = dead])
      (simp add: vote openraft_service_vote_def strip_reply id_def)
  show "\<exists>cp'. pools_ok cp' \<and> connection_append_entries sd C nc Qa Ra areq (w, cp) =
      (let (w', r) = append_entries w areq
       in ((w', cp'), map_err (\<lambda>e. Unreachable (CommmonError (sd (status_cancelled (err_display e))))) r))"
    unfolding connection_append_entries_def
    by (rule network_call_eq [OF assms(1) laws(3,4) conn, where dead = dead])
      (simp add: app openraft_service_append_def strip_reply id_def)
  show "\<exists>cp'. pools_ok cp' \<and> connection_install_snapshot sd C nc Qs Rs sreq (w, cp) =
      (let (w', r) = install w sreq
       in ((w', cp'), map_err (\<lambda>e. Unreachable (CommmonError (sd (status_cancelled (err_display e))))) r))"
    unfolding connection_install_snapshot_def
    by (rule network_call_eq [OF assms(1) laws(5,6) conn, where dead = dead])
      (simp add: snap openraft_service_snapshot_def strip_reply id_def)
qed

definition ref_echo :: "string bincode" where
  "ref_echo = ref_bincode fmt_string"

lemma ref_echo_laws [simp]: "bincode_laws ref_echo"
  by (simp add: ref_echo_def ref_bincode_laws)

text \<open>A node that answers votes, records appends and refuses snapshots.\<close>

definition ref_rpc :: "((string \<times> string) list, string, string) client_env" where
  "ref_rpc = ref_client
     \<lparr>ce_vote := (\<lambda>w c r. deliver (status_cancelled []) (openraft_service_vote ref_echo ref_echo (\<lambda>n q. (n, Inr q)) w r)),
      ce_append := (\<lambda>w c r. deliver (status_cancelled [])
        (openraft_service_append ref_echo ref_echo (\<lambda>n q. (n @ [(q, q)], Inr q)) w r)),
      ce_snapshot := (\<lambda>w c r. deliver (status_cancelled [])
        (openraft_service_snapshot ref_echo ref_echo (\<lambda>n q. (n, Inl parse_error :: ext_error + string)) w r))\<rparr>"

lemma rpc_transparent_witness:
  "\<exists>cp'. connection_append_entries status_message ref_rpc \<lparr>nc_addr = ''b:1'', nc_target = 2\<rparr> ref_echo ref_echo ''e'' ([], client_pool_new 3) =
     (([(''e'', ''e'')], cp'), Inr ''e'')"
proof -
  have conn: "ce_openraft_get ref_rpc [] \<lparr>pl_addr = nc_addr \<lparr>nc_addr = ''b:1'', nc_target = 2\<rparr>,
      pl_max_open = cp_max_open_connection (client_pool_new 3)\<rparr> = ([], Inr ''b:1'')"
    by (simp add: ref_rpc_def ref_client_def)
  have v: "ce_vote ref_rpc w c r = deliver (status_cancelled []) (openraft_service_vote ref_echo ref_echo (\<lambda>n q. (n, Inr q)) w r)"
    and a: "ce_append ref_rpc w c r' = deliver (status_cancelled [])
      (openraft_service_append ref_echo ref_echo (\<lambda>n q. (n @ [(q, q)], Inr q)) w r')"
    and s: "ce_snapshot ref_rpc w c r'' = deliver (status_cancelled [])
      (openraft_service_snapshot ref_echo ref_echo (\<lambda>n q. (n, Inl parse_error :: ext_error + string)) w r'')" for w c r r' r''
    by (simp_all add: ref_rpc_def)
  show ?thesis
    using rpc_transparent [OF pools_ok_new conn ref_echo_laws ref_echo_laws ref_echo_laws ref_echo_laws
        ref_echo_laws ref_echo_laws v a s, of status_message "''v''" "''e''" "''s''"] by auto
qed

text \<open>
  The transport of the raft-rs path: a message that the sender encodes is the message put on the
  receiver's queue, and bytes that are no message put nothing on it.
\<close>

lemma raft_message_survives_transport:
  "prost_laws P \<Longrightarrow>
     \<exists>r. send_raft_message sd P sx rx \<lparr>srm_message = pb_encode P m\<rparr> = (Some (Raft m sx), r) \<and>
       (is_ok r \<longleftrightarrow> wait_recv_chan_resp rx)"
  by (simp add: send_raft_message_def prost_roundtrip apply_raft_message_def apply_raft_status_machine_message_def)

lemma bad_raft_message_refused:
  "pb_decode P b = Inl e \<Longrightarrow>
     send_raft_message sd P sx rx \<lparr>srm_message = b\<rparr> = (None, Inl (status_invalid_argument (err_display e)))"
  by (simp add: send_raft_message_def)

text \<open>An openraft request that does not deserialize kills the handler.\<close>

lemma bad_openraft_request_panics:
  "bc_deserialize Q b = Inl e \<Longrightarrow> openraft_service_vote Q R vote n \<lparr>vq_value = b\<rparr> = (n, Panic UnwrapErr)"
  by (simp add: openraft_service_vote_def openraft_handle_def map_reply_def)

end
