(* ===== verification/Openraft_Node.thy ===== *)
theory Openraft_Node
  imports State_Machine_Props Grpc_Services
begin

section \<open>Starting an openraft node, and its HTTP interface\<close>

text \<open>
  \<open>src/placement-center/src/openraft/raft_node.rs\<close> and \<open>src/placement-center/src/server/http\<close>.
  The node itself, a value of type \<open>'n\<close>, and openraft's methods on it are arguments.  The map
  behind the HTTP state is the cell that the state machine store writes: \<open>create_raft_node\<close>
  clones the handle before it gives the store away.
\<close>

subsection \<open>raft_node.rs\<close>

definition node_display :: "node \<Rightarrow> string" where
  "node_display nd =
     ''Node { rpc_addr: '' @ n_rpc_addr nd @ '', node_id: '' @ show_u64 (n_node_id nd) @ '' }''"

type_synonym node_map = "(u64, node) fmap"

definition calc_init_node :: "node_map \<Rightarrow> u64 run" where
  "calc_init_node nodes =
     (case sort (sorted_list_of_fset (fmdom nodes)) of [] \<Rightarrow> Panic UnwrapNone | i # _ \<Rightarrow> Ret i)"

text \<open>The loop over \<open>conf.nodes\<close>; \<open>ts\<close> is \<open>toml::Value::to_string\<close>, whose quotes are removed.\<close>

fun nodes_of :: "(toml_value \<Rightarrow> string) \<Rightarrow> (string \<times> toml_value) list \<Rightarrow> node_map \<Rightarrow> node_map run" where
  "nodes_of ts [] nodes = Ret nodes"
| "nodes_of ts ((node_id, addr) # rest) nodes =
     (case parse_u64 node_id of
        None \<Rightarrow> Panic UnwrapErr
      | Some i \<Rightarrow>
          nodes_of ts rest
            (fmupd i \<lparr>n_node_id = i, n_rpc_addr = str_replace [CHR 34] [] (ts addr)\<rparr> nodes))"

record 'n raft_handle =
  rh_is_initialized :: "'n \<Rightarrow> ext_error + bool"
  rh_initialize :: "'n \<Rightarrow> node_map \<Rightarrow> 'n \<times> (ext_error + unit)"

definition start_openraft_node ::
  "(toml_value \<Rightarrow> string) \<Rightarrow> placement_config option \<Rightarrow> 'n raft_handle \<Rightarrow> 'n \<Rightarrow> 'n \<times> unit run" where
  "start_openraft_node ts lock H n =
     (case placement_center_conf lock of
        Panic p \<Rightarrow> (n, Panic p)
      | Ret conf \<Rightarrow>
          (case nodes_of ts (pc_nodes conf) fmempty of
             Panic p \<Rightarrow> (n, Panic p)
           | Ret nodes \<Rightarrow>
               (case calc_init_node nodes of
                  Panic p \<Rightarrow> (n, Panic p)
                | Ret init_node_id \<Rightarrow>
                    (if init_node_id = pc_node_id conf then
                       (case rh_is_initialized H n of
                          Inl _ \<Rightarrow> (n, Panic ExplicitPanic)
                        | Inr flag \<Rightarrow>
                            (if \<not> flag then
                               (case rh_initialize H n nodes of
                                  (n', Inr _) \<Rightarrow> (n', Ret ())
                                | (n', Inl _) \<Rightarrow> (n', Panic ExplicitPanic))
                             else (n, Ret ())))
                     else (n, Ret ())))))"

record openraft_config =
  oc_heartbeat_interval :: u64
  oc_election_timeout_min :: u64

text \<open>
  \<open>validate\<close> is \<open>openraft::Config::validate\<close> on these two settings and the defaults for the
  rest; \<open>raft_new\<close> is \<open>openraft::Raft::new\<close>.  The result is the node, the world, the store
  and the cell of the map that the HTTP server gets.
\<close>

definition create_raft_node ::
  "('db, 'l, 'v, 'mem) oenv \<Rightarrow> 'mem \<Rightarrow> (string \<Rightarrow> string list \<Rightarrow> ext_error + 'db) \<Rightarrow>
   (openraft_config \<Rightarrow> ext_error + 'oc) \<Rightarrow> (u64 \<Rightarrow> 'oc \<Rightarrow> ext_error + 'n) \<Rightarrow> placement_config option \<Rightarrow>
   ('n \<times> ('db sm_world \<times> ('l, 'mem) state_machine_store) \<times> nat) run" where
  "create_raft_node X default_mem opened validate raft_new lock =
     (case validate \<lparr>oc_heartbeat_interval = 250, oc_election_timeout_min = 299\<rparr> of
        Inl _ \<Rightarrow> Panic UnwrapErr
      | Inr config \<Rightarrow>
          (case placement_center_conf lock of
             Panic p \<Rightarrow> Panic p
           | Ret conf \<Rightarrow>
               (case new_storage X default_mem opened (pc_data_path conf @ ''/_engine_storage'') of
                  Panic p \<Rightarrow> Panic p
                | Ret (w, sm) \<Rightarrow>
                    (let kvs = kvs_cell (sm_data sm) in
                     case raft_new (pc_node_id conf) config of
                       Inl _ \<Rightarrow> Panic UnwrapErr
                     | Inr raft \<Rightarrow> Ret (raft, (w, sm), kvs)))))"

subsection \<open>server/http/mod.rs\<close>

definition v1_path :: "string \<Rightarrow> string" where
  "v1_path path = ''/v1'' @ path"

definition path_create :: "string \<Rightarrow> string" where
  "path_create path = path @ ''/create''"

definition path_update :: "string \<Rightarrow> string" where
  "path_update path = path @ ''/update''"

definition path_delete :: "string \<Rightarrow> string" where
  "path_delete path = path @ ''/delete''"

definition path_list :: "string \<Rightarrow> string" where
  "path_list path = path @ ''/list''"

subsection \<open>server/http/index.rs, openraft.rs\<close>

text \<open>
  A handler's reply is the JSON text of its envelope; \<open>jd\<close> and \<open>je\<close> serialize an envelope with
  data and with an error.
\<close>

type_synonym 'd json_of = "'d http_response \<Rightarrow> ext_error + string"

definition http_index :: "string json_of \<Rightarrow> string run" where
  "http_index jd = success_response jd ''{}''"

definition respond :: "'d json_of \<Rightarrow> string json_of \<Rightarrow> 'n \<times> (ext_error + 'd) \<Rightarrow> 'n \<times> string run" where
  "respond jd je m =
     (case m of
        (n, Inr d) \<Rightarrow> (n, success_response jd d)
      | (n, Inl e) \<Rightarrow> (n, error_response je (err_display e)))"

definition http_add_leadrner ::
  "'d json_of \<Rightarrow> string json_of \<Rightarrow> ('n \<Rightarrow> u64 \<Rightarrow> node \<Rightarrow> bool \<Rightarrow> 'n \<times> (ext_error + 'd)) \<Rightarrow> 'n \<Rightarrow> 'n \<times> string run" where
  "http_add_leadrner jd je add_learner n =
     respond jd je (add_learner n 3 \<lparr>n_node_id = 2, n_rpc_addr = ''127.0.0.0:7654''\<rparr> True)"

definition http_change_membership ::
  "'d json_of \<Rightarrow> string json_of \<Rightarrow> ('n \<Rightarrow> u64 set \<Rightarrow> bool \<Rightarrow> 'n \<times> (ext_error + 'd)) \<Rightarrow> 'n \<Rightarrow> 'n \<times> string run" where
  "http_change_membership jd je change_membership n = respond jd je (change_membership n {3} True)"

definition http_init ::
  "'d json_of \<Rightarrow> string json_of \<Rightarrow> ('n \<Rightarrow> node_map \<Rightarrow> 'n \<times> (ext_error + 'd)) \<Rightarrow> 'n \<Rightarrow> 'n \<times> string run" where
  "http_init jd je initialize n =
     respond jd je (initialize n (fmupd 3 \<lparr>n_node_id = 2, n_rpc_addr = ''127.0.0.0:7654''\<rparr> fmempty))"

definition http_metrics :: "('m + 'd) json_of \<Rightarrow> ('n \<Rightarrow> 'd) \<Rightarrow> 'n \<Rightarrow> string run" where
  "http_metrics jd metrics n = success_response jd (Inr (metrics n))"

definition http_set ::
  "'d json_of \<Rightarrow> string json_of \<Rightarrow> ('n \<Rightarrow> app_request_data \<Rightarrow> 'n \<times> (ext_error + 'd)) \<Rightarrow> 'n \<Rightarrow> 'n \<times> string run" where
  "http_set jd je client_write n = respond jd je (client_write n (Set ''k1'' ''v1''))"

text \<open>\<open>kvs\<close> is the cell of the shared map.\<close>

definition http_kv_get :: "string option json_of \<Rightarrow> 'db sm_world \<Rightarrow> nat \<Rightarrow> string run" where
  "http_kv_get jd w kvs = success_response jd (fmlookup (w_cells w ! kvs) ''k1'')"

subsection \<open>server/http/server.rs\<close>

datatype http_method = GET | POST

datatype handler = Index | AddLearner | ChangeMembership | Init | Metrics | SetKey | GetKey

abbreviation ROUTE_ROOT :: string where "ROUTE_ROOT \<equiv> ''/index''"
abbreviation ROUTE_ADD_LEARNER :: string where "ROUTE_ADD_LEARNER \<equiv> ''/add-learner''"
abbreviation ROUTE_CHANGE_MEMBERSHIP :: string where "ROUTE_CHANGE_MEMBERSHIP \<equiv> ''/change-membership''"
abbreviation ROUTE_INIT :: string where "ROUTE_INIT \<equiv> ''/init''"
abbreviation ROUTE_METRICS :: string where "ROUTE_METRICS \<equiv> ''/metrics''"
abbreviation ROUTE_SET :: string where "ROUTE_SET \<equiv> ''/set''"
abbreviation ROUTE_GET :: string where "ROUTE_GET \<equiv> ''/get''"

definition routes :: "((string \<times> http_method) \<times> handler) list" where
  "routes =
     [((v1_path (path_list ROUTE_ROOT), GET), Index),
      ((v1_path ROUTE_ADD_LEARNER, POST), AddLearner),
      ((v1_path ROUTE_CHANGE_MEMBERSHIP, POST), ChangeMembership),
      ((v1_path ROUTE_INIT, POST), Init),
      ((v1_path ROUTE_METRICS, GET), Metrics),
      ((v1_path ROUTE_SET, GET), SetKey),
      ((v1_path ROUTE_GET, GET), GetKey)]"

text \<open>The paths are distinct, so registering them does not panic, and every handler is reached.\<close>

lemma routes_distinct: "distinct (map (fst \<circ> fst) routes)" "distinct (map snd routes)"
  by (simp_all add: routes_def v1_path_def path_list_def)

lemma every_handler_routed: "\<exists>p m. map_of routes (p, m) = Some h"
proof -
  have "h \<in> set (map snd routes)" by (cases h) (simp_all add: routes_def)
  then obtain p m where "((p, m), h) \<in> set routes" by auto
  moreover have "distinct (map fst routes)" by (simp add: routes_def v1_path_def path_list_def)
  ultimately show ?thesis by (metis map_of_is_SomeI)
qed

subsection \<open>One node initializes the cluster\<close>

lemma calc_init_node_Min:
  "calc_init_node nodes = (if fmdom' nodes = {} then Panic UnwrapNone else Ret (Min (fmdom' nodes)))"
proof -
  let ?ks = "sorted_list_of_fset (fmdom nodes)"
  have ks: "sorted ?ks" "set ?ks = fmdom' nodes"
    by (simp_all add: sorted_list_of_fset.rep_eq fmdom'_alt_def)
  have sort: "sort ?ks = ?ks" using ks(1) by (rule sorted_sort_id)
  show ?thesis
  proof (cases ?ks)
    case Nil
    then show ?thesis using ks(2) sort by (simp add: calc_init_node_def)
  next
    case (Cons x xs)
    have "Min (fmdom' nodes) = x"
      using ks unfolding Cons by (intro Min_eqI) auto
    moreover have "fmdom' nodes \<noteq> {}" using ks(2) Cons by auto
    ultimately show ?thesis using sort Cons by (simp add: calc_init_node_def)
  qed
qed

text \<open>
  C19: Bootstrapping is done by one node: of all nodes started with the same node table, only the one
  whose id is the least of the table ever initializes the cluster, only when openraft says it is
  not initialized, and then with the whole table; starting any other node, or the same node
  again, leaves openraft alone.
\<close>

theorem one_node_initializes:
  assumes "nodes_of ts (pc_nodes conf) fmempty = Ret nodes" and "fmdom' nodes \<noteq> {}"
  shows "start_openraft_node ts (Some conf) H n =
    (if pc_node_id conf = Min (fmdom' nodes) then
       (case rh_is_initialized H n of
          Inl _ \<Rightarrow> (n, Panic ExplicitPanic)
        | Inr True \<Rightarrow> (n, Ret ())
        | Inr False \<Rightarrow> map_prod id (\<lambda>r. if is_ok r then Ret () else Panic ExplicitPanic) (rh_initialize H n nodes))
     else (n, Ret ())) \<and>
    (\<forall>conf' n'. pc_nodes conf' = pc_nodes conf \<and> fst (start_openraft_node ts (Some conf) H n) \<noteq> n \<and>
       fst (start_openraft_node ts (Some conf') H n') \<noteq> n' \<longrightarrow> pc_node_id conf' = pc_node_id conf)"
proof -
  have start: "start_openraft_node ts (Some c) H m =
    (if pc_node_id c = Min (fmdom' nodes) then
       (case rh_is_initialized H m of
          Inl _ \<Rightarrow> (m, Panic ExplicitPanic)
        | Inr True \<Rightarrow> (m, Ret ())
        | Inr False \<Rightarrow> map_prod id (\<lambda>r. if is_ok r then Ret () else Panic ExplicitPanic) (rh_initialize H m nodes))
     else (m, Ret ()))" if "pc_nodes c = pc_nodes conf" for c m
    using assms that
    by (auto simp: start_openraft_node_def placement_center_conf_def calc_init_node_Min
        split: sum.split prod.split bool.split)
  show ?thesis using start [of conf n] start by (auto split: if_splits)
qed

definition ref_nodes :: node_map where
  "ref_nodes = fmupd 1 \<lparr>n_node_id = 1, n_rpc_addr = ''127.0.0.1:1228''\<rparr> fmempty"

lemma ref_nodes_of: "nodes_of quoted (pc_nodes ref_config) fmempty = Ret ref_nodes"
  by (simp add: ref_config_def ref_nodes_def parse_u64_def char_digit_def)

text \<open>A node that counts its initializations.\<close>

definition ref_handle :: "nat raft_handle" where
  "ref_handle = \<lparr>rh_is_initialized = (\<lambda>n. Inr (0 < n)), rh_initialize = (\<lambda>n m. (n + 1, Inr ()))\<rparr>"

lemma one_node_initializes_witness:
  "start_openraft_node quoted (Some ref_config) ref_handle 0 = (1, Ret ()) \<and>
   start_openraft_node quoted (Some ref_config) ref_handle 1 = (1, Ret ())"
proof -
  have ne: "fmdom' ref_nodes \<noteq> {}" by (simp add: ref_nodes_def)
  have id: "pc_node_id ref_config = Min (fmdom' ref_nodes)" by (simp add: ref_nodes_def ref_config_def)
  note I = one_node_initializes [OF ref_nodes_of ne, of ref_handle]
  show ?thesis
    using conjunct1 [OF I, of 0] conjunct1 [OF I, of 1] id by (simp add: ref_handle_def)
qed

subsection \<open>The HTTP server reads the live map\<close>

lemma sm_new_live: "sm_new X dm w = (w', Inr sm) \<Longrightarrow> sm_live (w', sm)"
  by (auto simp: sm_new_def Let_def update_state_machine_def sm_live_def write_kvs_def
      split: sum.splits option.splits)

text \<open>
  The map behind \<open>/get\<close> is the state machine's own: on a node that was just created, whatever
  entries openraft applies afterwards, the handler answers the value of the last command on
  \<open>k1\<close> among them, or what the snapshot loaded at the start held.
\<close>

lemma http_get_sees_applied:
  assumes "create_raft_node X dm opened validate raft_new lock = Ret (raft, (w, sm), kvs)"
  shows "\<exists>st'. sm_apply (w, sm) es = (st', Inr (map entry_reply es)) \<and>
    http_kv_get jd (fst st') kvs = success_response jd
      (case last_value (entry_cmds es) ''k1'' of None \<Rightarrow> fmlookup (read_kvs w sm) ''k1'' | Some r \<Rightarrow> r)"
proof -
  have kvs: "kvs = kvs_cell (sm_data sm)" and live: "sm_live (w, sm)"
    using assms
    by (auto simp: create_raft_node_def new_storage_def Let_def intro: sm_new_live
        split: sum.splits run.splits prod.splits)
  obtain st' where st': "sm_apply (w, sm) es = (st', Inr (map entry_reply es))"
    "sm_map st' = spec_run (entry_cmds es) (sm_map (w, sm))"
    "kvs_cell (sm_data (snd st')) = kvs_cell (sm_data (snd (w, sm)))"
    by (rule sm_apply_obtain [OF live, of es])
  have "fmlookup (w_cells (fst st') ! kvs) ''k1'' = sm_map st' ''k1''"
    using st'(3) by (simp add: sm_map_def read_kvs_def kvs)
  moreover have m: "sm_map (w, sm) ''k1'' = fmlookup (read_kvs w sm) ''k1''" by (simp add: sm_map_def)
  ultimately have "http_kv_get jd (fst st') kvs = success_response jd
      (case last_value (entry_cmds es) ''k1'' of None \<Rightarrow> fmlookup (read_kvs w sm) ''k1'' | Some r \<Rightarrow> r)"
    using m by (simp add: http_kv_get_def st'(2) spec_run_last_value cong: option.case_cong)
  with st'(1) show ?thesis by blast
qed

lemma ref_create_raft_node:
  "\<exists>r. create_raft_node ref_oenv 0 (\<lambda>p cfs. Inr []) Inr (\<lambda>i c. Inr ()) (Some ref_config) = Ret r"
proof -
  have "stored_current_snapshot ref_oenv [] = Inr None"
    by (simp add: stored_current_snapshot_def get_stored_def oref.get_eq) (simp add: ref_oenv_def)
  then show ?thesis
    by (simp add: create_raft_node_def new_storage_def sm_new_def placement_center_conf_def Let_def)
qed

lemma http_get_sees_applied_witness:
  "\<exists>raft w sm kvs st'. create_raft_node ref_oenv 0 (\<lambda>p cfs. Inr []) Inr (\<lambda>i c. Inr ()) (Some ref_config) =
      Ret (raft, (w, sm), kvs) \<and>
    sm_apply (w, sm) [ref_oentry 1 (Normal (Set ''k1'' ''v1''))] =
      (st', Inr [\<lparr>rsp_value = Some ''v1''\<rparr>]) \<and>
    http_kv_get (\<lambda>r. Inr (the (resp_data r))) (fst st') kvs = Ret ''v1''"
proof -
  obtain raft w sm kvs where "create_raft_node ref_oenv 0 (\<lambda>p cfs. Inr []) Inr (\<lambda>i c. Inr ()) (Some ref_config) =
      Ret (raft, (w, sm), kvs)"
    using ref_create_raft_node by auto
  from http_get_sees_applied [OF this, of "[ref_oentry 1 (Normal (Set ''k1'' ''v1''))]" "\<lambda>r. Inr (the (resp_data r))"] this
  show ?thesis by (auto simp: ref_oentry_def entry_reply_def success_response_def)
qed

end
