(* ===== verification/Server.thy ===== *)
theory Server
  imports Grpc_Props Openraft_Node Raft_Machine
begin

section \<open>Starting the server (src/placement-center/src/lib.rs)\<close>

text \<open>
  \<open>start_server\<close> builds the components and hands them to each other; the tasks it spawns are the
  gRPC server, \<open>start_openraft_node\<close> and the HTTP server.  The Raft machine is built but its
  \<open>run\<close> is commented out, so it has no part in the running system.
\<close>

subsection \<open>RocksDBEngine::new (storage/rocksdb.rs)\<close>

text \<open>The settings of \<open>open_db_opts\<close>, in the order in which they are made; sizes are in bytes.\<close>

datatype db_option =
    CreateIfMissing bool
  | CreateMissingColumnFamilies bool
  | MaxOpenFiles nat
  | UseFsync bool
  | BytesPerSync nat
  | OptimizeForPointLookup nat
  | TableCacheNumShardBits nat
  | MaxWriteBufferNumber nat
  | WriteBufferSize nat
  | TargetFileSizeBase nat
  | MinWriteBufferNumberToMerge nat
  | LevelZeroStopWritesTrigger nat
  | LevelZeroSlowdownWritesTrigger nat
  | CompactionStyleUniversal
  | DisableAutoCompactions bool
  | PrefixExtractorFixed nat
  | MemtablePrefixBloomRatio "nat \<times> nat"

definition open_db_opts :: "db_option list" where
  "open_db_opts =
     [CreateIfMissing True, CreateMissingColumnFamilies True, MaxOpenFiles 1000, UseFsync False,
      BytesPerSync 8388608, OptimizeForPointLookup 1024, TableCacheNumShardBits 6,
      MaxWriteBufferNumber 32, WriteBufferSize 536870912, TargetFileSizeBase 1073741824,
      MinWriteBufferNumberToMerge 4, LevelZeroStopWritesTrigger 2000, LevelZeroSlowdownWritesTrigger 0,
      CompactionStyleUniversal, DisableAutoCompactions True, PrefixExtractorFixed 10,
      MemtablePrefixBloomRatio (2, 10)]"

text \<open>The calls that open a database with options, on a disk of type \<open>'k\<close>.\<close>

record ('k, 'db) rocks_open =
  ro_exists :: "'k \<Rightarrow> string \<Rightarrow> bool"
  ro_open :: "'k \<Rightarrow> db_option list \<Rightarrow> string \<Rightarrow> 'k \<times> (ext_error + unit)"
  ro_list_cf :: "'k \<Rightarrow> db_option list \<Rightarrow> string \<Rightarrow> ext_error + string list"
  ro_open_cf :: "'k \<Rightarrow> db_option list \<Rightarrow> string \<Rightarrow> string list \<Rightarrow> 'k \<times> (ext_error + 'db)"
  ro_create_cf :: "'db \<Rightarrow> string \<Rightarrow> db_option list \<Rightarrow> 'db \<times> (ext_error + unit)"

text \<open>The loop that creates the missing families.\<close>

fun create_missing ::
  "('k, 'db) rocks_open \<Rightarrow> string list \<Rightarrow> string list \<Rightarrow> 'db \<Rightarrow> 'db run" where
  "create_missing D cf_list [] inst = Ret inst"
| "create_missing D cf_list (family # rest) inst =
     (if family \<notin> set cf_list then
        (case ro_create_cf D inst family open_db_opts of
           (inst', Inr _) \<Rightarrow> create_missing D cf_list rest inst'
         | (inst', Inl _) \<Rightarrow> Panic ExplicitPanic)
      else create_missing D cf_list rest inst)"

definition rocksdb_engine_new ::
  "('k, 'db) rocks_open \<Rightarrow> placement_config \<Rightarrow> 'k \<Rightarrow> 'k \<times> 'db run" where
  "rocksdb_engine_new D config disk =
     (let opts = open_db_opts; db_path = pc_data_path config @ ''/'' @ ''_storage_rocksdb'' in
      bind_run
        (if \<not> ro_exists D disk db_path then
           (case ro_open D disk opts db_path of (k, r) \<Rightarrow> (k, unwrap_res r))
         else (disk, Ret ()))
        (\<lambda>k1 _.
          (case ro_list_cf D k1 opts db_path of
             Inl _ \<Rightarrow> (k1, Panic UnwrapErr)
           | Inr cf_list \<Rightarrow>
               (case ro_open_cf D k1 opts db_path cf_list of
                  (k2, Inl _) \<Rightarrow> (k2, Panic UnwrapErr)
                | (k2, Inr inst) \<Rightarrow> (k2, create_missing D cf_list column_family_list inst)))))"

lemma create_missing_none:
  "set fs \<subseteq> set cf_list \<Longrightarrow> create_missing D cf_list fs inst = Ret inst"
  by (induction fs) auto

text \<open>A database that has the family is opened as it is; otherwise the family is created.\<close>

lemma rocksdb_engine_new_existing:
  assumes "ro_exists D k (pc_data_path config @ ''/_storage_rocksdb'')"
    and "ro_list_cf D k open_db_opts (pc_data_path config @ ''/_storage_rocksdb'') = Inr cfs"
    and "ro_open_cf D k open_db_opts (pc_data_path config @ ''/_storage_rocksdb'') cfs = (k', Inr db)"
  shows "rocksdb_engine_new D config k =
    (k', if DB_COLUMN_FAMILY_CLUSTER \<in> set cfs then Ret db
         else (case ro_create_cf D db DB_COLUMN_FAMILY_CLUSTER open_db_opts of
                 (db', Inr _) \<Rightarrow> Ret db' | (_, Inl _) \<Rightarrow> Panic ExplicitPanic))"
  using assms by (simp add: rocksdb_engine_new_def column_family_list_def split: prod.split sum.split)

subsection \<open>start_server\<close>

record ('k, 'db, 'l, 'mem, 'n) server =
  sv_cluster :: raft_group_metadata
  sv_store :: "'db raft_store"
  sv_client_pool :: client_pool
  sv_openraft :: 'n
  sv_world :: "'db sm_world \<times> ('l, 'mem) state_machine_store"
  sv_kvs :: nat

definition start_server ::
  "(toml_value \<Rightarrow> string) \<Rightarrow> ('k, 'db) rocks_open \<Rightarrow> 'db env \<Rightarrow> ('db, 'l, 'v, 'mem) oenv \<Rightarrow> 'mem \<Rightarrow>
   (string \<Rightarrow> string list \<Rightarrow> ext_error + 'db) \<Rightarrow> (openraft_config \<Rightarrow> ext_error + 'oc) \<Rightarrow>
   (u64 \<Rightarrow> 'oc \<Rightarrow> ext_error + 'n) \<Rightarrow> placement_config option \<Rightarrow> 'k \<Rightarrow>
   'k \<times> ('k, 'db, 'l, 'mem, 'n) server run" where
  "start_server ts D E X default_mem opened validate raft_new lock disk =
     (case placement_center_conf lock of
        Panic p \<Rightarrow> (disk, Panic p)
      | Ret config \<Rightarrow>
          (case raft_group_metadata_new ts lock of
             Panic p \<Rightarrow> (disk, Panic p)
           | Ret placement_cache \<Rightarrow>
               bind_run (rocksdb_engine_new D config disk) (\<lambda>k db.
                 (case raft_store_new E db of
                    Panic p \<Rightarrow> (k, Panic p)
                  | Ret store \<Rightarrow>
                      (case create_raft_node X default_mem opened validate raft_new lock of
                         Panic p \<Rightarrow> (k, Panic p)
                       | Ret (openraft_node, world, kvs) \<Rightarrow>
                           (k, Ret \<lparr>sv_cluster = placement_cache, sv_store = store,
                                    sv_client_pool = client_pool_new 3, sv_openraft = openraft_node,
                                    sv_world = world, sv_kvs = kvs\<rparr>))))))"

text \<open>What the HTTP handlers share: the openraft node and the cell of the key-value map.\<close>

record 'n http_server_state =
  hs_raft_node :: 'n
  hs_kvs :: nat

definition http_server_state_new :: "'n \<Rightarrow> nat \<Rightarrow> 'n http_server_state" where
  "http_server_state_new raft_node kvs = \<lparr>hs_raft_node = raft_node, hs_kvs = kvs\<rparr>"

text \<open>
  What \<open>start_server\<close> spawns, with what it hands to each task: the gRPC server, the openraft node's
  initialization and the HTTP server.  No task runs the Raft machine.
\<close>

datatype 'n task =
    TaskGrpcServer client_pool 'n raft_group_metadata
  | TaskOpenraftNode 'n
  | TaskHttpServer "'n http_server_state"

definition spawned_tasks :: "('k, 'db, 'l, 'mem, 'n) server \<Rightarrow> 'n task list" where
  "spawned_tasks sv =
     [TaskGrpcServer (sv_client_pool sv) (sv_openraft sv) (sv_cluster sv),
      TaskOpenraftNode (sv_openraft sv),
      TaskHttpServer (http_server_state_new (sv_openraft sv) (sv_kvs sv))]"

text \<open>
  As started, the node believes for ever that it follows an unknown leader: nothing but the
  machine's loop changes the role, and no write through the key-value service can succeed.
\<close>

lemma started_node_follows_nobody:
  assumes "start_server ts D E X dm opened validate raft_new (Some config) disk = (k, Ret sv)"
  shows "metadata_reachable ts config (sv_cluster sv)" and "\<not> is_leader (sv_cluster sv)"
    and "pools_ok (sv_client_pool sv)"
proof -
  obtain m where m: "raft_group_metadata_new ts (Some config) = Ret m" "sv_cluster sv = m"
    "sv_client_pool sv = client_pool_new 3"
    using assms
    by (auto simp: start_server_def placement_center_conf_def bind_run_def split: run.splits prod.splits)
  then show "metadata_reachable ts config (sv_cluster sv)" by (auto intro: meta_new)
  show "\<not> is_leader (sv_cluster sv)"
    unfolding m(2) using m(1)
    by (auto simp: raft_group_metadata_new_def placement_center_conf_def is_leader_def split: run.splits)
  show "pools_ok (sv_client_pool sv)" using m by simp
qed


definition ref_open :: "(unit, mem_db) rocks_open" where
  "ref_open = \<lparr>ro_exists = (\<lambda>k p. False), ro_open = (\<lambda>k opts p. (k, Inr ())),
     ro_list_cf = (\<lambda>k opts p. Inr [''default'']), ro_open_cf = (\<lambda>k opts p cfs. (k, Inr [])),
     ro_create_cf = (\<lambda>db cf opts. (db, Inr ()))\<rparr>"

lemma ref_start:
  "\<exists>k sv. start_server quoted ref_open ref_env ref_oenv 0 (\<lambda>p cfs. Inr []) Inr (\<lambda>i c. Inr ()) (Some ref_config) () =
     (k, Ret (sv :: (unit, mem_db, u64, u64, unit) server))"
proof -
  obtain m where m: "raft_group_metadata_new quoted (Some ref_config) = Ret m" using ref_metadata by blast
  obtain s where s: "raft_store_new ref_env [] = Ret s" using ref_store_new by blast
  have db: "rocksdb_engine_new ref_open ref_config () = ((), Ret [])"
    by (simp add: rocksdb_engine_new_def ref_open_def column_family_list_def)
  obtain r where r: "create_raft_node ref_oenv 0 (\<lambda>p cfs. Inr []) Inr (\<lambda>i c. Inr ()) (Some ref_config) = Ret r"
    using ref_create_raft_node by blast
  show ?thesis
    by (cases r) (simp add: start_server_def placement_center_conf_def m db s r)
qed


end
