(* ===== verification/Process.thy ===== *)
theory Process
  imports Server
begin

section \<open>The process: main and the server tasks\<close>

text \<open>
  \<open>src/cmd/src/placement-center/server.rs\<close> (main), the tasks of \<open>server/http/server.rs\<close> and
  \<open>server/grpc/server.rs\<close> around what they serve, \<open>awaiting_stop\<close> of \<open>lib.rs\<close>, and
  \<open>http_error.rs\<close>.  What a listener, a signal handler or a broadcast channel does is an argument;
  a \<open>select!\<close> is resolved by the event that completes first.
\<close>

subsection \<open>Server tasks\<close>

text \<open>
  \<open>format!("0.0.0.0:{}", port).parse::<SocketAddr>()\<close>: the standard library's parser takes the
  port as a \<open>u16\<close>.
\<close>

definition socket_addr :: "u64 \<Rightarrow> string option" where
  "socket_addr port = (if unat port < 65536 then Some (''0.0.0.0:'' @ show_u64 port) else None)"

text \<open>
  The first event of the \<open>select!\<close>: a message on the stop channel (\<open>None\<close> is a receive error), or
  the end of serving.
\<close>

datatype select_event = StopReceived "bool option" | ServeEnded "ext_error + unit"

definition start_http_server ::
  "(string \<Rightarrow> ext_error + 'l) \<Rightarrow> ('l \<Rightarrow> select_event) \<Rightarrow> placement_config option \<Rightarrow> unit run" where
  "start_http_server bind event lock =
     (case placement_center_conf lock of
        Panic p \<Rightarrow> Panic p
      | Ret config \<Rightarrow>
          (case socket_addr (pc_http_port config) of
             None \<Rightarrow> Panic ExplicitPanic
           | Some ip \<Rightarrow>
               (case bind ip of
                  Inl _ \<Rightarrow> Panic ExplicitPanic
                | Inr listener \<Rightarrow>
                    (case event listener of
                       StopReceived flag \<Rightarrow> Ret ()
                     | ServeEnded (Inr _) \<Rightarrow> Ret ()
                     | ServeEnded (Inl _) \<Rightarrow> Panic ExplicitPanic))))"

record grpc_server =
  gs_port :: u64

definition grpc_server_new :: "u64 \<Rightarrow> grpc_server" where
  "grpc_server_new port = \<lparr>gs_port = port\<rparr>"

definition grpc_server_run :: "(string \<Rightarrow> select_event) \<Rightarrow> grpc_server \<Rightarrow> unit run" where
  "grpc_server_run event server =
     (case socket_addr (gs_port server) of
        None \<Rightarrow> Panic UnwrapErr
      | Some addr \<Rightarrow>
          (case event addr of
             StopReceived flag \<Rightarrow> Ret ()
           | ServeEnded (Inr _) \<Rightarrow> Ret ()
           | ServeEnded (Inl _) \<Rightarrow> Panic ExplicitPanic))"

definition start_grpc_server :: "(string \<Rightarrow> select_event) \<Rightarrow> placement_config option \<Rightarrow> unit run" where
  "start_grpc_server event lock =
     (case placement_center_conf lock of
        Panic p \<Rightarrow> Panic p
      | Ret config \<Rightarrow> grpc_server_run event (grpc_server_new (pc_grpc_port config)))"

text \<open>\<open>ctrl_c\<close> is the signal's future, \<open>sent\<close> the result of \<open>stop_send.send(true)\<close>.\<close>

definition awaiting_stop :: "ext_error + unit \<Rightarrow> ext_error + nat \<Rightarrow> unit run" where
  "awaiting_stop ctrl_c sent =
     (case ctrl_c of
        Inl _ \<Rightarrow> Panic UnwrapErr
      | Inr _ \<Rightarrow> (case sent of Inr _ \<Rightarrow> Ret () | Inl _ \<Rightarrow> Panic ExplicitPanic))"

text \<open>
  Whatever arrives on the stop channel ends a server, a \<open>false\<close> and a receive error included; a
  port that is no \<open>u16\<close> ends it before it has bound anything.
\<close>

lemma any_stop_message_stops:
  assumes "unat (pc_http_port c) < 65536" and "bind (''0.0.0.0:'' @ show_u64 (pc_http_port c)) = Inr l"
    and "event l = StopReceived flag"
  shows "start_http_server bind event (Some c) = Ret ()"
  using assms by (simp add: start_http_server_def placement_center_conf_def socket_addr_def)

lemma bad_port_panics:
  "65536 \<le> unat (pc_http_port c) \<Longrightarrow> start_http_server bind event (Some c) = Panic ExplicitPanic"
  "65536 \<le> unat (pc_grpc_port c) \<Longrightarrow> start_grpc_server event' (Some c) = Panic UnwrapErr"
  by (simp_all add: start_http_server_def start_grpc_server_def grpc_server_run_def grpc_server_new_def placement_center_conf_def
      socket_addr_def)

subsection \<open>HTTP errors\<close>

datatype http_error = NotFound string

fun http_error_string :: "http_error \<Rightarrow> string" where
  "http_error_string (NotFound m) = ''Not found for '' @ m"

text \<open>The status and the text under the key \<open>error\<close> of the JSON body.\<close>

fun http_error_response :: "http_error \<Rightarrow> nat \<times> (string \<times> string) list" where
  "http_error_response (NotFound msg) = (404, [(''error'', ''invalid path '' @ msg)])"

subsection \<open>main\<close>

definition DEFAULT_PLACEMENT_CENTER_CONFIG :: string where
  "DEFAULT_PLACEMENT_CENTER_CONFIG = ''config/placement-center.toml''"

text \<open>The argument \<open>--conf\<close>, as clap fills it in.\<close>

definition args_conf :: "string option \<Rightarrow> string" where
  "args_conf conf = (case conf of None \<Rightarrow> DEFAULT_PLACEMENT_CENTER_CONFIG | Some path \<Rightarrow> path)"

definition cmd_main ::
  "file_system \<Rightarrow> (string \<Rightarrow> ext_error + placement_config) \<Rightarrow> (string \<Rightarrow> ext_error + 'y) \<Rightarrow>
   ('y \<Rightarrow> ext_error + unit) \<Rightarrow> (placement_config option \<Rightarrow> 'k \<Rightarrow> 'k \<times> 'r run) \<Rightarrow> string option \<Rightarrow> 'k \<Rightarrow>
   'k \<times> 'r run" where
  "cmd_main F parse_toml parse_yaml init_raw_config start conf disk =
     (case init_placement_center_conf_by_path F parse_toml None (args_conf conf) of
        (_, Panic p) \<Rightarrow> (disk, Panic p)
      | (lock, Ret _) \<Rightarrow>
          (case init_placement_center_log F parse_yaml init_raw_config lock of
             Panic p \<Rightarrow> (disk, Panic p)
           | Ret _ \<Rightarrow>
               (case placement_center_conf lock of
                  Panic p \<Rightarrow> (disk, Panic p)
                | Ret _ \<Rightarrow> start lock disk)))"

text \<open>
  The server is started with the configuration of the file and with no other: the global cell is
  set before anything reads it.  If the process fails earlier, the disk is as it was.
\<close>

lemma main_starts_configured:
  "cmd_main F pt py ir start conf disk = (disk', r) \<Longrightarrow>
     (\<exists>content config. read_file F (args_conf conf) = Inr content \<and> pt content = Inr config \<and>
        init_placement_center_log F py ir (Some config) = Ret () \<and> start (Some config) disk = (disk', r)) \<or>
     (disk' = disk \<and> (\<exists>p. r = Panic p))"
  by (auto simp: cmd_main_def init_placement_center_conf_by_path_def placement_center_conf_def
      split: sum.splits run.splits)

text \<open>A node that came up through \<open>main\<close> with a configuration file accepts no write either.\<close>

lemma main_node_follows_nobody:
  assumes "cmd_main F pt py ir (start_server ts D E X dm opened validate raft_new) conf disk = (k, Ret sv)"
  shows "\<exists>content config. read_file F (args_conf conf) = Inr content \<and> pt content = Inr config \<and>
    metadata_reachable ts config (sv_cluster sv) \<and> \<not> is_leader (sv_cluster sv)"
proof -
  obtain content config where c: "read_file F (args_conf conf) = Inr content" "pt content = Inr config"
    "start_server ts D E X dm opened validate raft_new (Some config) disk = (k, Ret sv)"
    using main_starts_configured [OF assms] by auto
  from c(1,2) started_node_follows_nobody(1,2) [OF c(3)] show ?thesis by blast
qed

end
