(* ===== verification/Process_Steps.thy ===== *)
theory Process_Steps
  imports Process
begin

section \<open>The running process and its shutdown (lib.rs, server/http/server.rs, server/grpc/server.rs)\<close>

text \<open>
  After \<open>start_server\<close> has built a node, three spawned tasks and \<open>awaiting_stop\<close> run concurrently
  and share the broadcast channel \<open>stop_sx\<close> of capacity two that \<open>main\<close> creates.  Their steps are
  interleaved here: a task is where its next \<open>await\<close> is.  A broadcast receiver is the number of the
  message it gets next, so one that subscribes after a \<open>send\<close> does not see it.  The Raft machine is
  built and never run, but the receiver it was given lives until \<open>start_server\<close> returns.  Tokio
  keeps the panic of a spawned task in its handle, which nobody reads, and drops the tasks that are
  left when \<open>main\<close> ends.
\<close>

subsection \<open>State\<close>

text \<open>\<open>Task_Binding ip i\<close>: the HTTP server has subscribed (\<open>i\<close>) and waits for its listener.\<close>

datatype task_state =
    Task_Spawned | Task_Binding string nat | Task_Serving nat | Task_Done "unit run" | Task_Cancelled

datatype main_state = Main_Waiting | Main_Returning "unit run" | Main_Done "unit run"

record 'n process =
  pr_sent :: "bool list"
  pr_grpc :: task_state
  pr_http :: task_state
  pr_init :: task_state
  pr_node :: 'n
  pr_main :: main_state

definition spawn_tasks :: "'n \<Rightarrow> 'n process" where
  "spawn_tasks n =
     \<lparr>pr_sent = [], pr_grpc = Task_Spawned, pr_http = Task_Spawned, pr_init = Task_Spawned,
      pr_node = n, pr_main = Main_Waiting\<rparr>"

subsection \<open>The stop channel\<close>

definition stop_capacity :: nat where
  "stop_capacity = 2"

text \<open>\<open>stop_rx.recv()\<close>: waits for the next message; a receiver too far behind gets an error.\<close>

definition broadcast_recv :: "bool list \<Rightarrow> nat \<Rightarrow> select_event option" where
  "broadcast_recv sent i =
     (if length sent \<le> i then None
      else if stop_capacity < length sent - i then Some (StopReceived None)
      else Some (StopReceived (Some (sent ! i))))"

fun receiver_of :: "task_state \<Rightarrow> nat" where
  "receiver_of (Task_Binding ip i) = 1"
| "receiver_of (Task_Serving i) = 1"
| "receiver_of _ = 0"

text \<open>The machine's receiver and those of the servers.\<close>

definition receivers :: "'n process \<Rightarrow> nat" where
  "receivers P = 1 + receiver_of (pr_grpc P) + receiver_of (pr_http P)"

definition no_receiver :: ext_error where
  "no_receiver = \<lparr>err_display = ''channel closed'', err_debug = ''SendError(true)''\<rparr>"

definition broadcast_send :: "bool \<Rightarrow> 'n process \<Rightarrow> 'n process \<times> (ext_error + nat)" where
  "broadcast_send b P =
     (if receivers P = 0 then (P, Inl no_receiver)
      else (P\<lparr>pr_sent := pr_sent P @ [b]\<rparr>, Inr (receivers P)))"

subsection \<open>Steps of the tasks\<close>

definition select_result :: "select_event \<Rightarrow> unit run" where
  "select_result ev = (case ev of ServeEnded (Inl _) \<Rightarrow> Panic ExplicitPanic | _ \<Rightarrow> Ret ())"

definition grpc_begin :: "placement_config option \<Rightarrow> bool list \<Rightarrow> task_state" where
  "grpc_begin lock sent =
     (case placement_center_conf lock of
        Panic p \<Rightarrow> Task_Done (Panic p)
      | Ret config \<Rightarrow>
          (case socket_addr (pc_grpc_port config) of
             None \<Rightarrow> Task_Done (Panic UnwrapErr)
           | Some addr \<Rightarrow> Task_Serving (length sent)))"

definition http_begin :: "placement_config option \<Rightarrow> bool list \<Rightarrow> task_state" where
  "http_begin lock sent =
     (case placement_center_conf lock of
        Panic p \<Rightarrow> Task_Done (Panic p)
      | Ret config \<Rightarrow>
          (case socket_addr (pc_http_port config) of
             None \<Rightarrow> Task_Done (Panic ExplicitPanic)
           | Some ip \<Rightarrow> Task_Binding ip (length sent)))"

definition http_bound :: "ext_error + unit \<Rightarrow> nat \<Rightarrow> task_state" where
  "http_bound r i = (case r of Inl _ \<Rightarrow> Task_Done (Panic ExplicitPanic) | Inr _ \<Rightarrow> Task_Serving i)"

definition main_stop :: "ext_error + unit \<Rightarrow> 'n process \<Rightarrow> 'n process" where
  "main_stop ctrl_c P =
     (case ctrl_c of
        Inl _ \<Rightarrow> P\<lparr>pr_main := Main_Returning (awaiting_stop ctrl_c (Inl no_receiver))\<rparr>
      | Inr _ \<Rightarrow>
          (case broadcast_send True P of
             (P', sent) \<Rightarrow> P'\<lparr>pr_main := Main_Returning (awaiting_stop ctrl_c sent)\<rparr>))"

fun cancel :: "task_state \<Rightarrow> task_state" where
  "cancel (Task_Done r) = Task_Done r"
| "cancel _ = Task_Cancelled"

text \<open>An event at the \<open>select!\<close> of a server: the stop channel's message, or the end of serving.\<close>

inductive selects :: "bool list \<Rightarrow> nat \<Rightarrow> select_event \<Rightarrow> bool" for sent i where
  "broadcast_recv sent i = Some ev \<Longrightarrow> selects sent i ev"
| "selects sent i (ServeEnded r)"

inductive process_step ::
  "(toml_value \<Rightarrow> string) \<Rightarrow> 'n raft_handle \<Rightarrow> placement_config option \<Rightarrow> 'n process \<Rightarrow> 'n process \<Rightarrow> bool"
  for ts H lock P where
  grpc_begins: "pr_grpc P = Task_Spawned \<Longrightarrow>
     process_step ts H lock P (P\<lparr>pr_grpc := grpc_begin lock (pr_sent P)\<rparr>)"
| grpc_ends: "pr_grpc P = Task_Serving i \<Longrightarrow> selects (pr_sent P) i ev \<Longrightarrow>
     process_step ts H lock P (P\<lparr>pr_grpc := Task_Done (select_result ev)\<rparr>)"
| http_begins: "pr_http P = Task_Spawned \<Longrightarrow>
     process_step ts H lock P (P\<lparr>pr_http := http_begin lock (pr_sent P)\<rparr>)"
| http_binds: "pr_http P = Task_Binding ip i \<Longrightarrow>
     process_step ts H lock P (P\<lparr>pr_http := http_bound r i\<rparr>)"
| http_ends: "pr_http P = Task_Serving i \<Longrightarrow> selects (pr_sent P) i ev \<Longrightarrow>
     process_step ts H lock P (P\<lparr>pr_http := Task_Done (select_result ev)\<rparr>)"
| node_inits: "pr_init P = Task_Spawned \<Longrightarrow> start_openraft_node ts lock H (pr_node P) = (n', r) \<Longrightarrow>
     process_step ts H lock P (P\<lparr>pr_node := n', pr_init := Task_Done r\<rparr>)"
| main_signalled: "pr_main P = Main_Waiting \<Longrightarrow> process_step ts H lock P (main_stop ctrl_c P)"
| main_ends: "pr_main P = Main_Returning r \<Longrightarrow>
     process_step ts H lock P
       (P\<lparr>pr_grpc := cancel (pr_grpc P), pr_http := cancel (pr_http P), pr_init := cancel (pr_init P),
          pr_main := Main_Done r\<rparr>)"

inductive process_reached ::
  "(toml_value \<Rightarrow> string) \<Rightarrow> 'n raft_handle \<Rightarrow> placement_config option \<Rightarrow> 'n process \<Rightarrow> bool"
  for ts H lock where
  process_spawned: "process_reached ts H lock (spawn_tasks n)"
| process_later: "process_reached ts H lock P \<Longrightarrow> process_step ts H lock P P' \<Longrightarrow> process_reached ts H lock P'"

subsection \<open>The invariant\<close>

text \<open>
  A task is where a run of the server's function on its own can be, and what it ends with is a
  result of that function.
\<close>

definition grpc_addr :: "placement_config option \<Rightarrow> string \<Rightarrow> bool" where
  "grpc_addr lock addr \<longleftrightarrow>
     (\<exists>c. placement_center_conf lock = Ret c \<and> socket_addr (pc_grpc_port c) = Some addr)"

definition http_addr :: "placement_config option \<Rightarrow> string \<Rightarrow> bool" where
  "http_addr lock addr \<longleftrightarrow>
     (\<exists>c. placement_center_conf lock = Ret c \<and> socket_addr (pc_http_port c) = Some addr)"

definition grpc_result :: "placement_config option \<Rightarrow> unit run \<Rightarrow> bool" where
  "grpc_result lock r \<longleftrightarrow> (\<exists>event. r = start_grpc_server event lock)"

definition http_result :: "placement_config option \<Rightarrow> unit run \<Rightarrow> bool" where
  "http_result lock r \<longleftrightarrow>
     (\<exists>bind event. r = start_http_server (bind :: string \<Rightarrow> ext_error + unit) event lock)"

fun grpc_ok :: "placement_config option \<Rightarrow> bool list \<Rightarrow> task_state \<Rightarrow> bool" where
  "grpc_ok lock sent (Task_Binding ip i) \<longleftrightarrow> False"
| "grpc_ok lock sent (Task_Serving i) \<longleftrightarrow> i \<le> length sent \<and> (\<exists>addr. grpc_addr lock addr)"
| "grpc_ok lock sent (Task_Done r) \<longleftrightarrow> grpc_result lock r"
| "grpc_ok lock sent _ \<longleftrightarrow> True"

fun http_ok :: "placement_config option \<Rightarrow> bool list \<Rightarrow> task_state \<Rightarrow> bool" where
  "http_ok lock sent (Task_Binding ip i) \<longleftrightarrow> i \<le> length sent \<and> http_addr lock ip"
| "http_ok lock sent (Task_Serving i) \<longleftrightarrow> i \<le> length sent \<and> (\<exists>addr. http_addr lock addr)"
| "http_ok lock sent (Task_Done r) \<longleftrightarrow> http_result lock r"
| "http_ok lock sent _ \<longleftrightarrow> True"

fun init_ok :: "(toml_value \<Rightarrow> string) \<Rightarrow> 'n raft_handle \<Rightarrow> placement_config option \<Rightarrow> task_state \<Rightarrow> bool" where
  "init_ok ts H lock (Task_Done r) \<longleftrightarrow> (\<exists>n. r = snd (start_openraft_node ts lock H n))"
| "init_ok ts H lock t \<longleftrightarrow> t = Task_Spawned \<or> t = Task_Cancelled"

fun ended :: "task_state \<Rightarrow> bool" where
  "ended (Task_Done r) \<longleftrightarrow> True"
| "ended Task_Cancelled \<longleftrightarrow> True"
| "ended _ \<longleftrightarrow> False"

text \<open>What \<open>main\<close> has sent and how it ends.\<close>

fun main_ok :: "bool list \<Rightarrow> main_state \<Rightarrow> bool" where
  "main_ok sent Main_Waiting \<longleftrightarrow> sent = []"
| "main_ok sent (Main_Returning r) \<longleftrightarrow> (r, sent) \<in> {(Ret (), [True]), (Panic UnwrapErr, [])}"
| "main_ok sent (Main_Done r) \<longleftrightarrow> (r, sent) \<in> {(Ret (), [True]), (Panic UnwrapErr, [])}"

definition process_inv ::
  "(toml_value \<Rightarrow> string) \<Rightarrow> 'n raft_handle \<Rightarrow> placement_config option \<Rightarrow> 'n process \<Rightarrow> bool" where
  "process_inv ts H lock P \<longleftrightarrow>
     grpc_ok lock (pr_sent P) (pr_grpc P) \<and> http_ok lock (pr_sent P) (pr_http P) \<and>
     init_ok ts H lock (pr_init P) \<and> main_ok (pr_sent P) (pr_main P) \<and>
     (\<forall>r. pr_main P = Main_Done r \<longrightarrow> ended (pr_grpc P) \<and> ended (pr_http P) \<and> ended (pr_init P))"

lemma grpc_begin_ok [simp]: "grpc_ok lock sent (grpc_begin lock sent)"
  by (auto simp: grpc_begin_def grpc_addr_def grpc_result_def start_grpc_server_def grpc_server_run_def grpc_server_new_def
      split: run.split option.split)

lemma http_begin_ok [simp]: "http_ok lock sent (http_begin lock sent)"
  by (auto simp: http_begin_def http_addr_def http_result_def start_http_server_def
      split: run.split option.split)

lemma grpc_result_select: "grpc_addr lock addr \<Longrightarrow> grpc_result lock (select_result ev)"
  unfolding grpc_result_def
  by (intro exI [of _ "\<lambda>_. ev"])
    (auto simp: grpc_addr_def start_grpc_server_def grpc_server_run_def grpc_server_new_def select_result_def
      split: select_event.split sum.split)

lemma http_result_select: "http_addr lock addr \<Longrightarrow> http_result lock (select_result ev)"
  unfolding http_result_def
  by (intro exI [of _ "\<lambda>_. Inr ()"] exI [of _ "\<lambda>_. ev"])
    (auto simp: http_addr_def start_http_server_def select_result_def split: select_event.split sum.split)

lemma http_bind_fails: "http_addr lock ip \<Longrightarrow> http_result lock (Panic ExplicitPanic)"
  unfolding http_result_def
  by (intro exI [of _ "\<lambda>_. Inl no_receiver"] exI [of _ "\<lambda>_. StopReceived None"])
    (auto simp: http_addr_def start_http_server_def)

lemma http_bound_ok: "http_addr lock ip \<Longrightarrow> i \<le> length sent \<Longrightarrow> http_ok lock sent (http_bound r i)"
  by (cases r) (auto simp: http_bound_def intro: http_bind_fails)

lemma sent_more:
  "grpc_ok lock sent t \<Longrightarrow> grpc_ok lock (sent @ later) t" "http_ok lock sent t \<Longrightarrow> http_ok lock (sent @ later) t"
  by (cases t; force)+

lemma cancel_ok [simp]:
  "grpc_ok lock sent t \<Longrightarrow> grpc_ok lock sent (cancel t)" "http_ok lock sent t \<Longrightarrow> http_ok lock sent (cancel t)"
  "init_ok ts H lock t \<Longrightarrow> init_ok ts H lock (cancel t)" "ended (cancel t)"
  by (cases t; simp)+

lemma main_stop_ok:
  "pr_main P = Main_Waiting \<Longrightarrow> process_inv ts H lock P \<Longrightarrow> process_inv ts H lock (main_stop c P)"
  by (cases c)
    (auto simp: process_inv_def main_stop_def broadcast_send_def receivers_def awaiting_stop_def
      dest: sent_more [where later = "[True]"])

lemma process_inv_step:
  assumes step: "process_step ts H lock P P'" and inv: "process_inv ts H lock P"
  shows "process_inv ts H lock P'"
  using step
proof cases
  case (grpc_ends i ev)
  with inv show ?thesis by (auto simp: process_inv_def intro: grpc_result_select)
next
  case (http_binds ip i r)
  with inv show ?thesis by (auto simp: process_inv_def intro: http_bound_ok)
next
  case (http_ends i ev)
  with inv show ?thesis by (auto simp: process_inv_def intro: http_result_select)
next
  case (node_inits n' r)
  with inv show ?thesis by (auto simp: process_inv_def intro!: exI [of _ "pr_node P"])
next
  case (main_signalled c)
  with inv main_stop_ok show ?thesis by simp
qed (use inv in \<open>auto simp: process_inv_def\<close>)

lemma process_inv_reached: "process_reached ts H lock P \<Longrightarrow> process_inv ts H lock P"
  by (induction rule: process_reached.induct)
    (auto intro: process_inv_step, simp add: process_inv_def spawn_tasks_def)

subsection \<open>Shutdown\<close>

lemma main_stop_ok_main [simp]: "pr_main (main_stop (Inr u) P) = Main_Returning (Ret ())"
  by (simp add: main_stop_def broadcast_send_def receivers_def awaiting_stop_def)

text \<open>No receiver is ever behind, and the only message is \<open>true\<close>.\<close>

lemma stop_message:
  "main_ok sent m \<Longrightarrow> broadcast_recv sent i \<in> {None, Some (StopReceived (Some True))}"
  by (cases m) (auto simp: broadcast_recv_def stop_capacity_def nth_Cons split: nat.split)

text \<open>Only a signal ends the wait of \<open>main\<close>: what becomes of the tasks does not.\<close>

lemma main_waits:
  "process_step ts H lock P P' \<Longrightarrow> pr_main P = Main_Waiting \<Longrightarrow>
     pr_main P' = Main_Waiting \<or> (\<exists>ctrl_c. P' = main_stop ctrl_c P)"
  by (erule process_step.cases) auto

text \<open>
  A node whose two servers have panicked, here for ports that are none, goes on as a process that
  serves nobody: the panics stay in the handles of the tasks.
\<close>

lemma dead_servers_go_unnoticed:
  assumes "65536 \<le> unat (pc_grpc_port c)" "65536 \<le> unat (pc_http_port c)"
  shows "\<exists>P. process_reached ts H (Some c) P \<and> pr_node P = n \<and> pr_grpc P = Task_Done (Panic UnwrapErr) \<and>
    pr_http P = Task_Done (Panic ExplicitPanic) \<and> pr_main P = Main_Waiting"
proof -
  let ?P1 = "(spawn_tasks n)\<lparr>pr_grpc := grpc_begin (Some c) (pr_sent (spawn_tasks n))\<rparr>"
  let ?P2 = "?P1\<lparr>pr_http := http_begin (Some c) (pr_sent ?P1)\<rparr>"
  have no: "socket_addr (pc_grpc_port c) = None" "socket_addr (pc_http_port c) = None"
    using assms by (simp_all add: socket_addr_def)
  have "process_reached ts H (Some c) ?P1"
    by (rule process_later [OF process_spawned grpc_begins]) (simp add: spawn_tasks_def)
  then have "process_reached ts H (Some c) ?P2"
    by (rule process_later [OF _ http_begins]) (simp add: spawn_tasks_def)
  then show ?thesis
    by (intro exI [of _ ?P2])
      (simp add: grpc_begin_def http_begin_def placement_center_conf_def no spawn_tasks_def)
qed



end
