(* ===== verification/Grpc_Wire.thy ===== *)
theory Grpc_Wire
  imports Grpc_Props
begin

section \<open>The generated clients and servers (src/protocol) and the gRPC server\<close>

text \<open>
  \<open>kv.rs\<close>, \<open>openraft.rs\<close> and \<open>placement.rs\<close> of \<open>src/protocol/src\<close>: the methods of the three
  clients, which choose a path, and the \<open>call\<close> of the three servers, which choose a handler by
  it; and \<open>server/grpc/server.rs\<close>, which puts the servers behind one listener.  What tonic does
  below them, HTTP/2, framing, compression and size limits, is the record \<open>tonic\<close>; prost
  encodes and decodes the messages.  The world of type \<open>'s\<close> is the state of the node that is
  called.
\<close>

subsection \<open>What tonic provides\<close>

record grpc_call =
  gc_path :: string
  gc_method :: "string \<times> string"
  gc_message :: bytes

record wire_request =
  wq_path :: string
  wq_body :: bytes

record wire_response =
  wr_status :: nat
  wr_headers :: "(string \<times> string) list"
  wr_body :: bytes

type_synonym 's serve = "'s \<Rightarrow> wire_request \<Rightarrow> 's \<times> wire_response run"

text \<open>
  \<open>to_ready\<close> and \<open>to_unary\<close> are \<open>ready\<close> and \<open>unary\<close> of \<open>tonic::client::Grpc\<close>, \<open>to_serve\<close> is
  \<open>unary\<close> of \<open>tonic::server::Grpc\<close> with the two compression settings and the two size limits;
  all on encoded messages, the \<open>ProstCodec\<close> around them.  \<open>to_route\<close> is the router that
  \<open>add_service\<close> fills.  From \<open>to_send\<close> on no code calls the fields: the laws use them.
\<close>

record ('s, 'g, 'z) tonic =
  to_ready :: "'s \<Rightarrow> 'g \<Rightarrow> 's \<times> (ext_error + unit)"
  to_unary :: "'s \<Rightarrow> 'g \<Rightarrow> grpc_call \<Rightarrow> 's \<times> (status + bytes)"
  to_serve :: "'z \<times> 'z \<times> nat option \<times> nat option \<Rightarrow> ('s \<Rightarrow> bytes \<Rightarrow> 's \<times> (status + bytes) run) \<Rightarrow> 's serve"
  to_route :: "(string \<times> 's serve) list \<Rightarrow> 's serve"
  to_bad_message :: "ext_error \<Rightarrow> status"
  to_plain :: 'z
  to_enable :: "'z \<Rightarrow> nat \<Rightarrow> 'z"
  to_send :: "grpc_call \<Rightarrow> wire_request"
  to_respond :: "status + bytes \<Rightarrow> wire_response"
  to_receive :: "wire_response \<Rightarrow> status + bytes"
  to_too_large :: status
  to_dead :: status

subsection \<open>Generated clients\<close>

text \<open>The body that every method of a generated client shares, and the methods.\<close>

definition client_call ::
  "('s, 'g, 'z) tonic \<Rightarrow> 'q prost \<Rightarrow> 'p prost \<Rightarrow> string \<Rightarrow> string \<times> string \<Rightarrow> 's \<Rightarrow> 'g \<Rightarrow> 'q \<Rightarrow>
   's \<times> (status + 'p)" where
  "client_call T Q P path method s g req =
     (case to_ready T s g of
        (s1, Inl e) \<Rightarrow> (s1, Inl (Status (OtherCode 2) (''Service was not ready: '' @ err_display e)))
      | (s1, Inr _) \<Rightarrow>
          (case to_unary T s1 g \<lparr>gc_path = path, gc_method = method, gc_message = pb_encode Q req\<rparr> of
             (s2, Inl e) \<Rightarrow> (s2, Inl e)
           | (s2, Inr b) \<Rightarrow> (s2, map_err (to_bad_message T) (pb_decode P b))))"

definition kv_client_set where
  "kv_client_set T C = client_call T (pc_set C) (pc_common_reply C)
     ''/kv.KvService/set'' (''kv.KvService'', ''set'')"

definition kv_client_delete where
  "kv_client_delete T C = client_call T (pc_delete C) (pc_common_reply C)
     ''/kv.KvService/delete'' (''kv.KvService'', ''delete'')"

definition kv_client_get where
  "kv_client_get T C = client_call T (pc_get C) (pc_get_reply C)
     ''/kv.KvService/get'' (''kv.KvService'', ''get'')"

definition kv_client_exists where
  "kv_client_exists T C = client_call T (pc_exists C) (pc_exists_reply C)
     ''/kv.KvService/exists'' (''kv.KvService'', ''exists'')"

definition openraft_client_vote where
  "openraft_client_vote T C = client_call T (pc_vote C) (pc_vote_reply C)
     ''/openraft.OpenRaftService/vote'' (''openraft.OpenRaftService'', ''vote'')"

definition openraft_client_append where
  "openraft_client_append T C = client_call T (pc_append C) (pc_append_reply C)
     ''/openraft.OpenRaftService/append'' (''openraft.OpenRaftService'', ''append'')"

definition openraft_client_snapshot where
  "openraft_client_snapshot T C = client_call T (pc_snapshot C) (pc_snapshot_reply C)
     ''/openraft.OpenRaftService/snapshot'' (''openraft.OpenRaftService'', ''snapshot'')"

text \<open>The messages of \<open>placement.rs\<close>, which no function of \<open>src/clients\<close> sends, have codecs of their own.\<close>

record placement_codecs =
  pp_message :: "send_raft_message_request prost"
  pp_message_reply :: "send_raft_message_reply prost"
  pp_change :: "send_raft_conf_change_request prost"
  pp_change_reply :: "send_raft_conf_change_reply prost"

definition placement_client_send_raft_message where
  "placement_client_send_raft_message T PC = client_call T (pp_message PC) (pp_message_reply PC)
     ''/placement.PlacementCenterService/SendRaftMessage''
     (''placement.PlacementCenterService'', ''SendRaftMessage'')"

definition placement_client_send_raft_conf_change where
  "placement_client_send_raft_conf_change T PC = client_call T (pp_change PC) (pp_change_reply PC)
     ''/placement.PlacementCenterService/SendRaftConfChange''
     (''placement.PlacementCenterService'', ''SendRaftConfChange'')"

subsection \<open>Generated servers\<close>

text \<open>A handler as the trait declares it, and the three traits.\<close>

type_synonym ('s, 'q, 'p) handler = "'s \<Rightarrow> 'q \<Rightarrow> 's \<times> (status + 'p) run"

record 's kv_service =
  ks_set :: "('s, set_request, common_reply) handler"
  ks_delete :: "('s, delete_request, common_reply) handler"
  ks_get :: "('s, get_request, get_reply) handler"
  ks_exists :: "('s, exists_request, exists_reply) handler"

record 's open_raft_service =
  os_vote :: "('s, vote_request, vote_reply) handler"
  os_append :: "('s, append_request, append_reply) handler"
  os_snapshot :: "('s, snapshot_request, snapshot_reply) handler"

record 's placement_center_srv =
  ps_send_raft_message :: "('s, send_raft_message_request, send_raft_message_reply) handler"
  ps_send_raft_conf_change :: "('s, send_raft_conf_change_request, send_raft_conf_change_reply) handler"

text \<open>
  \<open>KvServiceServer\<close> and its two siblings have the same fields and setters; \<open>'t\<close> is the trait's
  implementation.
\<close>

record ('t, 'z) grpc_server =
  gs_inner :: 't
  gs_accept :: 'z
  gs_send :: 'z
  gs_max_decoding :: "nat option"
  gs_max_encoding :: "nat option"

definition grpc_server_from_arc :: "('s, 'g, 'z) tonic \<Rightarrow> 't \<Rightarrow> ('t, 'z) grpc_server" where
  "grpc_server_from_arc T inner = \<lparr>gs_inner = inner, gs_accept = to_plain T, gs_send = to_plain T,
     gs_max_decoding = None, gs_max_encoding = None\<rparr>"

definition grpc_server_new :: "('s, 'g, 'z) tonic \<Rightarrow> 't \<Rightarrow> ('t, 'z) grpc_server" where
  "grpc_server_new T inner = grpc_server_from_arc T inner"

definition accept_compressed :: "('s, 'g, 'z) tonic \<Rightarrow> nat \<Rightarrow> ('t, 'z) grpc_server \<Rightarrow> ('t, 'z) grpc_server" where
  "accept_compressed T encoding srv = srv\<lparr>gs_accept := to_enable T (gs_accept srv) encoding\<rparr>"

definition send_compressed :: "('s, 'g, 'z) tonic \<Rightarrow> nat \<Rightarrow> ('t, 'z) grpc_server \<Rightarrow> ('t, 'z) grpc_server" where
  "send_compressed T encoding srv = srv\<lparr>gs_send := to_enable T (gs_send srv) encoding\<rparr>"

definition max_decoding_message_size :: "nat \<Rightarrow> ('t, 'z) grpc_server \<Rightarrow> ('t, 'z) grpc_server" where
  "max_decoding_message_size limit srv = srv\<lparr>gs_max_decoding := Some limit\<rparr>"

definition max_encoding_message_size :: "nat \<Rightarrow> ('t, 'z) grpc_server \<Rightarrow> ('t, 'z) grpc_server" where
  "max_encoding_message_size limit srv = srv\<lparr>gs_max_encoding := Some limit\<rparr>"

text \<open>One arm of \<open>call\<close>: the handler behind a \<open>ProstCodec\<close>, given to tonic with the server's settings.\<close>

definition with_codec ::
  "('s, 'g, 'z) tonic \<Rightarrow> 'q prost \<Rightarrow> 'p prost \<Rightarrow> ('s, 'q, 'p) handler \<Rightarrow> ('s, bytes, bytes) handler" where
  "with_codec T Q P f s b =
     (case pb_decode Q b of
        Inl e \<Rightarrow> (s, Ret (Inl (to_bad_message T e)))
      | Inr req \<Rightarrow> map_reply (pb_encode P) (f s req))"

definition server_arm ::
  "('s, 'g, 'z) tonic \<Rightarrow> 'q prost \<Rightarrow> 'p prost \<Rightarrow> ('t, 'z) grpc_server \<Rightarrow> ('s, 'q, 'p) handler \<Rightarrow> 's serve" where
  "server_arm T Q P srv f =
     to_serve T (gs_accept srv, gs_send srv, gs_max_decoding srv, gs_max_encoding srv) (with_codec T Q P f)"

definition unimplemented :: wire_response where
  "unimplemented = \<lparr>wr_status = 200,
     wr_headers = [(''grpc-status'', ''12''), (''content-type'', ''application/grpc'')], wr_body = []\<rparr>"

text \<open>The last arm of \<open>KvServiceServer::call\<close>.\<close>

definition kv_server_exists ::
  "('s, 'g, 'z) tonic \<Rightarrow> ('w, 'k, 'o) client_env \<Rightarrow> ('s kv_service, 'z) grpc_server \<Rightarrow> 's serve" where
  "kv_server_exists T C srv = server_arm T (pc_exists C) (pc_exists_reply C) srv (ks_exists (gs_inner srv))"

declare kv_server_exists_def [simp]

definition kv_server_call ::
  "('s, 'g, 'z) tonic \<Rightarrow> ('w, 'k, 'o) client_env \<Rightarrow> ('s kv_service, 'z) grpc_server \<Rightarrow> 's serve" where
  "kv_server_call T C srv s req =
     (if wq_path req = ''/kv.KvService/set''
        then server_arm T (pc_set C) (pc_common_reply C) srv (ks_set (gs_inner srv)) s req
      else if wq_path req = ''/kv.KvService/delete''
        then server_arm T (pc_delete C) (pc_common_reply C) srv (ks_delete (gs_inner srv)) s req
      else if wq_path req = ''/kv.KvService/get''
        then server_arm T (pc_get C) (pc_get_reply C) srv (ks_get (gs_inner srv)) s req
      else if wq_path req = ''/kv.KvService/exists''
        then kv_server_exists T C srv s req
      else (s, Ret unimplemented))"

definition openraft_server_call ::
  "('s, 'g, 'z) tonic \<Rightarrow> ('w, 'k, 'o) client_env \<Rightarrow> ('s open_raft_service, 'z) grpc_server \<Rightarrow> 's serve" where
  "openraft_server_call T C srv s req =
     (if wq_path req = ''/openraft.OpenRaftService/vote''
        then server_arm T (pc_vote C) (pc_vote_reply C) srv (os_vote (gs_inner srv)) s req
      else if wq_path req = ''/openraft.OpenRaftService/append''
        then server_arm T (pc_append C) (pc_append_reply C) srv (os_append (gs_inner srv)) s req
      else if wq_path req = ''/openraft.OpenRaftService/snapshot''
        then server_arm T (pc_snapshot C) (pc_snapshot_reply C) srv (os_snapshot (gs_inner srv)) s req
      else (s, Ret unimplemented))"

definition placement_server_call ::
  "('s, 'g, 'z) tonic \<Rightarrow> placement_codecs \<Rightarrow> ('s placement_center_srv, 'z) grpc_server \<Rightarrow> 's serve" where
  "placement_server_call T PC srv s req =
     (if wq_path req = ''/placement.PlacementCenterService/SendRaftMessage''
        then server_arm T (pp_message PC) (pp_message_reply PC) srv
               (ps_send_raft_message (gs_inner srv)) s req
      else if wq_path req = ''/placement.PlacementCenterService/SendRaftConfChange''
        then server_arm T (pp_change PC) (pp_change_reply PC) srv
               (ps_send_raft_conf_change (gs_inner srv)) s req
      else (s, Ret unimplemented))"

end
