(* ===== verification/Grpc_Setup.thy ===== *)
theory Grpc_Setup
  imports Grpc_Wire
begin

section \<open>Building the generated clients and servers (src/protocol)\<close>

text \<open>
  The structs of the three generated clients and of the three generated servers, and the functions
  that build and configure them; their methods are in \<^verbatim>\<open>Grpc_Wire\<close>.  What \<open>tonic::client::Grpc\<close>,
  \<open>Endpoint\<close> and \<open>InterceptedService\<close> do is the record \<open>tonic_client\<close>: \<open>'e\<close> is an endpoint, \<open>'h\<close> a
  transport, \<open>'u\<close> an origin, \<open>'f\<close> an interceptor and \<open>'g\<close> a \<open>Grpc\<close>.  An encoding is its number,
  as in \<^verbatim>\<open>Grpc_Wire\<close>.
\<close>

record ('s, 'e, 'h, 'u, 'f, 'g) tonic_client =
  tc_endpoint :: "string \<Rightarrow> ext_error + 'e"
  tc_connect :: "'s \<Rightarrow> 'e \<Rightarrow> 's \<times> (ext_error + 'h)"
  tc_new :: "'h \<Rightarrow> 'g"
  tc_with_origin :: "'h \<Rightarrow> 'u \<Rightarrow> 'g"
  tc_intercepted :: "'h \<Rightarrow> 'f \<Rightarrow> 'h"
  tc_send_compressed :: "'g \<Rightarrow> nat \<Rightarrow> 'g"
  tc_accept_compressed :: "'g \<Rightarrow> nat \<Rightarrow> 'g"
  tc_max_decoding :: "'g \<Rightarrow> nat \<Rightarrow> 'g"
  tc_max_encoding :: "'g \<Rightarrow> nat \<Rightarrow> 'g"

subsection \<open>KvServiceClient (kv.rs)\<close>

record 'g kv_service_client =
  kvc_inner :: 'g

definition kv_client_new :: "('s, 'e, 'h, 'u, 'f, 'g) tonic_client \<Rightarrow> 'h \<Rightarrow> 'g kv_service_client" where
  "kv_client_new N inner = \<lparr>kvc_inner = tc_new N inner\<rparr>"

definition kv_client_connect ::
  "('s, 'e, 'h, 'u, 'f, 'g) tonic_client \<Rightarrow> 's \<Rightarrow> string \<Rightarrow> 's \<times> (ext_error + 'g kv_service_client)" where
  "kv_client_connect N s dst =
     (case tc_endpoint N dst of
        Inl e \<Rightarrow> (s, Inl e)
      | Inr endpoint \<Rightarrow>
          (case tc_connect N s endpoint of
             (s1, Inl e) \<Rightarrow> (s1, Inl e)
           | (s1, Inr conn) \<Rightarrow> (s1, Inr (kv_client_new N conn))))"

definition kv_client_with_origin :: "('s, 'e, 'h, 'u, 'f, 'g) tonic_client \<Rightarrow> 'h \<Rightarrow> 'u \<Rightarrow> 'g kv_service_client" where
  "kv_client_with_origin N inner origin = \<lparr>kvc_inner = tc_with_origin N inner origin\<rparr>"

definition kv_client_with_interceptor :: "('s, 'e, 'h, 'u, 'f, 'g) tonic_client \<Rightarrow> 'h \<Rightarrow> 'f \<Rightarrow> 'g kv_service_client" where
  "kv_client_with_interceptor N inner interceptor = kv_client_new N (tc_intercepted N inner interceptor)"

definition kv_client_send_compressed :: "('s, 'e, 'h, 'u, 'f, 'g) tonic_client \<Rightarrow> nat \<Rightarrow> 'g kv_service_client \<Rightarrow> 'g kv_service_client" where
  "kv_client_send_compressed N encoding client = client\<lparr>kvc_inner := tc_send_compressed N (kvc_inner client) encoding\<rparr>"

definition kv_client_accept_compressed :: "('s, 'e, 'h, 'u, 'f, 'g) tonic_client \<Rightarrow> nat \<Rightarrow> 'g kv_service_client \<Rightarrow> 'g kv_service_client" where
  "kv_client_accept_compressed N encoding client = client\<lparr>kvc_inner := tc_accept_compressed N (kvc_inner client) encoding\<rparr>"

definition kv_client_max_decoding_message_size :: "('s, 'e, 'h, 'u, 'f, 'g) tonic_client \<Rightarrow> nat \<Rightarrow> 'g kv_service_client \<Rightarrow> 'g kv_service_client" where
  "kv_client_max_decoding_message_size N limit client = client\<lparr>kvc_inner := tc_max_decoding N (kvc_inner client) limit\<rparr>"

definition kv_client_max_encoding_message_size :: "('s, 'e, 'h, 'u, 'f, 'g) tonic_client \<Rightarrow> nat \<Rightarrow> 'g kv_service_client \<Rightarrow> 'g kv_service_client" where
  "kv_client_max_encoding_message_size N limit client = client\<lparr>kvc_inner := tc_max_encoding N (kvc_inner client) limit\<rparr>"

text \<open>The server: its struct and setters are \<open>grpc_server\<close> of \<^verbatim>\<open>Grpc_Wire\<close>.\<close>

type_synonym ('s, 'z) kv_service_server = "('s kv_service, 'z) grpc_server"

text \<open>\<open>intercepted\<close> is \<open>InterceptedService::new\<close>.  A clone shares the implementation behind its \<open>Arc\<close>.\<close>

definition kv_server_with_interceptor ::
  "('s, 'g, 'z) tonic \<Rightarrow> (('s, 'z) kv_service_server \<Rightarrow> 'f \<Rightarrow> 'i) \<Rightarrow> 's kv_service \<Rightarrow> 'f \<Rightarrow> 'i" where
  "kv_server_with_interceptor T intercepted inner interceptor = intercepted (grpc_server_new T inner) interceptor"

definition kv_server_clone :: "('s, 'z) kv_service_server \<Rightarrow> ('s, 'z) kv_service_server" where
  "kv_server_clone srv =
     \<lparr>gs_inner = gs_inner srv, gs_accept = gs_accept srv, gs_send = gs_send srv,
      gs_max_decoding = gs_max_decoding srv, gs_max_encoding = gs_max_encoding srv\<rparr>"

subsection \<open>OpenRaftServiceClient (openraft.rs)\<close>

record 'g open_raft_service_client =
  orc_inner :: 'g

definition openraft_client_new :: "('s, 'e, 'h, 'u, 'f, 'g) tonic_client \<Rightarrow> 'h \<Rightarrow> 'g open_raft_service_client" where
  "openraft_client_new N inner = \<lparr>orc_inner = tc_new N inner\<rparr>"

definition openraft_client_connect ::
  "('s, 'e, 'h, 'u, 'f, 'g) tonic_client \<Rightarrow> 's \<Rightarrow> string \<Rightarrow> 's \<times> (ext_error + 'g open_raft_service_client)" where
  "openraft_client_connect N s dst =
     (case tc_endpoint N dst of
        Inl e \<Rightarrow> (s, Inl e)
      | Inr endpoint \<Rightarrow>
          (case tc_connect N s endpoint of
             (s1, Inl e) \<Rightarrow> (s1, Inl e)
           | (s1, Inr conn) \<Rightarrow> (s1, Inr (openraft_client_new N conn))))"

definition openraft_client_with_origin :: "('s, 'e, 'h, 'u, 'f, 'g) tonic_client \<Rightarrow> 'h \<Rightarrow> 'u \<Rightarrow> 'g open_raft_service_client" where
  "openraft_client_with_origin N inner origin = \<lparr>orc_inner = tc_with_origin N inner origin\<rparr>"

definition openraft_client_with_interceptor :: "('s, 'e, 'h, 'u, 'f, 'g) tonic_client \<Rightarrow> 'h \<Rightarrow> 'f \<Rightarrow> 'g open_raft_service_client" where
  "openraft_client_with_interceptor N inner interceptor = openraft_client_new N (tc_intercepted N inner interceptor)"

definition openraft_client_send_compressed :: "('s, 'e, 'h, 'u, 'f, 'g) tonic_client \<Rightarrow> nat \<Rightarrow> 'g open_raft_service_client \<Rightarrow> 'g open_raft_service_client" where
  "openraft_client_send_compressed N encoding client = client\<lparr>orc_inner := tc_send_compressed N (orc_inner client) encoding\<rparr>"

definition openraft_client_accept_compressed :: "('s, 'e, 'h, 'u, 'f, 'g) tonic_client \<Rightarrow> nat \<Rightarrow> 'g open_raft_service_client \<Rightarrow> 'g open_raft_service_client" where
  "openraft_client_accept_compressed N encoding client = client\<lparr>orc_inner := tc_accept_compressed N (orc_inner client) encoding\<rparr>"

definition openraft_client_max_decoding_message_size :: "('s, 'e, 'h, 'u, 'f, 'g) tonic_client \<Rightarrow> nat \<Rightarrow> 'g open_raft_service_client \<Rightarrow> 'g open_raft_service_client" where
  "openraft_client_max_decoding_message_size N limit client = client\<lparr>orc_inner := tc_max_decoding N (orc_inner client) limit\<rparr>"

definition openraft_client_max_encoding_message_size :: "('s, 'e, 'h, 'u, 'f, 'g) tonic_client \<Rightarrow> nat \<Rightarrow> 'g open_raft_service_client \<Rightarrow> 'g open_raft_service_client" where
  "openraft_client_max_encoding_message_size N limit client = client\<lparr>orc_inner := tc_max_encoding N (orc_inner client) limit\<rparr>"

text \<open>The server: the same fields as \<open>KvServiceServer\<close> over another trait.\<close>

type_synonym ('s, 'z) open_raft_service_server = "('s open_raft_service, 'z) grpc_server"

definition openraft_server_from_arc :: "('s, 'g, 'z) tonic \<Rightarrow> 's open_raft_service \<Rightarrow> ('s, 'z) open_raft_service_server" where
  "openraft_server_from_arc T inner =
     \<lparr>gs_inner = inner, gs_accept = to_plain T, gs_send = to_plain T, gs_max_decoding = None, gs_max_encoding = None\<rparr>"

definition openraft_server_new :: "('s, 'g, 'z) tonic \<Rightarrow> 's open_raft_service \<Rightarrow> ('s, 'z) open_raft_service_server" where
  "openraft_server_new T inner = openraft_server_from_arc T inner"

definition openraft_server_accept_compressed :: "('s, 'g, 'z) tonic \<Rightarrow> nat \<Rightarrow> ('s, 'z) open_raft_service_server \<Rightarrow> ('s, 'z) open_raft_service_server" where
  "openraft_server_accept_compressed T encoding srv = srv\<lparr>gs_accept := to_enable T (gs_accept srv) encoding\<rparr>"

definition openraft_server_send_compressed :: "('s, 'g, 'z) tonic \<Rightarrow> nat \<Rightarrow> ('s, 'z) open_raft_service_server \<Rightarrow> ('s, 'z) open_raft_service_server" where
  "openraft_server_send_compressed T encoding srv = srv\<lparr>gs_send := to_enable T (gs_send srv) encoding\<rparr>"

definition openraft_server_max_decoding_message_size :: "nat \<Rightarrow> ('s, 'z) open_raft_service_server \<Rightarrow> ('s, 'z) open_raft_service_server" where
  "openraft_server_max_decoding_message_size limit srv = srv\<lparr>gs_max_decoding := Some limit\<rparr>"

definition openraft_server_max_encoding_message_size :: "nat \<Rightarrow> ('s, 'z) open_raft_service_server \<Rightarrow> ('s, 'z) open_raft_service_server" where
  "openraft_server_max_encoding_message_size limit srv = srv\<lparr>gs_max_encoding := Some limit\<rparr>"

text \<open>\<open>intercepted\<close> is \<open>InterceptedService::new\<close>.  A clone shares the implementation behind its \<open>Arc\<close>.\<close>

definition openraft_server_with_interceptor ::
  "('s, 'g, 'z) tonic \<Rightarrow> (('s, 'z) open_raft_service_server \<Rightarrow> 'f \<Rightarrow> 'i) \<Rightarrow> 's open_raft_service \<Rightarrow> 'f \<Rightarrow> 'i" where
  "openraft_server_with_interceptor T intercepted inner interceptor = intercepted (openraft_server_new T inner) interceptor"

definition openraft_server_clone :: "('s, 'z) open_raft_service_server \<Rightarrow> ('s, 'z) open_raft_service_server" where
  "openraft_server_clone srv =
     \<lparr>gs_inner = gs_inner srv, gs_accept = gs_accept srv, gs_send = gs_send srv,
      gs_max_decoding = gs_max_decoding srv, gs_max_encoding = gs_max_encoding srv\<rparr>"

subsection \<open>PlacementCenterServiceClient (placement.rs)\<close>

record 'g placement_center_service_client =
  pcc_inner :: 'g

definition placement_client_new :: "('s, 'e, 'h, 'u, 'f, 'g) tonic_client \<Rightarrow> 'h \<Rightarrow> 'g placement_center_service_client" where
  "placement_client_new N inner = \<lparr>pcc_inner = tc_new N inner\<rparr>"

definition placement_client_connect ::
  "('s, 'e, 'h, 'u, 'f, 'g) tonic_client \<Rightarrow> 's \<Rightarrow> string \<Rightarrow> 's \<times> (ext_error + 'g placement_center_service_client)" where
  "placement_client_connect N s dst =
     (case tc_endpoint N dst of
        Inl e \<Rightarrow> (s, Inl e)
      | Inr endpoint \<Rightarrow>
          (case tc_connect N s endpoint of
             (s1, Inl e) \<Rightarrow> (s1, Inl e)
           | (s1, Inr conn) \<Rightarrow> (s1, Inr (placement_client_new N conn))))"

definition placement_client_with_origin :: "('s, 'e, 'h, 'u, 'f, 'g) tonic_client \<Rightarrow> 'h \<Rightarrow> 'u \<Rightarrow> 'g placement_center_service_client" where
  "placement_client_with_origin N inner origin = \<lparr>pcc_inner = tc_with_origin N inner origin\<rparr>"

definition placement_client_with_interceptor :: "('s, 'e, 'h, 'u, 'f, 'g) tonic_client \<Rightarrow> 'h \<Rightarrow> 'f \<Rightarrow> 'g placement_center_service_client" where
  "placement_client_with_interceptor N inner interceptor = placement_client_new N (tc_intercepted N inner interceptor)"

definition placement_client_send_compressed :: "('s, 'e, 'h, 'u, 'f, 'g) tonic_client \<Rightarrow> nat \<Rightarrow> 'g placement_center_service_client \<Rightarrow> 'g placement_center_service_client" where
  "placement_client_send_compressed N encoding client = client\<lparr>pcc_inner := tc_send_compressed N (pcc_inner client) encoding\<rparr>"

definition placement_client_accept_compressed :: "('s, 'e, 'h, 'u, 'f, 'g) tonic_client \<Rightarrow> nat \<Rightarrow> 'g placement_center_service_client \<Rightarrow> 'g placement_center_service_client" where
  "placement_client_accept_compressed N encoding client = client\<lparr>pcc_inner := tc_accept_compressed N (pcc_inner client) encoding\<rparr>"

definition placement_client_max_decoding_message_size :: "('s, 'e, 'h, 'u, 'f, 'g) tonic_client \<Rightarrow> nat \<Rightarrow> 'g placement_center_service_client \<Rightarrow> 'g placement_center_service_client" where
  "placement_client_max_decoding_message_size N limit client = client\<lparr>pcc_inner := tc_max_decoding N (pcc_inner client) limit\<rparr>"

definition placement_client_max_encoding_message_size :: "('s, 'e, 'h, 'u, 'f, 'g) tonic_client \<Rightarrow> nat \<Rightarrow> 'g placement_center_service_client \<Rightarrow> 'g placement_center_service_client" where
  "placement_client_max_encoding_message_size N limit client = client\<lparr>pcc_inner := tc_max_encoding N (pcc_inner client) limit\<rparr>"

text \<open>The server: the same fields as \<open>KvServiceServer\<close> over another trait.\<close>

type_synonym ('s, 'z) placement_center_service_server = "('s placement_center_srv, 'z) grpc_server"

definition placement_server_from_arc :: "('s, 'g, 'z) tonic \<Rightarrow> 's placement_center_srv \<Rightarrow> ('s, 'z) placement_center_service_server" where
  "placement_server_from_arc T inner =
     \<lparr>gs_inner = inner, gs_accept = to_plain T, gs_send = to_plain T, gs_max_decoding = None, gs_max_encoding = None\<rparr>"

definition placement_server_new :: "('s, 'g, 'z) tonic \<Rightarrow> 's placement_center_srv \<Rightarrow> ('s, 'z) placement_center_service_server" where
  "placement_server_new T inner = placement_server_from_arc T inner"

definition placement_server_accept_compressed :: "('s, 'g, 'z) tonic \<Rightarrow> nat \<Rightarrow> ('s, 'z) placement_center_service_server \<Rightarrow> ('s, 'z) placement_center_service_server" where
  "placement_server_accept_compressed T encoding srv = srv\<lparr>gs_accept := to_enable T (gs_accept srv) encoding\<rparr>"

definition placement_server_send_compressed :: "('s, 'g, 'z) tonic \<Rightarrow> nat \<Rightarrow> ('s, 'z) placement_center_service_server \<Rightarrow> ('s, 'z) placement_center_service_server" where
  "placement_server_send_compressed T encoding srv = srv\<lparr>gs_send := to_enable T (gs_send srv) encoding\<rparr>"

definition placement_server_max_decoding_message_size :: "nat \<Rightarrow> ('s, 'z) placement_center_service_server \<Rightarrow> ('s, 'z) placement_center_service_server" where
  "placement_server_max_decoding_message_size limit srv = srv\<lparr>gs_max_decoding := Some limit\<rparr>"

definition placement_server_max_encoding_message_size :: "nat \<Rightarrow> ('s, 'z) placement_center_service_server \<Rightarrow> ('s, 'z) placement_center_service_server" where
  "placement_server_max_encoding_message_size limit srv = srv\<lparr>gs_max_encoding := Some limit\<rparr>"

text \<open>\<open>intercepted\<close> is \<open>InterceptedService::new\<close>.  A clone shares the implementation behind its \<open>Arc\<close>.\<close>

definition placement_server_with_interceptor ::
  "('s, 'g, 'z) tonic \<Rightarrow> (('s, 'z) placement_center_service_server \<Rightarrow> 'f \<Rightarrow> 'i) \<Rightarrow> 's placement_center_srv \<Rightarrow> 'f \<Rightarrow> 'i" where
  "placement_server_with_interceptor T intercepted inner interceptor = intercepted (placement_server_new T inner) interceptor"

definition placement_server_clone :: "('s, 'z) placement_center_service_server \<Rightarrow> ('s, 'z) placement_center_service_server" where
  "placement_server_clone srv =
     \<lparr>gs_inner = gs_inner srv, gs_accept = gs_accept srv, gs_send = gs_send srv,
      gs_max_decoding = gs_max_decoding srv, gs_max_encoding = gs_max_encoding srv\<rparr>"

subsection \<open>What the builders guarantee\<close>

text \<open>
  The servers of the three services are built alike, a clone is the server itself, and the setters
  of different settings commute, so that the order in which a server is configured does not matter.
\<close>

lemma server_new_eq [simp]:
  "openraft_server_new T h = grpc_server_new T h" "placement_server_new T h' = grpc_server_new T h'"
  by (simp_all add: openraft_server_new_def openraft_server_from_arc_def placement_server_new_def
      placement_server_from_arc_def grpc_server_new_def grpc_server_from_arc_def)

lemma server_clone [simp]:
  "kv_server_clone srv = srv" "openraft_server_clone srv' = srv'" "placement_server_clone srv'' = srv''"
  by (simp_all add: kv_server_clone_def openraft_server_clone_def placement_server_clone_def)

lemma server_setters_commute:
  "accept_compressed T e (send_compressed T e' srv) = send_compressed T e' (accept_compressed T e srv)"
  "accept_compressed T e (max_decoding_message_size n srv) = max_decoding_message_size n (accept_compressed T e srv)"
  "send_compressed T e (max_encoding_message_size n srv) = max_encoding_message_size n (send_compressed T e srv)"
  "max_decoding_message_size n (max_encoding_message_size m srv) = max_encoding_message_size m (max_decoding_message_size n srv)"
  by (simp_all add: accept_compressed_def send_compressed_def max_decoding_message_size_def max_encoding_message_size_def)

text \<open>A connection that fails, at the address or on the network, makes no client.\<close>

lemma client_connect_cases:
  "kv_client_connect N s dst = (s', Inr c) \<Longrightarrow>
     \<exists>e conn. tc_endpoint N dst = Inr e \<and> tc_connect N s e = (s', Inr conn) \<and> c = kv_client_new N conn"
  "openraft_client_connect N s dst = (s', Inr c') \<Longrightarrow>
     \<exists>e conn. tc_endpoint N dst = Inr e \<and> tc_connect N s e = (s', Inr conn) \<and> c' = openraft_client_new N conn"
  "placement_client_connect N s dst = (s', Inr c'') \<Longrightarrow>
     \<exists>e conn. tc_endpoint N dst = Inr e \<and> tc_connect N s e = (s', Inr conn) \<and> c'' = placement_client_new N conn"
  by (auto simp: kv_client_connect_def openraft_client_connect_def placement_client_connect_def
      split: sum.splits prod.splits)

end
