(* ===== verification/Grpc_Node.thy ===== *)
theory Grpc_Node
  imports Grpc_Wire
begin

section \<open>A node behind its gRPC server (src/placement-center/src/server/grpc/server.rs)\<close>

text \<open>
  The three services of a node, the router that serves them, and what a call through a generated
  client therefore does: exactly what the handler of the same name does, and nothing when the
  message is too large or the path unknown.
\<close>

subsection \<open>The services and the router\<close>

text \<open>
  What the handlers of a node share: the client's network and pools, the cluster metadata, the
  queue to the Raft machine (the messages sent so far), the database and the openraft node.
\<close>

record ('w, 'msg, 'db, 'n) node_state =
  ns_net :: "'w \<times> client_pool"
  ns_cluster :: raft_group_metadata
  ns_queue :: "'msg list"
  ns_db :: 'db
  ns_openraft :: 'n

definition enqueue :: "'msg option \<Rightarrow> ('w, 'msg, 'db, 'n) node_state \<Rightarrow> ('w, 'msg, 'db, 'n) node_state" where
  "enqueue m s = s\<lparr>ns_queue := ns_queue s @ (case m of None \<Rightarrow> [] | Some x \<Rightarrow> [x])\<rparr>"

text \<open>A write handler on the node: its part of the state, and the message it may send.\<close>

definition on_net ::
  "('w \<times> client_pool \<Rightarrow> (('w \<times> client_pool) \<times> 'msg option) \<times> 'r run) \<Rightarrow>
   ('w, 'msg, 'db, 'n) node_state \<Rightarrow> ('w, 'msg, 'db, 'n) node_state \<times> 'r run" where
  "on_net f s = (case f (ns_net s) of ((net, m), r) \<Rightarrow> (enqueue m (s\<lparr>ns_net := net\<rparr>), r))"

text \<open>\<open>sx\<close> and \<open>rx\<close> are the answer channel that the handler opens for its call.\<close>

definition grpc_kv_services ::
  "(status \<Rightarrow> string) \<Rightarrow> ('w, 'k, 'o) client_env \<Rightarrow> route_codecs \<Rightarrow> 'db env \<Rightarrow> 'c \<Rightarrow> reply \<Rightarrow>
   ('w, ('m, 'cc, 'c) raft_message, 'db, 'n) node_state kv_service" where
  "grpc_kv_services sd C W E sx rx =
     \<lparr>ks_set = (\<lambda>s req. on_net (grpc_kv_set sd C W (ns_cluster s) sx rx req) s),
      ks_delete = (\<lambda>s req. on_net (grpc_kv_delete sd C W (ns_cluster s) sx rx req) s),
      ks_get = (\<lambda>s req. (s, Ret (grpc_kv_get sd E (ns_db s) req))),
      ks_exists = (\<lambda>s req. (s, Ret (grpc_kv_exists sd E (ns_db s) req)))\<rparr>"

definition grpc_raft_services ::
  "(status \<Rightarrow> string) \<Rightarrow> 'm prost \<Rightarrow> 'cc prost \<Rightarrow> 'c \<Rightarrow> reply \<Rightarrow>
   ('w, ('m, 'cc, 'c) raft_message, 'db, 'n) node_state placement_center_srv" where
  "grpc_raft_services sd PM PCC sx rx =
     \<lparr>ps_send_raft_message = (\<lambda>s req.
        (case send_raft_message sd PM sx rx req of (m, r) \<Rightarrow> (enqueue m s, Ret r))),
      ps_send_raft_conf_change = (\<lambda>s req.
        (case send_raft_conf_change sd PCC sx rx req of (m, r) \<Rightarrow> (enqueue m s, Ret r)))\<rparr>"

definition on_openraft ::
  "('n \<Rightarrow> 'n \<times> 'r run) \<Rightarrow> ('w, 'msg, 'db, 'n) node_state \<Rightarrow> ('w, 'msg, 'db, 'n) node_state \<times> 'r run" where
  "on_openraft f s = (case f (ns_openraft s) of (n, r) \<Rightarrow> (s\<lparr>ns_openraft := n\<rparr>, r))"

text \<open>An openraft method with the codecs of its request and its response.\<close>

type_synonym ('n, 'q, 'r) raft_method = "'q bincode \<times> 'r bincode \<times> ('n \<Rightarrow> 'q \<Rightarrow> 'n \<times> (ext_error + 'r))"

definition grpc_openraft_services ::
  "('n, 'vq, 'vr) raft_method \<Rightarrow> ('n, 'aq, 'ar) raft_method \<Rightarrow> ('n, 'sq, 'sr) raft_method \<Rightarrow>
   ('w, 'msg, 'db, 'n) node_state open_raft_service" where
  "grpc_openraft_services V A S =
     (let (Qv, Rv, vote) = V; (Qa, Ra, app) = A; (Qs, Rs, inst) = S in
      \<lparr>os_vote = (\<lambda>s req. on_openraft (\<lambda>n. openraft_service_vote Qv Rv vote n req) s),
       os_append = (\<lambda>s req. on_openraft (\<lambda>n. openraft_service_append Qa Ra app n req) s),
       os_snapshot = (\<lambda>s req. on_openraft (\<lambda>n. openraft_service_snapshot Qs Rs inst n req) s)\<rparr>)"

text \<open>The \<open>NAME\<close>s under which \<open>add_service\<close> files the servers.\<close>

definition kv_service_name :: string where
  "kv_service_name = ''kv.KvService''"

definition placement_service_name :: string where
  "placement_service_name = ''placement.PlacementCenterService''"

definition openraft_service_name :: string where
  "openraft_service_name = ''openraft.OpenRaftService''"

definition grpc_server_start ::
  "('s, 'g, 'z) tonic \<Rightarrow> ('w, 'k, 'o) client_env \<Rightarrow> placement_codecs \<Rightarrow> 's kv_service \<Rightarrow>
   's placement_center_srv \<Rightarrow> 's open_raft_service \<Rightarrow> 's serve" where
  "grpc_server_start T C PC kv_service_handler raft_service_handler openraft_service_handler =
     to_route T
       [(kv_service_name, kv_server_call T C (grpc_server_new T kv_service_handler)),
        (placement_service_name, placement_server_call T PC (grpc_server_new T raft_service_handler)),
        (openraft_service_name, openraft_server_call T C (grpc_server_new T openraft_service_handler))]"

subsection \<open>The documented behaviour of tonic\<close>

text \<open>
  A message within the server's decoding limit, four megabytes unless it is set, reaches the
  handler, and a larger one does not; the response carries the handler's result, which the client
  reads back when it is within its own limit; the router serves a path of the form
  \<open>/NAME/method\<close> by the server with that name, and answers an unknown service like an unknown
  method, with code 12.
\<close>

definition default_limit :: nat where
  "default_limit = 4194304"

definition fits :: "'p prost \<Rightarrow> 'p \<Rightarrow> bool" where
  "fits P v \<longleftrightarrow> length (pb_encode P v) \<le> default_limit"

definition respond :: "('s, 'g, 'z) tonic \<Rightarrow> 's \<times> (status + bytes) run \<Rightarrow> 's \<times> wire_response run" where
  "respond T m = bind_run m (\<lambda>s r. (s, Ret (to_respond T r)))"

definition no_slash_names :: "(string \<times> 'a) list \<Rightarrow> bool" where
  "no_slash_names svcs \<longleftrightarrow> (\<forall>n \<in> fst ` set svcs. CHR ''/'' \<notin> set n)"

definition tonic_laws :: "('s, 'g, 'z) tonic \<Rightarrow> bool" where
  "tonic_laws T \<longleftrightarrow>
     (\<forall>c. wq_path (to_send T c) = gc_path c) \<and>
     (\<forall>limit h s c. to_serve T (to_plain T, to_plain T, limit, None) h s (to_send T c) =
        (if length (gc_message c) \<le> (case limit of None \<Rightarrow> default_limit | Some n \<Rightarrow> n)
         then respond T (h s (gc_message c)) else (s, Ret (to_respond T (Inl (to_too_large T)))))) \<and>
     (\<forall>e. to_receive T (to_respond T (Inl e)) = Inl e) \<and>
     (\<forall>b. length b \<le> default_limit \<longrightarrow> to_receive T (to_respond T (Inr b)) = Inr b) \<and>
     (\<exists>m. to_receive T unimplemented = Inl (Status (OtherCode 12) m)) \<and>
     (\<forall>svcs s q. no_slash_names svcs \<longrightarrow>
        (\<forall>n call m. map_of svcs n = Some call \<and> wq_path q = ''/'' @ n @ ''/'' @ m \<longrightarrow>
           to_route T svcs s q = call s q) \<and>
        ((\<forall>n \<in> fst ` set svcs. \<not> prefix (''/'' @ n @ ''/'') (wq_path q)) \<longrightarrow>
           (\<exists>resp m. to_route T svcs s q = (s, Ret resp) \<and>
              to_receive T resp = Inl (Status (OtherCode 12) m))))"

text \<open>\<open>g\<close> is a channel to the server whose requests are answered by \<open>serve\<close>.\<close>

definition linked :: "('s, 'g, 'z) tonic \<Rightarrow> 'g \<Rightarrow> 's serve \<Rightarrow> bool" where
  "linked T g serve \<longleftrightarrow>
     (\<forall>s. to_ready T s g = (s, Inr ())) \<and>
     (\<forall>s c. to_unary T s g c =
        (case serve s (to_send T c) of
           (s', Ret r) \<Rightarrow> (s', to_receive T r)
         | (s', Panic p) \<Rightarrow> (s', Inl (to_dead T))))"

locale grpc_transport =
  fixes T :: "('s, 'g, 'z) tonic" and g :: 'g and serve :: "'s serve"
  assumes laws: "tonic_laws T" and link: "linked T g serve"
begin

lemma sent_path [simp]: "wq_path (to_send T c) = gc_path c"
  using laws by (simp add: tonic_laws_def)

lemma unimplemented_received: "\<exists>m. to_receive T unimplemented = Inl (Status (OtherCode 12) m)"
  using laws by (simp add: tonic_laws_def)

lemma served:
  "to_serve T (to_plain T, to_plain T, None, None) h s (to_send T c) =
     (if length (gc_message c) \<le> default_limit
      then respond T (h s (gc_message c)) else (s, Ret (to_respond T (Inl (to_too_large T)))))"
  using laws by (simp add: tonic_laws_def)

lemma received [simp]:
  "to_receive T (to_respond T (Inl e)) = Inl e"
  "length b \<le> default_limit \<Longrightarrow> to_receive T (to_respond T (Inr b)) = Inr b"
  using laws by (simp_all add: tonic_laws_def)

lemma client_call_eq:
  "client_call T Q P path method s g req =
     (case serve s (to_send T \<lparr>gc_path = path, gc_method = method, gc_message = pb_encode Q req\<rparr>) of
        (s', Ret r) \<Rightarrow>
          (s', case to_receive T r of Inl e \<Rightarrow> Inl e | Inr b \<Rightarrow> map_err (to_bad_message T) (pb_decode P b))
      | (s', Panic p) \<Rightarrow> (s', Inl (to_dead T)))"
  using link by (simp add: client_call_def linked_def split: prod.split run.split sum.split)

text \<open>A path that the server answers by a handler: the call is the handler's.\<close>

lemma call_served:
  assumes "prost_laws Q" and "prost_laws P"
    and path: "\<And>s q. wq_path q = path \<Longrightarrow> serve s q = server_arm T Q P (grpc_server_new T h) f s q"
  shows "client_call T Q P path method s g req =
    (if \<not> fits Q req then (s, Inl (to_too_large T))
     else (case f s req of
             (s', Ret (Inr rep)) \<Rightarrow>
               (s', case to_receive T (to_respond T (Inr (pb_encode P rep))) of
                      Inl e \<Rightarrow> Inl e | Inr b \<Rightarrow> map_err (to_bad_message T) (pb_decode P b))
           | (s', Ret (Inl e)) \<Rightarrow> (s', Inl e)
           | (s', Panic p) \<Rightarrow> (s', Inl (to_dead T))))"
  by (simp add: client_call_eq path server_arm_def grpc_server_new_def grpc_server_from_arc_def served fits_def
      with_codec_def prost_roundtrip [OF assms(1)] respond_def map_reply_def bind_run_def
      split: prod.split run.split sum.split)

lemma call_delivers:
  assumes "prost_laws Q" and "prost_laws P"
    and "\<And>s q. wq_path q = path \<Longrightarrow> serve s q = server_arm T Q P (grpc_server_new T h) f s q"
    and "fits Q req" and "\<And>s' rep. f s req = (s', Ret (Inr rep)) \<Longrightarrow> fits P rep"
  shows "client_call T Q P path method s g req = deliver (to_dead T) (f s req)"
  using assms(4,5)
  by (auto simp: call_served [OF assms(1-3)] deliver_def fits_def prost_roundtrip [OF assms(2)]
      split: prod.split run.split sum.split)

lemma call_refused:
  assumes "prost_laws Q" and "prost_laws P"
    and "\<And>s q. wq_path q = path \<Longrightarrow> serve s q = server_arm T Q P (grpc_server_new T h) f s q"
    and "\<not> fits Q req"
  shows "client_call T Q P path method s g req = (s, Inl (to_too_large T))"
  using assms(4) by (simp add: call_served [OF assms(1-3)])

end

subsection \<open>Calls to a node\<close>

definition grpc_paths :: "string list" where
  "grpc_paths =
     [''/kv.KvService/set'', ''/kv.KvService/delete'', ''/kv.KvService/get'', ''/kv.KvService/exists'',
      ''/placement.PlacementCenterService/SendRaftMessage'',
      ''/placement.PlacementCenterService/SendRaftConfChange'',
      ''/openraft.OpenRaftService/vote'', ''/openraft.OpenRaftService/append'',
      ''/openraft.OpenRaftService/snapshot'']"

definition placement_laws :: "placement_codecs \<Rightarrow> bool" where
  "placement_laws PC \<longleftrightarrow> prost_laws (pp_message PC) \<and> prost_laws (pp_message_reply PC) \<and>
     prost_laws (pp_change PC) \<and> prost_laws (pp_change_reply PC)"

text \<open>
  What it means that a client's method and a handler are one: a request above the limit is refused
  without any effect, any other has the handler's effect and result.
\<close>

definition served_by ::
  "('s, 'g, 'z) tonic \<Rightarrow> 'q prost \<Rightarrow> 'p prost \<Rightarrow> ('s \<Rightarrow> 'q \<Rightarrow> 's \<times> (status + 'p)) \<Rightarrow> ('s, 'q, 'p) handler \<Rightarrow> bool" where
  "served_by T Q P stub f \<longleftrightarrow>
     (\<forall>s req.
        (\<not> fits Q req \<longrightarrow> stub s req = (s, Inl (to_too_large T))) \<and>
        (fits Q req \<and> (\<forall>s' rep. f s req = (s', Ret (Inr rep)) \<longrightarrow> fits P rep) \<longrightarrow>
           stub s req = deliver (to_dead T) (f s req)))"

lemma served_byD:
  "served_by T Q P stub f \<Longrightarrow> fits Q req \<Longrightarrow> (\<And>s' rep. f s req = (s', Ret (Inr rep)) \<Longrightarrow> fits P rep) \<Longrightarrow>
     stub s req = deliver (to_dead T) (f s req)"
  by (simp add: served_by_def)

context grpc_transport
begin

lemma call_served_by:
  assumes "prost_laws Q" and "prost_laws P"
    and "\<And>s q. wq_path q = path \<Longrightarrow> serve s q = server_arm T Q P (grpc_server_new T h) f s q"
  shows "served_by T Q P (\<lambda>s. client_call T Q P path method s g) f"
  using call_delivers [OF assms] call_refused [OF assms] by (simp add: served_by_def)

end

lemmas service_names = kv_service_name_def placement_service_name_def openraft_service_name_def

text \<open>The router, by the first part of the path.\<close>

lemma grpc_server_routes:
  assumes "tonic_laws T"
  shows "wq_path q = ''/kv.KvService/'' @ m \<Longrightarrow>
      grpc_server_start T C PC kvh rsh osh s q = kv_server_call T C (grpc_server_new T kvh) s q"
    and "wq_path q = ''/placement.PlacementCenterService/'' @ m \<Longrightarrow>
      grpc_server_start T C PC kvh rsh osh s q = placement_server_call T PC (grpc_server_new T rsh) s q"
    and "wq_path q = ''/openraft.OpenRaftService/'' @ m \<Longrightarrow>
      grpc_server_start T C PC kvh rsh osh s q = openraft_server_call T C (grpc_server_new T osh) s q"
proof -
  let ?svcs = "[(kv_service_name, kv_server_call T C (grpc_server_new T kvh)),
        (placement_service_name, placement_server_call T PC (grpc_server_new T rsh)),
        (openraft_service_name, openraft_server_call T C (grpc_server_new T osh))]"
  have ns: "no_slash_names ?svcs" by (simp add: no_slash_names_def service_names)
  have R: "map_of ?svcs n = Some call \<Longrightarrow> wq_path q = ''/'' @ n @ ''/'' @ m \<Longrightarrow> to_route T ?svcs s q = call s q"
    for n call
    using assms ns unfolding tonic_laws_def by blast
  show "wq_path q = ''/kv.KvService/'' @ m \<Longrightarrow>
      grpc_server_start T C PC kvh rsh osh s q = kv_server_call T C (grpc_server_new T kvh) s q"
    using R [of kv_service_name] by (simp add: grpc_server_start_def service_names)
  show "wq_path q = ''/placement.PlacementCenterService/'' @ m \<Longrightarrow>
      grpc_server_start T C PC kvh rsh osh s q = placement_server_call T PC (grpc_server_new T rsh) s q"
    using R [of placement_service_name] by (simp add: grpc_server_start_def service_names)
  show "wq_path q = ''/openraft.OpenRaftService/'' @ m \<Longrightarrow>
      grpc_server_start T C PC kvh rsh osh s q = openraft_server_call T C (grpc_server_new T osh) s q"
    using R [of openraft_service_name] by (simp add: grpc_server_start_def service_names)
qed

lemmas client_method_defs =
  kv_client_set_def kv_client_delete_def kv_client_get_def kv_client_exists_def
  placement_client_send_raft_message_def placement_client_send_raft_conf_change_def
  openraft_client_vote_def openraft_client_append_def openraft_client_snapshot_def

lemma kv_paths:
  assumes "tonic_laws T"
  shows "wq_path q = ''/kv.KvService/set'' \<Longrightarrow> grpc_server_start T C PC kvh rsh osh s q =
      server_arm T (pc_set C) (pc_common_reply C) (grpc_server_new T kvh) (ks_set kvh) s q"
    and "wq_path q = ''/kv.KvService/delete'' \<Longrightarrow> grpc_server_start T C PC kvh rsh osh s q =
      server_arm T (pc_delete C) (pc_common_reply C) (grpc_server_new T kvh) (ks_delete kvh) s q"
    and "wq_path q = ''/kv.KvService/get'' \<Longrightarrow> grpc_server_start T C PC kvh rsh osh s q =
      server_arm T (pc_get C) (pc_get_reply C) (grpc_server_new T kvh) (ks_get kvh) s q"
    and "wq_path q = ''/kv.KvService/exists'' \<Longrightarrow> grpc_server_start T C PC kvh rsh osh s q =
      server_arm T (pc_exists C) (pc_exists_reply C) (grpc_server_new T kvh) (ks_exists kvh) s q"
  by (simp_all add: grpc_server_routes(1) [OF assms] kv_server_call_def grpc_server_new_def grpc_server_from_arc_def)

lemma placement_paths:
  assumes "tonic_laws T"
  shows "wq_path q = ''/placement.PlacementCenterService/SendRaftMessage'' \<Longrightarrow>
      grpc_server_start T C PC kvh rsh osh s q =
      server_arm T (pp_message PC) (pp_message_reply PC) (grpc_server_new T rsh) (ps_send_raft_message rsh) s q"
    and "wq_path q = ''/placement.PlacementCenterService/SendRaftConfChange'' \<Longrightarrow>
      grpc_server_start T C PC kvh rsh osh s q =
      server_arm T (pp_change PC) (pp_change_reply PC) (grpc_server_new T rsh) (ps_send_raft_conf_change rsh) s q"
  by (simp_all add: grpc_server_routes(2) [OF assms] placement_server_call_def grpc_server_new_def grpc_server_from_arc_def)

lemma openraft_paths:
  assumes "tonic_laws T"
  shows "wq_path q = ''/openraft.OpenRaftService/vote'' \<Longrightarrow> grpc_server_start T C PC kvh rsh osh s q =
      server_arm T (pc_vote C) (pc_vote_reply C) (grpc_server_new T osh) (os_vote osh) s q"
    and "wq_path q = ''/openraft.OpenRaftService/append'' \<Longrightarrow> grpc_server_start T C PC kvh rsh osh s q =
      server_arm T (pc_append C) (pc_append_reply C) (grpc_server_new T osh) (os_append osh) s q"
    and "wq_path q = ''/openraft.OpenRaftService/snapshot'' \<Longrightarrow> grpc_server_start T C PC kvh rsh osh s q =
      server_arm T (pc_snapshot C) (pc_snapshot_reply C) (grpc_server_new T osh) (os_snapshot osh) s q"
  by (simp_all add: grpc_server_routes(3) [OF assms] openraft_server_call_def grpc_server_new_def grpc_server_from_arc_def)

lemma calls_served:
  assumes "tonic_laws T" and "client_laws C" and "placement_laws PC"
    and "linked T g (grpc_server_start T C PC kvh rsh osh)"
  shows "served_by T (pc_set C) (pc_common_reply C) (\<lambda>s. kv_client_set T C s g) (ks_set kvh) \<and>
    served_by T (pc_delete C) (pc_common_reply C) (\<lambda>s. kv_client_delete T C s g) (ks_delete kvh) \<and>
    served_by T (pc_get C) (pc_get_reply C) (\<lambda>s. kv_client_get T C s g) (ks_get kvh) \<and>
    served_by T (pc_exists C) (pc_exists_reply C) (\<lambda>s. kv_client_exists T C s g) (ks_exists kvh) \<and>
    served_by T (pp_message PC) (pp_message_reply PC)
      (\<lambda>s. placement_client_send_raft_message T PC s g) (ps_send_raft_message rsh) \<and>
    served_by T (pp_change PC) (pp_change_reply PC)
      (\<lambda>s. placement_client_send_raft_conf_change T PC s g) (ps_send_raft_conf_change rsh) \<and>
    served_by T (pc_vote C) (pc_vote_reply C) (\<lambda>s. openraft_client_vote T C s g) (os_vote osh) \<and>
    served_by T (pc_append C) (pc_append_reply C) (\<lambda>s. openraft_client_append T C s g) (os_append osh) \<and>
    served_by T (pc_snapshot C) (pc_snapshot_reply C) (\<lambda>s. openraft_client_snapshot T C s g) (os_snapshot osh)"
proof -
  have codecs: "prost_laws (pc_set C)" "prost_laws (pc_delete C)" "prost_laws (pc_get C)" "prost_laws (pc_exists C)"
    "prost_laws (pc_common_reply C)" "prost_laws (pc_get_reply C)" "prost_laws (pc_exists_reply C)"
    "prost_laws (pc_vote C)" "prost_laws (pc_append C)" "prost_laws (pc_snapshot C)"
    "prost_laws (pc_vote_reply C)" "prost_laws (pc_append_reply C)" "prost_laws (pc_snapshot_reply C)"
    "prost_laws (pp_message PC)" "prost_laws (pp_message_reply PC)" "prost_laws (pp_change PC)"
    "prost_laws (pp_change_reply PC)"
    using assms(2,3) by (simp_all add: client_laws_def placement_laws_def)
  note served = grpc_transport.call_served_by [OF grpc_transport.intro [OF assms(1,4)]]
  note paths = kv_paths [OF assms(1)] placement_paths [OF assms(1)] openraft_paths [OF assms(1)]
  show ?thesis
    unfolding client_method_defs by (intro conjI; rule served; (rule codecs | erule paths))
qed

lemma unknown_methods:
  assumes "tonic_laws T" and "wq_path q \<notin> set grpc_paths"
  shows "wq_path q = ''/kv.KvService/'' @ m \<Longrightarrow> grpc_server_start T C PC kvh rsh osh s q = (s, Ret unimplemented)"
    and "wq_path q = ''/placement.PlacementCenterService/'' @ m \<Longrightarrow>
      grpc_server_start T C PC kvh rsh osh s q = (s, Ret unimplemented)"
    and "wq_path q = ''/openraft.OpenRaftService/'' @ m \<Longrightarrow>
      grpc_server_start T C PC kvh rsh osh s q = (s, Ret unimplemented)"
proof -
  have ne: "\<forall>p \<in> set grpc_paths. wq_path q \<noteq> p" using assms(2) by blast
  note unknown = ne [unfolded grpc_paths_def list.set ball_simps, simplified]
  show "wq_path q = ''/kv.KvService/'' @ m \<Longrightarrow> grpc_server_start T C PC kvh rsh osh s q = (s, Ret unimplemented)"
    by (subst grpc_server_routes(1) [OF assms(1)]) (use unknown in \<open>simp_all only: kv_server_call_def if_False\<close>)
  show "wq_path q = ''/placement.PlacementCenterService/'' @ m \<Longrightarrow>
      grpc_server_start T C PC kvh rsh osh s q = (s, Ret unimplemented)"
    by (subst grpc_server_routes(2) [OF assms(1)]) (use unknown in \<open>simp_all only: placement_server_call_def if_False\<close>)
  show "wq_path q = ''/openraft.OpenRaftService/'' @ m \<Longrightarrow>
      grpc_server_start T C PC kvh rsh osh s q = (s, Ret unimplemented)"
    by (subst grpc_server_routes(3) [OF assms(1)]) (use unknown in \<open>simp_all only: openraft_server_call_def if_False\<close>)
qed

text \<open>A path of no service has no handler, nor has an unknown method of a known service.\<close>

lemma unknown_refused:
  assumes "tonic_laws T" and "linked T g (grpc_server_start T C PC kvh rsh osh)"
    and "path \<notin> set grpc_paths"
  shows "\<exists>m. client_call T Q P path method s g req = (s, Inl (Status (OtherCode 12) m))"
proof -
  let ?serve = "grpc_server_start T C PC kvh rsh osh"
  let ?q = "to_send T \<lparr>gc_path = path, gc_method = method, gc_message = pb_encode Q req\<rparr>"
  note tr = grpc_transport.intro [OF assms(1,2)]
  have path: "wq_path ?q = path" by (simp add: grpc_transport.sent_path [OF tr])
  have "\<exists>resp m. ?serve s ?q = (s, Ret resp) \<and> to_receive T resp = Inl (Status (OtherCode 12) m)"
  proof (cases "\<exists>m. path = ''/kv.KvService/'' @ m \<or> path = ''/placement.PlacementCenterService/'' @ m \<or>
      path = ''/openraft.OpenRaftService/'' @ m")
    case True
    then have "?serve s ?q = (s, Ret unimplemented)"
      using unknown_methods [OF assms(1), of ?q] assms(3) path by metis
    then show ?thesis using grpc_transport.unimplemented_received [OF tr] by auto
  next
    case False
    let ?svcs = "[(kv_service_name, kv_server_call T C (grpc_server_new T kvh)),
        (placement_service_name, placement_server_call T PC (grpc_server_new T rsh)),
        (openraft_service_name, openraft_server_call T C (grpc_server_new T osh))]"
    have "no_slash_names ?svcs" by (simp add: no_slash_names_def service_names)
    moreover have "\<forall>n \<in> fst ` set ?svcs. \<not> prefix (''/'' @ n @ ''/'') (wq_path ?q)"
      using False path by (auto simp: service_names prefix_def)
    ultimately show ?thesis
      using assms(1) unfolding tonic_laws_def grpc_server_start_def by blast
  qed
  then show ?thesis by (auto simp: grpc_transport.client_call_eq [OF tr])
qed

subsection \<open>A reference transport\<close>

text \<open>
  A channel is the server's function itself; a failed response carries its code and text as
  headers.
\<close>

fun code_text :: "grpc_code \<Rightarrow> string" where
  "code_text Cancelled = ''c''"
| "code_text InvalidArgument = ''i''"
| "code_text (OtherCode n) = CHR ''o'' # replicate n (CHR ''1'')"

fun text_code :: "string \<Rightarrow> grpc_code" where
  "text_code t = (if t = ''c'' then Cancelled else if t = ''i'' then InvalidArgument
     else if t = ''12'' then OtherCode 12 else OtherCode (length t - 1))"

lemma text_code_text [simp]: "text_code (code_text c) = c"
  by (cases c) auto

definition ref_respond :: "status + bytes \<Rightarrow> wire_response" where
  "ref_respond r = (case r of
      Inl (Status c m) \<Rightarrow> \<lparr>wr_status = 200, wr_headers = [(''grpc-status'', code_text c), (''grpc-message'', m)], wr_body = []\<rparr>
    | Inr b \<Rightarrow> \<lparr>wr_status = 200, wr_headers = [], wr_body = b\<rparr>)"

definition ref_receive :: "wire_response \<Rightarrow> status + bytes" where
  "ref_receive r = (case wr_headers r of
      [] \<Rightarrow> Inr (wr_body r)
    | h # hs \<Rightarrow> Inl (Status (text_code (snd h)) (case hs of [] \<Rightarrow> [] | m # _ \<Rightarrow> snd m)))"

definition ref_too_large :: status where
  "ref_too_large = Status (OtherCode 11) ''message length too large''"

definition ref_serve ::
  "unit \<times> unit \<times> nat option \<times> nat option \<Rightarrow> ('s \<Rightarrow> bytes \<Rightarrow> 's \<times> (status + bytes) run) \<Rightarrow> 's serve" where
  "ref_serve z h s q = (case z of (_, _, limit, _) \<Rightarrow>
     if length (wq_body q) \<le> (case limit of None \<Rightarrow> default_limit | Some n \<Rightarrow> n)
     then bind_run (h s (wq_body q)) (\<lambda>s r. (s, Ret (ref_respond r)))
     else (s, Ret (ref_respond (Inl ref_too_large))))"

fun ref_route :: "(string \<times> 's serve) list \<Rightarrow> 's serve" where
  "ref_route [] s q = (s, Ret unimplemented)"
| "ref_route ((n, call) # svcs) s q =
     (if prefix (''/'' @ n @ ''/'') (wq_path q) then call s q else ref_route svcs s q)"

definition ref_tonic :: "('s, 's serve, unit) tonic" where
  "ref_tonic =
     \<lparr>to_ready = (\<lambda>s g. (s, Inr ())),
      to_unary = (\<lambda>s g c. (case g s \<lparr>wq_path = gc_path c, wq_body = gc_message c\<rparr> of
         (s', Ret r) \<Rightarrow> (s', ref_receive r) | (s', Panic p) \<Rightarrow> (s', Inl (status_cancelled [])))),
      to_serve = ref_serve, to_route = ref_route, to_bad_message = (\<lambda>e. Status (OtherCode 13) (err_display e)),
      to_plain = (), to_enable = (\<lambda>z n. ()),
      to_send = (\<lambda>c. \<lparr>wq_path = gc_path c, wq_body = gc_message c\<rparr>), to_respond = ref_respond,
      to_receive = ref_receive, to_too_large = ref_too_large, to_dead = status_cancelled []\<rparr>"

lemma ref_route_known:
  "no_slash_names svcs \<Longrightarrow> map_of svcs n = Some call \<Longrightarrow> wq_path q = ''/'' @ n @ ''/'' @ m \<Longrightarrow>
     ref_route svcs s q = call s q"
proof (induction svcs)
  case Nil
  then show ?case by simp
next
  case (Cons p svcs)
  obtain n' c' where p: "p = (n', c')" by fastforce
  have ns: "CHR ''/'' \<notin> set n'" using Cons.prems(1) p by (simp add: no_slash_names_def)
  have "CHR ''/'' \<notin> set n"
    using Cons.prems(1) map_of_SomeD [OF Cons.prems(2)] by (auto simp: no_slash_names_def image_iff)
  then have "prefix (n' @ ''/'') (n @ ''/'' @ m) \<longleftrightarrow> n' = n"
    using ns by (auto simp: prefix_def append_eq_append_conv2 append_eq_Cons_conv Cons_eq_append_conv)
  then show ?case using Cons p by (auto simp: no_slash_names_def)
qed

lemma ref_route_unknown:
  "(\<forall>n \<in> fst ` set svcs. \<not> prefix (''/'' @ n @ ''/'') (wq_path q)) \<Longrightarrow>
     ref_route svcs s q = (s, Ret unimplemented)"
  by (induction svcs) auto

lemma ref_receive_respond [simp]: "ref_receive (ref_respond r) = r"
  by (cases r) (auto simp: ref_receive_def ref_respond_def split: status.split simp del: text_code.simps)

lemma ref_receive_unimplemented: "ref_receive unimplemented = Inl (Status (OtherCode 12) ''application/grpc'')"
  by (simp add: ref_receive_def unimplemented_def)

lemma ref_tonic_laws: "tonic_laws ref_tonic"
  unfolding tonic_laws_def
proof (intro conjI allI impI)
  fix svcs :: "(string \<times> 's serve) list" and s :: 's and q :: wire_request
  assume "\<forall>n \<in> fst ` set svcs. \<not> prefix (''/'' @ n @ ''/'') (wq_path q)"
  then show "\<exists>resp m. to_route ref_tonic svcs s q = (s, Ret resp) \<and>
      to_receive ref_tonic resp = Inl (Status (OtherCode 12) m)"
    by (simp add: ref_tonic_def ref_route_unknown ref_receive_unimplemented)
qed (auto simp: ref_tonic_def ref_serve_def respond_def ref_receive_unimplemented intro: ref_route_known)

lemma ref_linked: "linked ref_tonic serve serve"
  by (simp add: linked_def ref_tonic_def split: prod.split run.split)

interpretation node_wire: grpc_transport ref_tonic
    "grpc_server_start ref_tonic C PC kvh rsh osh" "grpc_server_start ref_tonic C PC kvh rsh osh"
  for C PC kvh rsh osh
  by unfold_locales (rule ref_tonic_laws, rule ref_linked)

text \<open>
  C15: Every call reaches the handler of its name: for each of the nine methods of the generated
  clients, a call over a channel to a node's gRPC server has exactly the effect of the node's
  handler and returns its result, through the client's path, the router, the server's dispatch
  and both encodings; a request of more than four megabytes is refused and changes nothing.
\<close>

theorem calls_reach_handlers:
  assumes "tonic_laws T" and "client_laws C" and "placement_laws PC"
    and "linked T g (grpc_server_start T C PC kvh rsh osh)"
  shows "served_by T (pc_set C) (pc_common_reply C) (\<lambda>s. kv_client_set T C s g) (ks_set kvh) \<and>
    served_by T (pc_delete C) (pc_common_reply C) (\<lambda>s. kv_client_delete T C s g) (ks_delete kvh) \<and>
    served_by T (pc_get C) (pc_get_reply C) (\<lambda>s. kv_client_get T C s g) (ks_get kvh) \<and>
    served_by T (pc_exists C) (pc_exists_reply C) (\<lambda>s. kv_client_exists T C s g) (ks_exists kvh) \<and>
    served_by T (pp_message PC) (pp_message_reply PC)
      (\<lambda>s. placement_client_send_raft_message T PC s g) (ps_send_raft_message rsh) \<and>
    served_by T (pp_change PC) (pp_change_reply PC)
      (\<lambda>s. placement_client_send_raft_conf_change T PC s g) (ps_send_raft_conf_change rsh) \<and>
    served_by T (pc_vote C) (pc_vote_reply C) (\<lambda>s. openraft_client_vote T C s g) (os_vote osh) \<and>
    served_by T (pc_append C) (pc_append_reply C) (\<lambda>s. openraft_client_append T C s g) (os_append osh) \<and>
    served_by T (pc_snapshot C) (pc_snapshot_reply C) (\<lambda>s. openraft_client_snapshot T C s g) (os_snapshot osh)"
  by (rule calls_served [OF assms])

text \<open>
  A path that is none of the nine is answered by code 12, Unimplemented, at every node and
  whatever the message: no handler runs and the node's state is as it was.
\<close>

lemma unknown_path_unimplemented:
  assumes "tonic_laws T" and "linked T g (grpc_server_start T C PC kvh rsh osh)"
    and "path \<notin> set grpc_paths"
  shows "\<exists>m. client_call T Q P path method s g req = (s, Inl (Status (OtherCode 12) m))"
  by (rule unknown_refused [OF assms])

definition ref_placement :: placement_codecs where
  "ref_placement =
     \<lparr>pp_message = bytes_prost (\<lambda>b. \<lparr>srm_message = b\<rparr>) srm_message, pp_message_reply = unit_prost SendRaftMessageReply,
      pp_change = bytes_prost (\<lambda>b. \<lparr>srcc_message = b\<rparr>) srcc_message, pp_change_reply = unit_prost SendRaftConfChangeReply\<rparr>"

lemma ref_placement_laws: "placement_laws ref_placement"
  by (simp add: placement_laws_def ref_placement_def bytes_prost_laws)
    (simp add: prost_laws_def unit_prost_def, metis send_raft_message_reply.exhaust send_raft_conf_change_reply.exhaust)

text \<open>A node that records keys and answers reads with the key itself.\<close>

definition ref_kv_service :: "string list kv_service" where
  "ref_kv_service =
     \<lparr>ks_set = (\<lambda>s q. (s @ [set_key q], Ret (Inr CommonReply))), ks_delete = (\<lambda>s q. (s, Panic UnwrapErr)),
      ks_get = (\<lambda>s q. (s, Ret (Inr \<lparr>getr_value = getq_key q\<rparr>))),
      ks_exists = (\<lambda>s q. (s, Ret (Inr \<lparr>exr_flag = True\<rparr>)))\<rparr>"

definition ref_raft_service :: "string list placement_center_srv" where
  "ref_raft_service =
     \<lparr>ps_send_raft_message = (\<lambda>s q. (s, Ret (Inr SendRaftMessageReply))),
      ps_send_raft_conf_change = (\<lambda>s q. (s, Ret (Inl (status_cancelled []))))\<rparr>"

definition ref_openraft_service :: "string list open_raft_service" where
  "ref_openraft_service =
     \<lparr>os_vote = (\<lambda>s q. (s, Ret (Inr \<lparr>vr_value = vq_value q\<rparr>))),
      os_append = (\<lambda>s q. (s, Ret (Inr \<lparr>ar_value = []\<rparr>))), os_snapshot = (\<lambda>s q. (s, Panic UnwrapErr))\<rparr>"

definition ref_node :: "string list serve" where
  "ref_node = grpc_server_start ref_tonic ref_client ref_placement ref_kv_service ref_raft_service ref_openraft_service"

lemma calls_reach_handlers_witness:
  "kv_client_get ref_tonic ref_client [''a''] ref_node \<lparr>getq_key = ''k''\<rparr> = ([''a''], Inr \<lparr>getr_value = ''k''\<rparr>)"
proof -
  have "served_by ref_tonic (pc_get ref_client) (pc_get_reply ref_client)
      (\<lambda>s. kv_client_get ref_tonic ref_client s ref_node) (ks_get ref_kv_service)"
    using calls_reach_handlers [OF ref_tonic_laws ref_client_laws ref_placement_laws ref_linked,
        of ref_kv_service ref_raft_service ref_openraft_service]
    unfolding ref_node_def by blast
  then have "kv_client_get ref_tonic ref_client [''a''] ref_node \<lparr>getq_key = ''k''\<rparr> =
    deliver (to_dead (ref_tonic :: (string list, string list serve, unit) tonic)) (ks_get ref_kv_service [''a''] \<lparr>getq_key = ''k''\<rparr>)"
    by (rule served_byD [where stub = "\<lambda>s. kv_client_get ref_tonic ref_client s ref_node"])
      (auto simp: fits_def default_limit_def ref_client_def string_prost_def bytes_prost_def str_bytes_def ref_kv_service_def)
  then show ?thesis by (simp add: ref_kv_service_def deliver_def)
qed

lemma unknown_path_unimplemented_witness:
  "\<exists>m. client_call ref_tonic (pc_get ref_client) (pc_get_reply ref_client) ''/kv.KvService/Get'' (''kv.KvService'', ''Get'')
     [''a''] ref_node \<lparr>getq_key = ''k''\<rparr> = ([''a''], Inl (Status (OtherCode 12) m))"
  unfolding ref_node_def
  by (rule unknown_path_unimplemented [OF ref_tonic_laws ref_linked]) (simp add: grpc_paths_def)

end
