(* ===== verification/End_To_End.thy ===== *)
theory End_To_End
  imports Grpc_Node
begin

section \<open>From the client functions to another node's handlers\<close>

text \<open>
  The client functions of \<open>src/clients\<close> over the generated clients, against a node's gRPC server:
  what the properties that span all of them share.  The world of the client is the state of the
  node that is called.
\<close>

text \<open>The client environment whose stubs are the methods of the generated clients.\<close>

definition stub_env :: "('s, 'g, 'z) tonic \<Rightarrow> ('s, 'g, 'g) client_env \<Rightarrow> ('s, 'g, 'g) client_env" where
  "stub_env T C = C
     \<lparr>ce_set := kv_client_set T C, ce_delete := kv_client_delete T C,
      ce_get := kv_client_get T C, ce_exists := kv_client_exists T C,
      ce_vote := openraft_client_vote T C, ce_append := openraft_client_append T C,
      ce_snapshot := openraft_client_snapshot T C\<rparr>"

lemma stub_env_simps [simp]:
  "ce_kv_get (stub_env T C) = ce_kv_get C" "ce_openraft_get (stub_env T C) = ce_openraft_get C"
  "ce_set (stub_env T C) = kv_client_set T C" "ce_get (stub_env T C) = kv_client_get T C"
  "ce_vote (stub_env T C) = openraft_client_vote T C" "ce_append (stub_env T C) = openraft_client_append T C"
  "ce_snapshot (stub_env T C) = openraft_client_snapshot T C"
  "pc_set (stub_env T C) = pc_set C" "pc_common_reply (stub_env T C) = pc_common_reply C"
  "pc_get (stub_env T C) = pc_get C" "pc_get_reply (stub_env T C) = pc_get_reply C"
  by (simp_all add: stub_env_def)

lemma client_laws_stub_env [simp]: "client_laws (stub_env T C) = client_laws C"
  by (simp add: client_laws_def stub_env_def)

lemma kv_call_over_stub:
  assumes "pools_ok cp" and "ce_kv_get C s \<lparr>pl_addr = a, pl_max_open = cp_max_open_connection cp\<rparr> = (s, Inr g)"
  shows "\<exists>cp'. pools_ok cp' \<and> cp_max_open_connection cp' = cp_max_open_connection cp \<and>
    kv_interface_call C Iface_Set a request (s, cp) = inner_set C g request (s, cp')"
proof -
  obtain cp' where cp': "pools_ok cp'" "cp_max_open_connection cp' = cp_max_open_connection cp"
    "placement_center_kv_services_client C a (s, cp) = ((s, cp'), Inr g)"
    using kv_client_eq [OF assms(1), of a] assms(2) by (metis case_prod_conv map_err.simps(2))
  then show ?thesis by (auto simp: kv_interface_call_def and_then_def)
qed

text \<open>A single address whose call always fails and adds \<open>x\<close> is called four times.\<close>

lemma retry_loop_four:
  assumes step: "\<And>q cp. P cp \<Longrightarrow> \<exists>cp'. P cp' \<and> call a (f q, cp) = ((f (q @ [x]), cp'), Inl e)"
    and "P cp"
  shows "\<exists>cp'. P cp' \<and>
    retry_loop call [a] 1 (f q, cp) = ((((f (q @ replicate 4 x)), cp'), [a, a, a, a], [4, 6, 8]), Ret (Inl e))"
proof -
  obtain c1 where c1: "P c1" "call a (f q, cp) = ((f (q @ [x]), c1), Inl e)"
    using step [OF assms(2)] by blast
  obtain c2 where c2: "P c2" "call a (f (q @ [x]), c1) = ((f (q @ [x, x]), c2), Inl e)"
    using step [OF c1(1), of "q @ [x]"] by auto
  obtain c3 where c3: "P c3" "call a (f (q @ [x, x]), c2) = ((f (q @ [x, x, x]), c3), Inl e)"
    using step [OF c2(1), of "q @ [x, x]"] by auto
  obtain c4 where c4: "P c4" "call a (f (q @ [x, x, x]), c3) = ((f (q @ [x, x, x, x]), c4), Inl e)"
    using step [OF c3(1), of "q @ [x, x, x]"] by auto
  have "retry_loop call [a] 4 (f (q @ [x, x, x]), c3) = (((f (q @ [x, x, x, x]), c4), [a], []), Ret (Inl e))"
    by (subst retry_loop.simps) (simp add: c4 retry_times_def)
  then have "retry_loop call [a] 3 (f (q @ [x, x]), c2) = (((f (q @ [x, x, x, x]), c4), [a, a], [8]), Ret (Inl e))"
    by (subst retry_loop.simps) (simp add: c3 retry_times_def retry_sleep_time_def)
  then have "retry_loop call [a] 2 (f (q @ [x]), c1) = (((f (q @ [x, x, x, x]), c4), [a, a, a], [6, 8]), Ret (Inl e))"
    by (subst retry_loop.simps) (simp add: c2 retry_times_def retry_sleep_time_def)
  then have "retry_loop call [a] 1 (f q, cp) = (((f (q @ [x, x, x, x]), c4), [a, a, a, a], [4, 6, 8]), Ret (Inl e))"
    by (subst retry_loop.simps) (simp add: c1 retry_times_def retry_sleep_time_def)
  then show ?thesis using c4(1) by (auto simp: numeral_eq_Suc)
qed

subsection \<open>A write on the leader\<close>

text \<open>The proposal a set request becomes.\<close>

definition set_proposal :: "route_codecs \<Rightarrow> set_request \<Rightarrow> 'c \<Rightarrow> ('m, 'cc, 'c) raft_message" where
  "set_proposal W req sx =
     Propose (bc_bytes (bc_storage_data W) (storage_data_new KvSet (pb_encode (pb_set_request W) req))) sx"

lemma leader_handles_set:
  assumes "bincode_laws (bc_storage_data W)" and "is_leader (ns_cluster s)"
    and "set_key req \<noteq> []" and "set_value req \<noteq> []"
  shows "ks_set (grpc_kv_services sd C2 W E sx rx) s req =
    (s\<lparr>ns_queue := ns_queue s @ [set_proposal W req sx]\<rparr>,
     Ret (if wait_recv_chan_resp rx then Inr CommonReply
          else Inl (status_cancelled (error_string sd (RaftLogCommitTimeout ''set'')))))"
  using assms(2-)
  by (simp add: grpc_kv_services_def on_net_def grpc_kv_set_def proposal_eq [OF assms(1)] proposed_def enqueue_def
      set_proposal_def)

lemma inner_set_over_stub:
  assumes "tonic_laws T" and "client_laws C" and "placement_laws PC"
    and "linked T g (grpc_server_start T C PC kvh rsh osh)"
    and "fits (pc_set C) req" and "fits (pc_common_reply C) CommonReply"
  shows "inner_set (stub_env T C) g (pb_encode (pc_set C) req) (s, cp) =
    (let (s', r) = deliver (to_dead T) (ks_set kvh s req)
     in ((s', cp), map_err GrpcServerStatus (map_sum id (pb_encode (pc_common_reply C)) r)))"
proof -
  have "served_by T (pc_set C) (pc_common_reply C) (\<lambda>s. kv_client_set T C s g) (ks_set kvh)"
    using calls_served [OF assms(1-4)] by blast
  then have "kv_client_set T C s g req = deliver (to_dead T) (ks_set kvh s req)"
    using assms(5,6) by (metis common_reply.exhaust served_byD)
  moreover have "prost_laws (pc_set C)" using assms(2) by (simp add: client_laws_def)
  ultimately show ?thesis by (simp add: inner_set_def inner_call_encoded)
qed

lemma set_proposal_decodes:
  assumes "bincode_laws (bc_storage_data W)" and "prost_laws (pb_set_request W)"
  shows "\<exists>b v. set_proposal W req sx = Propose b sx \<and>
    bc_deserialize (bc_storage_data W) b = Inr \<lparr>sd_data_type = KvSet, sd_value = v\<rparr> \<and>
    pb_decode (pb_set_request W) v = Inr req"
  by (simp add: set_proposal_def storage_data_new_def bincode_roundtrip [OF assms(1)] prost_roundtrip [OF assms(2)])

lemma leader_write:
  assumes "tonic_laws T" and "client_laws C" and "placement_laws PC" and "bincode_laws (bc_storage_data W)"
    and "linked T g (grpc_server_start T C PC (grpc_kv_services sd C2 W E sx rx) rsh osh)"
    and conn: "\<And>s. ce_kv_get C s \<lparr>pl_addr = a, pl_max_open = cp_max_open_connection cp\<rparr> = (s, Inr g)"
    and "pools_ok cp" and "is_leader (ns_cluster s)" and "set_key req \<noteq> []" and "set_value req \<noteq> []"
    and "fits (pc_set C) req" and "fits (pc_common_reply C) CommonReply"
  shows "\<exists>cp'. pools_ok cp' \<and> placement_set (stub_env T C) [a] req (s, cp) =
    (if wait_recv_chan_resp rx
     then ((s\<lparr>ns_queue := ns_queue s @ [set_proposal W req sx]\<rparr>, cp'), Ret (Inr CommonReply))
     else ((s\<lparr>ns_queue := ns_queue s @ replicate 4 (set_proposal W req sx)\<rparr>, cp'),
       Ret (Inl (GrpcServerStatus (status_cancelled (error_string sd (RaftLogCommitTimeout ''set'')))))))"
proof -
  let ?x = "set_proposal W req sx" and ?req = "pb_encode (pc_set C) req"
  let ?f = "\<lambda>q. s\<lparr>ns_queue := q\<rparr>"
  let ?e = "GrpcServerStatus (status_cancelled (error_string sd (RaftLogCommitTimeout ''set'')))"
  let ?P = "\<lambda>c. pools_ok c \<and> cp_max_open_connection c = cp_max_open_connection cp"
  let ?call = "\<lambda>addr. kv_interface_call (stub_env T C) Iface_Set addr ?req"
  have one: "\<exists>c'. ?P c' \<and> ?call a (?f q, c) =
      ((?f (q @ [?x]), c'), if wait_recv_chan_resp rx then Inr (pb_encode (pc_common_reply C) CommonReply) else Inl ?e)"
    if "?P c" for q c
  proof -
    have "ce_kv_get (stub_env T C) (?f q) \<lparr>pl_addr = a, pl_max_open = cp_max_open_connection c\<rparr> = (?f q, Inr g)"
      using conn that by simp
    from kv_call_over_stub [OF _ this, of ?req] that obtain c' where c': "?P c'"
      "?call a (?f q, c) = inner_set (stub_env T C) g ?req (?f q, c')"
      by auto
    have "ks_set (grpc_kv_services sd C2 W E sx rx) (?f q) req = (?f (q @ [?x]),
        Ret (if wait_recv_chan_resp rx then Inr CommonReply
             else Inl (status_cancelled (error_string sd (RaftLogCommitTimeout ''set'')))))"
      using leader_handles_set [OF assms(4), of "?f q" req sd C2 E sx rx] assms(8-10) by simp
    then show ?thesis
      using c' inner_set_over_stub [OF assms(1-3,5,11,12), of "?f q" c'] by (auto simp: deliver_def)
  qed
  show ?thesis
  proof (cases "wait_recv_chan_resp rx")
    case True
    with one [of cp "ns_queue s"] assms(7) obtain c' where "pools_ok c'"
      "?call a (s, cp) = ((?f (ns_queue s @ [?x]), c'), Inr (pb_encode (pc_common_reply C) CommonReply))" by auto
    moreover have "prost_laws (pc_common_reply C)" using assms(2) by (simp add: client_laws_def)
    ultimately show ?thesis
      using True unfolding placement_set_def by (auto intro!: exI [of _ c'] placement_call_single)
  next
    case False
    have "\<exists>cp'. ?P cp' \<and> retry_loop ?call [a] 1 (?f (ns_queue s), cp) =
      ((((?f (ns_queue s @ replicate 4 ?x)), cp'), [a, a, a, a], [4, 6, 8]), Ret (Inl ?e))"
      by (rule retry_loop_four) (use one False assms(7) in auto)
    then show ?thesis
      using False by (auto simp: placement_set_def placement_call_def retry_call_def simp del: retry_loop.simps)
  qed
qed

subsection \<open>A read\<close>

lemma node_read:
  assumes "tonic_laws T" and "client_laws C" and "placement_laws PC"
    and "linked T g (grpc_server_start T C PC (grpc_kv_services sd C2 W E sx rx) rsh osh)"
    and "ce_kv_get C s \<lparr>pl_addr = a, pl_max_open = cp_max_open_connection cp\<rparr> = (s, Inr g)" and "pools_ok cp"
    and "grpc_kv_get sd E (ns_db s) req = Inr rep" and "fits (pc_get C) req" and "fits (pc_get_reply C) rep"
  shows "\<exists>cp'. pools_ok cp' \<and> placement_get (stub_env T C) [a] req (s, cp) = ((s, cp'), Ret (Inr rep))"
proof -
  let ?h = "grpc_kv_services sd C2 W E sx rx"
  have served: "served_by T (pc_get C) (pc_get_reply C) (\<lambda>s. kv_client_get T C s g) (ks_get ?h)"
    using calls_served [OF assms(1-4)] by blast
  have h: "ks_get ?h s req = (s, Ret (Inr rep))" using assms(7) by (simp add: grpc_kv_services_def)
  have "kv_client_get T C s g req = deliver (to_dead T) (ks_get ?h s req)"
    by (rule served_byD [OF served assms(8)]) (use h assms(9) in simp)
  then have "ce_get (stub_env T C) s g req = (s, Inr rep)" by (simp add: h deliver_def)
  then show ?thesis
    using kv_calls_deliver [of "stub_env T C" cp s a s g] assms(2,5,6) by auto
qed

subsection \<open>Calls between openraft nodes\<close>

text \<open>A method of the openraft node as a step of the whole node.\<close>

definition on_raft ::
  "('n \<Rightarrow> 'q \<Rightarrow> 'n \<times> 'r) \<Rightarrow> ('w, 'msg, 'db, 'n) node_state \<Rightarrow> 'q \<Rightarrow> ('w, 'msg, 'db, 'n) node_state \<times> 'r" where
  "on_raft f s q = (case f (ns_openraft s) q of (n, r) \<Rightarrow> (s\<lparr>ns_openraft := n\<rparr>, r))"

lemma on_openraft_handle:
  "on_openraft (\<lambda>n. map_reply mk (openraft_handle Q R f n b)) s = map_reply mk (openraft_handle Q R (on_raft f) s b)"
  by (simp add: on_openraft_def openraft_handle_def on_raft_def map_reply_def bind_run_def
      split: sum.split prod.split run.split)

lemma openraft_services_on_node:
  "os_vote (grpc_openraft_services (Qv, Rv, vote) A S) s r1 = openraft_service_vote Qv Rv (on_raft vote) s r1"
  "os_append (grpc_openraft_services V (Qa, Ra, app) S) s r2 = openraft_service_append Qa Ra (on_raft app) s r2"
  "os_snapshot (grpc_openraft_services V A (Qs, Rs, inst)) s r3 = openraft_service_snapshot Qs Rs (on_raft inst) s r3"
  by (cases V; cases A; cases S;
      simp add: grpc_openraft_services_def openraft_service_vote_def openraft_service_append_def
        openraft_service_snapshot_def on_openraft_handle)+

lemma handled_reply:
  assumes "bincode_laws Q" and "bincode_laws R"
    and "map_reply mk (openraft_handle Q R (on_raft f) s (bc_bytes Q req)) = (s', Ret (Inr rep))"
  shows "\<exists>x. snd (f (ns_openraft s) req) = Inr x \<and> rep = mk (bc_bytes R x)"
proof -
  obtain n r where "f (ns_openraft s) req = (n, r)" by fastforce
  then show ?thesis
    using assms(3)
    by (cases r) (auto simp: openraft_handle_eq [OF assms(1,2)] on_raft_def map_reply_def bind_run_def)
qed

text \<open>What a call to a peer comes to: the method's effect there, and its result as the caller sees it.\<close>

abbreviation peer_outcome ::
  "(status \<Rightarrow> string) \<Rightarrow> ('n \<Rightarrow> 'q \<Rightarrow> 'n \<times> (ext_error + 'r)) \<Rightarrow> ('w, 'msg, 'db, 'n) node_state \<Rightarrow> 'q \<Rightarrow> client_pool \<Rightarrow>
   (('w, 'msg, 'db, 'n) node_state \<times> client_pool) \<times> (rpc_error + 'r)" where
  "peer_outcome sd f s q cp \<equiv>
     ((s\<lparr>ns_openraft := fst (f (ns_openraft s) q)\<rparr>, cp),
      map_err (\<lambda>e. Unreachable (CommmonError (sd (status_cancelled (err_display e))))) (snd (f (ns_openraft s) q)))"

text \<open>A call whose stub is served by the node's handler.\<close>

lemma remote_call_served:
  assumes "pools_ok cp" and "bincode_laws Q" and "bincode_laws R"
    and "ce_openraft_get C s \<lparr>pl_addr = nc_addr nc, pl_max_open = cp_max_open_connection cp\<rparr> = (s, Inr g)"
    and "served_by T PQ PR stub (\<lambda>s r. map_reply mk (openraft_handle Q R (on_raft f) s (un r)))"
    and "\<And>b. get (mk b) = b" and "\<And>b. un (mq b) = b"
    and "call s g (bc_bytes Q req) = map_prod id (map_sum id get) (stub s (mq (bc_bytes Q req)))"
    and "fits PQ (mq (bc_bytes Q req))"
    and "\<And>x. snd (f (ns_openraft s) req) = Inr x \<Longrightarrow> fits PR (mk (bc_bytes R x))"
  shows "\<exists>cp'. pools_ok cp' \<and> network_call sd C nc Q R call req (s, cp) = peer_outcome sd f s req cp'"
proof -
  let ?h = "map_reply mk (openraft_handle Q R (on_raft f) s (bc_bytes Q req))"
  have "stub s (mq (bc_bytes Q req)) = deliver (to_dead T) ?h"
    using served_byD [OF assms(5,9), of s] handled_reply [OF assms(2,3), of mk f s req] assms(10)
    by (auto simp: assms(7))
  then have "call s g (bc_bytes Q req) = deliver (to_dead T) (openraft_handle Q R (on_raft f) s (bc_bytes Q req))"
    using strip_reply [of get mk "to_dead T"] assms(6,8) by (simp add: id_def)
  from network_call_eq [OF assms(1-4), where f = "on_raft f" and dead = "to_dead T" and sd = sd and call = call, OF this]
  show ?thesis by (auto simp: on_raft_def split: prod.splits)
qed

lemma served_openraft:
  assumes "tonic_laws T" and "client_laws C" and "placement_laws PC"
    and "linked T g (grpc_server_start T C PC kvh rsh
      (grpc_openraft_services (Qv, Rv, vote) (Qa, Ra, app) (Qs, Rs, inst)))"
  shows "served_by T (pc_vote C) (pc_vote_reply C) (\<lambda>s. openraft_client_vote T C s g)
      (\<lambda>s r. map_reply (\<lambda>b. \<lparr>vr_value = b\<rparr>) (openraft_handle Qv Rv (on_raft vote) s (vq_value r)))"
    and "served_by T (pc_append C) (pc_append_reply C) (\<lambda>s. openraft_client_append T C s g)
      (\<lambda>s r. map_reply (\<lambda>b. \<lparr>ar_value = b\<rparr>) (openraft_handle Qa Ra (on_raft app) s (aq_value r)))"
    and "served_by T (pc_snapshot C) (pc_snapshot_reply C) (\<lambda>s. openraft_client_snapshot T C s g)
      (\<lambda>s r. map_reply (\<lambda>b. \<lparr>sr_value = b\<rparr>) (openraft_handle Qs Rs (on_raft inst) s (sq_value r)))"
  using calls_served [OF assms]
  by (simp_all add: served_by_def openraft_services_on_node openraft_service_vote_def
      openraft_service_append_def openraft_service_snapshot_def)

lemma openraft_over_stub:
  assumes "tonic_laws T" and "client_laws C" and "placement_laws PC"
    and "linked T g (grpc_server_start T C PC kvh rsh
      (grpc_openraft_services (Qv, Rv, vote) (Qa, Ra, app) (Qs, Rs, inst)))"
    and conn: "ce_openraft_get C s \<lparr>pl_addr = nc_addr nc, pl_max_open = cp_max_open_connection cp\<rparr> = (s, Inr g)"
    and "pools_ok cp"
    and "bincode_laws Qv" and "bincode_laws Rv" and "bincode_laws Qa" and "bincode_laws Ra"
    and "bincode_laws Qs" and "bincode_laws Rs"
  shows "fits (pc_vote C) \<lparr>vq_value = bc_bytes Qv v\<rparr> \<Longrightarrow>
      (\<And>x. snd (vote (ns_openraft s) v) = Inr x \<Longrightarrow> fits (pc_vote_reply C) \<lparr>vr_value = bc_bytes Rv x\<rparr>) \<Longrightarrow>
      \<exists>cp'. pools_ok cp' \<and> connection_vote sd (stub_env T C) nc Qv Rv v (s, cp) = peer_outcome sd vote s v cp'"
    and "fits (pc_append C) \<lparr>aq_value = bc_bytes Qa r\<rparr> \<Longrightarrow>
      (\<And>x. snd (app (ns_openraft s) r) = Inr x \<Longrightarrow> fits (pc_append_reply C) \<lparr>ar_value = bc_bytes Ra x\<rparr>) \<Longrightarrow>
      \<exists>cp'. pools_ok cp' \<and> connection_append_entries sd (stub_env T C) nc Qa Ra r (s, cp) = peer_outcome sd app s r cp'"
    and "fits (pc_snapshot C) \<lparr>sq_value = bc_bytes Qs z\<rparr> \<Longrightarrow>
      (\<And>x. snd (inst (ns_openraft s) z) = Inr x \<Longrightarrow> fits (pc_snapshot_reply C) \<lparr>sr_value = bc_bytes Rs x\<rparr>) \<Longrightarrow>
      \<exists>cp'. pools_ok cp' \<and> connection_install_snapshot sd (stub_env T C) nc Qs Rs z (s, cp) = peer_outcome sd inst s z cp'"
proof -
  note served = served_openraft [OF assms(1-4)]
  have conn': "ce_openraft_get (stub_env T C) s \<lparr>pl_addr = nc_addr nc, pl_max_open = cp_max_open_connection cp\<rparr> = (s, Inr g)"
    using conn by simp
  note remote = remote_call_served [OF assms(6) _ _ conn']
  show "\<exists>cp'. pools_ok cp' \<and> connection_vote sd (stub_env T C) nc Qv Rv v (s, cp) = peer_outcome sd vote s v cp'"
    if "fits (pc_vote C) \<lparr>vq_value = bc_bytes Qv v\<rparr>"
      "\<And>x. snd (vote (ns_openraft s) v) = Inr x \<Longrightarrow> fits (pc_vote_reply C) \<lparr>vr_value = bc_bytes Rv x\<rparr>"
    unfolding connection_vote_def
    by (rule remote [OF assms(7,8) served(1), where get = vr_value and mq = "\<lambda>b. \<lparr>vq_value = b\<rparr>"]) (simp_all add: that)
  show "\<exists>cp'. pools_ok cp' \<and> connection_append_entries sd (stub_env T C) nc Qa Ra r (s, cp) = peer_outcome sd app s r cp'"
    if "fits (pc_append C) \<lparr>aq_value = bc_bytes Qa r\<rparr>"
      "\<And>x. snd (app (ns_openraft s) r) = Inr x \<Longrightarrow> fits (pc_append_reply C) \<lparr>ar_value = bc_bytes Ra x\<rparr>"
    unfolding connection_append_entries_def
    by (rule remote [OF assms(9,10) served(2), where get = ar_value and mq = "\<lambda>b. \<lparr>aq_value = b\<rparr>"]) (simp_all add: that)
  show "\<exists>cp'. pools_ok cp' \<and> connection_install_snapshot sd (stub_env T C) nc Qs Rs z (s, cp) = peer_outcome sd inst s z cp'"
    if "fits (pc_snapshot C) \<lparr>sq_value = bc_bytes Qs z\<rparr>"
      "\<And>x. snd (inst (ns_openraft s) z) = Inr x \<Longrightarrow> fits (pc_snapshot_reply C) \<lparr>sr_value = bc_bytes Rs x\<rparr>"
    unfolding connection_install_snapshot_def
    by (rule remote [OF assms(11,12) served(3), where get = sr_value and mq = "\<lambda>b. \<lparr>sq_value = b\<rparr>"]) (simp_all add: that)
qed

subsection \<open>A reference cluster\<close>

text \<open>One reachable node, \<open>b:1\<close>, behind the channel \<open>g\<close>, with the codecs of the reference client.\<close>

definition ref_cluster :: "'g \<Rightarrow> ('s, 'g, 'g) client_env" where
  "ref_cluster g =
     \<lparr>ce_kv_get = (\<lambda>s p. (s, if pl_addr p = ''b:1'' then Inr g else Inl parse_error)),
      ce_openraft_get = (\<lambda>s p. (s, if pl_addr p = ''b:1'' then Inr g else Inl parse_error)),
      ce_set = (\<lambda>s c r. (s, Inl (status_cancelled []))), ce_delete = (\<lambda>s c r. (s, Inl (status_cancelled []))),
      ce_get = (\<lambda>s c r. (s, Inl (status_cancelled []))), ce_exists = (\<lambda>s c r. (s, Inl (status_cancelled []))),
      ce_vote = (\<lambda>s c r. (s, Inl (status_cancelled []))), ce_append = (\<lambda>s c r. (s, Inl (status_cancelled []))),
      ce_snapshot = (\<lambda>s c r. (s, Inl (status_cancelled []))),
      pc_set = pc_set ref_client, pc_delete = pc_delete ref_client, pc_get = pc_get ref_client,
      pc_exists = pc_exists ref_client, pc_common_reply = pc_common_reply ref_client,
      pc_get_reply = pc_get_reply ref_client, pc_exists_reply = pc_exists_reply ref_client,
      pc_vote = pc_vote ref_client, pc_append = pc_append ref_client, pc_snapshot = pc_snapshot ref_client,
      pc_vote_reply = pc_vote_reply ref_client, pc_append_reply = pc_append_reply ref_client,
      pc_snapshot_reply = pc_snapshot_reply ref_client\<rparr>"

lemma ref_cluster_laws: "client_laws (ref_cluster g)"
  using ref_client_laws by (simp add: client_laws_def ref_cluster_def)

lemma ref_cluster_codecs [simp]:
  "pc_set (ref_cluster g) = pc_set ref_client" "pc_get (ref_cluster g) = pc_get ref_client"
  "pc_common_reply (ref_cluster g) = pc_common_reply ref_client" "pc_get_reply (ref_cluster g) = pc_get_reply ref_client"
  "pc_vote (ref_cluster g) = pc_vote ref_client" "pc_vote_reply (ref_cluster g) = pc_vote_reply ref_client"
  by (simp_all add: ref_cluster_def)

lemma ref_cluster_calls:
  "kv_server_call T (ref_cluster g) = kv_server_call T ref_client"
  "openraft_server_call T (ref_cluster g) = openraft_server_call T ref_client"
  by (simp_all add: fun_eq_iff kv_server_call_def openraft_server_call_def ref_cluster_def)

lemma ref_cluster_server:
  "grpc_server_start T (ref_cluster g) PC kvh rsh osh = grpc_server_start T ref_client PC kvh rsh osh"
  by (simp add: grpc_server_start_def ref_cluster_calls)

lemma ref_cluster_linked:
  "linked ref_tonic (grpc_server_start ref_tonic ref_client PC kvh rsh osh)
     (grpc_server_start ref_tonic (ref_cluster g) PC kvh rsh osh)"
  by (simp add: ref_cluster_server ref_linked)

lemma ref_cluster_connection:
  "ce_kv_get (ref_cluster g) s \<lparr>pl_addr = ''b:1'', pl_max_open = n\<rparr> = (s, Inr g)"
  "ce_openraft_get (ref_cluster g) s \<lparr>pl_addr = ''b:1'', pl_max_open = n\<rparr> = (s, Inr g)"
  by (simp_all add: ref_cluster_def)

type_synonym ref_state = "((string \<times> string) list, (unit, unit, nat) raft_message, mem_db, string list) node_state"

definition ref_state :: "mem_db \<Rightarrow> ref_state" where
  "ref_state db = \<lparr>ns_net = ([], client_pool_new 3), ns_cluster = ref_leader_meta, ns_queue = [], ns_db = db,
     ns_openraft = []\<rparr>"

text \<open>The node's openraft methods: a vote is recorded and echoed, the others fail.\<close>

definition ref_vote :: "string list \<Rightarrow> string \<Rightarrow> string list \<times> (ext_error + string)" where
  "ref_vote n q = (n @ [q], Inr q)"

definition ref_refuse :: "string list \<Rightarrow> string \<Rightarrow> string list \<times> (ext_error + string)" where
  "ref_refuse n q = (n, Inl parse_error)"

definition ref_channel :: "reply \<Rightarrow> ref_state serve" where
  "ref_channel rx = grpc_server_start ref_tonic ref_client ref_placement
     (grpc_kv_services status_message ref_client ref_codecs ref_env 7 rx)
     (grpc_raft_services status_message (unit_prost ()) (unit_prost ()) 7 rx)
     (grpc_openraft_services (ref_echo, ref_echo, ref_vote) (ref_echo, ref_echo, ref_refuse) (ref_echo, ref_echo, ref_refuse))"

lemma ref_channel_linked:
  "linked ref_tonic (ref_channel rx) (grpc_server_start ref_tonic (ref_cluster (ref_channel rx)) ref_placement
     (grpc_kv_services status_message ref_client ref_codecs ref_env 7 rx)
     (grpc_raft_services status_message (unit_prost ()) (unit_prost ()) 7 rx)
     (grpc_openraft_services (ref_echo, ref_echo, ref_vote) (ref_echo, ref_echo, ref_refuse) (ref_echo, ref_echo, ref_refuse)))"
  unfolding ref_channel_def by (rule ref_cluster_linked)

lemma length_fmt_string [simp]: "length (put_fmt fmt_string s) = 2 * length s + 1"
proof -
  have "length (put_list fmt_u8 bs) = 2 * length bs + 1" for bs
    by (induction bs) (simp_all add: fmt_u8_def)
  then show ?thesis by (simp add: fmt_string_def fmt_map_def fmt_list_def str_bytes_def)
qed

lemma ref_set_fits: "fits (pc_set ref_client) \<lparr>set_key = ''k'', set_value = ''v''\<rparr>"
  by (simp add: fits_def default_limit_def ref_client_def ref_codecs_def tagged_prost_def fmt_map_def fmt_pair_def
      flip: fmt_string_def)

lemma ref_common_reply_fits: "fits (pc_common_reply ref_client) CommonReply"
  by (simp add: fits_def default_limit_def ref_client_def unit_prost_def)

lemma ref_get_fits: "fits (pc_get ref_client) \<lparr>getq_key = ''k2''\<rparr>" "fits (pc_get_reply ref_client) \<lparr>getr_value = ''b''\<rparr>"
  by (simp_all add: fits_def default_limit_def ref_client_def string_prost_def bytes_prost_def str_bytes_def)

lemma ref_vote_fits:
  "fits (pc_vote ref_client) \<lparr>vq_value = bc_bytes ref_echo ''e''\<rparr>"
  "fits (pc_vote_reply ref_client) \<lparr>vr_value = bc_bytes ref_echo ''e''\<rparr>"
  by (simp_all add: fits_def default_limit_def ref_client_def bytes_prost_def ref_echo_def bc_bytes_def ref_bincode_def)

end
