(* ===== verification/Peers.thy ===== *)
theory Peers
  imports Grpc_Setup End_To_End Raft_Machine_Props
begin

section \<open>Raft messages between nodes of the raft-rs path\<close>

text \<open>
  From \<open>RaftMachine::send_message\<close> of one node over the queue of \<open>raft/peer.rs\<close>, the generated
  client, the other node's router and its \<open>services_raft.rs\<close> to the other machine's queue.  The
  world is the state of every node, by the address it listens on.
\<close>

subsection \<open>The nodes and the sender\<close>

type_synonym ('w, 'msg, 'db, 'n) nodes = "string \<Rightarrow> ('w, 'msg, 'db, 'n) node_state"

definition at_addr :: "string \<Rightarrow> ('s, 'q, 'p) handler \<Rightarrow> (string \<Rightarrow> 's, 'q, 'p) handler" where
  "at_addr a h w req = (case h (w a) req of (s, r) \<Rightarrow> (w(a := s), r))"

definition raft_services_at ::
  "string \<Rightarrow> 's placement_center_srv \<Rightarrow> (string \<Rightarrow> 's) placement_center_srv" where
  "raft_services_at a srv =
     \<lparr>ps_send_raft_message = at_addr a (ps_send_raft_message srv),
      ps_send_raft_conf_change = at_addr a (ps_send_raft_conf_change srv)\<rparr>"

text \<open>\<open>PeersManager::start\<close> with the generated client, on the messages its queue hands it.\<close>

definition peers_run ::
  "('w, 'g, 'z) tonic \<Rightarrow> placement_codecs \<Rightarrow> ('w, 'e, 'h, 'u, 'f, 'g) tonic_client \<Rightarrow> peer_message list \<Rightarrow> 'w \<Rightarrow>
   'w \<times> unit run" where
  "peers_run T PC N q =
     peers_start (placement_client_connect N)
       (\<lambda>w client d. placement_client_send_raft_message T PC w (pcc_inner client) \<lparr>srm_message = d\<rparr>) (map Some q)"

text \<open>The address a message goes to: that of the node with the message's target, if it is known.\<close>

definition peer_addr :: "('n, 'm, 'db) machine_env \<Rightarrow> raft_group_metadata \<Rightarrow> 'm \<Rightarrow> string option" where
  "peer_addr X cluster m = map_option bn_node_inner_addr (get_node_by_id cluster (rn_msg_to (me_raw X) m))"

lemma send_message_queue:
  "mc_peer_queue (send_message X ms M) = mc_peer_queue M @
     map (\<lambda>m. \<lparr>pm_to = the (peer_addr X (mc_cluster M) m), pm_data = rn_msg_encode (me_raw X) m\<rparr>)
       (filter (\<lambda>m. peer_addr X (mc_cluster M) m \<noteq> None) ms)"
proof (induction X ms M rule: send_message.induct)
  case (2 X m ms M)
  let ?M1 = "send_peer_message M (rn_msg_to (me_raw X) m) (rn_msg_encode (me_raw X) m)"
  have "mc_cluster ?M1 = mc_cluster M" by (simp add: send_peer_message_def split: option.split)
  with 2 show ?case by (auto simp: send_peer_message_def peer_addr_def split: option.split)
qed simp

text \<open>
  The network as the sender finds it: a node listens on every address of \<open>U\<close>, its gRPC server with
  the services \<open>srv a\<close> for Raft messages; a connection to any other address fails.
\<close>

definition peer_links ::
  "(string \<Rightarrow> 's, 'g, 'z) tonic \<Rightarrow> ('w, 'k, 'o) client_env \<Rightarrow> placement_codecs \<Rightarrow>
   (string \<Rightarrow> 's, 'e, 'h, 'u, 'f, 'g) tonic_client \<Rightarrow> (string \<Rightarrow> 's placement_center_srv) \<Rightarrow> string set \<Rightarrow> bool" where
  "peer_links T C PC N srv U \<longleftrightarrow>
     (\<forall>a \<in> U. \<exists>e h kvh osh. tc_endpoint N (''http://'' @ a) = Inr e \<and> (\<forall>w. tc_connect N w e = (w, Inr h)) \<and>
        linked T (tc_new N h) (grpc_server_start T C PC kvh (raft_services_at a (srv a)) osh)) \<and>
     (\<forall>a. a \<notin> U \<longrightarrow> (\<forall>w. \<exists>e. placement_client_connect N w (''http://'' @ a) = (w, Inl e)))"

locale peer_network =
  fixes T :: "(string \<Rightarrow> 's, 'g, 'z) tonic" and C :: "('w, 'k, 'o) client_env" and PC :: placement_codecs
    and N :: "(string \<Rightarrow> 's, 'e, 'h, 'u, 'f, 'g) tonic_client" and srv :: "string \<Rightarrow> 's placement_center_srv"
    and U :: "string set"
  assumes transport: "tonic_laws T" and codecs: "client_laws C" "placement_laws PC"
    and links: "peer_links T C PC N srv U"
begin

text \<open>One message: the other node's handler does with it what it does, and the sender goes on.\<close>

lemma message_arrives:
  assumes "a \<in> U" and "fits (pp_message PC) \<lparr>srm_message = d\<rparr>" and "fits (pp_message_reply PC) SendRaftMessageReply"
    and "ps_send_raft_message (srv a) (w a) \<lparr>srm_message = d\<rparr> = (s, Ret r)"
  shows "peers_run T PC N (\<lparr>pm_to = a, pm_data = d\<rparr> # q) w = peers_run T PC N q (w(a := s))"
proof -
  obtain e h kvh osh where L: "tc_endpoint N (''http://'' @ a) = Inr e" "\<forall>w. tc_connect N w e = (w, Inr h)"
    "linked T (tc_new N h) (grpc_server_start T C PC kvh (raft_services_at a (srv a)) osh)"
    using links assms(1) unfolding peer_links_def by meson
  have con: "placement_client_connect N w (''http://'' @ a) = (w, Inr (placement_client_new N h))"
    using L(1,2) by (simp add: placement_client_connect_def)
  have srv: "served_by T (pp_message PC) (pp_message_reply PC)
      (\<lambda>s. placement_client_send_raft_message T PC s (tc_new N h)) (ps_send_raft_message (raft_services_at a (srv a)))"
    using calls_served [OF transport codecs L(3)] by blast
  have "rep = SendRaftMessageReply" for rep by (cases rep) simp
  then have "placement_client_send_raft_message T PC w (tc_new N h) \<lparr>srm_message = d\<rparr> =
      deliver (to_dead T) (ps_send_raft_message (raft_services_at a (srv a)) w \<lparr>srm_message = d\<rparr>)"
    using assms(3) by (intro served_byD [OF srv assms(2)]) metis
  also have "\<dots> = (w(a := s), r)"
    by (simp add: raft_services_at_def at_addr_def assms(4) deliver_def)
  finally have "send_to_peer (placement_client_connect N)
      (\<lambda>w client d. placement_client_send_raft_message T PC w (pcc_inner client) \<lparr>srm_message = d\<rparr>)
      \<lparr>pm_to = a, pm_data = d\<rparr> w = (w(a := s), Ret ())"
    using con by (simp add: send_to_peer_def placement_client_new_def split: sum.split)
  then show ?thesis by (simp add: peers_run_def)
qed

text \<open>A message to an address where nobody listens ends the task; what is left in the queue stays there.\<close>

lemma message_lost:
  assumes "a \<notin> U"
  shows "peers_run T PC N (\<lparr>pm_to = a, pm_data = d\<rparr> # q) w = (w, Panic UnwrapErr)"
proof -
  obtain e where "placement_client_connect N w (''http://'' @ a) = (w, Inl e)"
    using links assms unfolding peer_links_def by meson
  then show ?thesis by (simp add: peers_run_def send_to_peer_def)
qed

text \<open>
  A queue of messages that every node accepts: each node on the way gets its own, in the order of
  the queue, up to the first that has nowhere to go.
\<close>

lemma queue_arrives:
  assumes "\<And>m a w. m \<in> set sent \<Longrightarrow> addr m = a \<Longrightarrow> a \<in> U \<Longrightarrow>
      \<exists>r. ps_send_raft_message (srv a) (w a) \<lparr>srm_message = enc m\<rparr> = (accept m (w a), Ret r)"
    and "\<And>m. m \<in> set sent \<Longrightarrow> fits (pp_message PC) \<lparr>srm_message = enc m\<rparr>"
    and "fits (pp_message_reply PC) SendRaftMessageReply"
  shows "peers_run T PC N (map (\<lambda>m. \<lparr>pm_to = addr m, pm_data = enc m\<rparr>) sent) w =
    (\<lambda>a. fold accept (filter (\<lambda>m. addr m = a) (takeWhile (\<lambda>m. addr m \<in> U) sent)) (w a),
     if \<forall>m \<in> set sent. addr m \<in> U then Ret () else Panic UnwrapErr)"
  using assms(1,2)
proof (induction sent arbitrary: w)
  case Nil
  then show ?case by (simp add: peers_run_def)
next
  case (Cons m ms)
  show ?case
  proof (cases "addr m \<in> U")
    case True
    obtain r where r: "ps_send_raft_message (srv (addr m)) (w (addr m)) \<lparr>srm_message = enc m\<rparr> =
        (accept m (w (addr m)), Ret r)"
      using Cons.prems(1) [of m "addr m" w] True by auto
    have f: "fits (pp_message PC) \<lparr>srm_message = enc m\<rparr>" using Cons.prems(2) by simp
    have "peers_run T PC N (map (\<lambda>m. \<lparr>pm_to = addr m, pm_data = enc m\<rparr>) (m # ms)) w =
        peers_run T PC N (map (\<lambda>m. \<lparr>pm_to = addr m, pm_data = enc m\<rparr>) ms) (w(addr m := accept m (w (addr m))))"
      by (simp add: message_arrives [where a = "addr m" and d = "enc m" and w = w, OF True f assms(3) r])
    then show ?thesis
      using Cons True by (simp, intro ext) simp
  next
    case False
    then show ?thesis by (simp add: message_lost)
  qed
qed

end

text \<open>What \<open>send_raft_message\<close> does with a message: it joins the queue to the machine.\<close>

lemma raft_service_accepts:
  assumes "prost_laws PM"
  shows "\<exists>r. ps_send_raft_message (grpc_raft_services sd PM PCC sx rx) s \<lparr>srm_message = pb_encode PM m\<rparr> =
    (enqueue (Some (Raft m sx)) s, Ret r)"
  by (simp add: grpc_raft_services_def send_raft_message_def prost_roundtrip [OF assms] apply_raft_message_def
      apply_raft_status_machine_message_def split: prod.split sum.split)

lemma fold_enqueue:
  "fold (\<lambda>m. enqueue (Some (f m))) ms s = s\<lparr>ns_queue := ns_queue s @ map f ms\<rparr>"
  by (induction ms arbitrary: s) (simp_all add: enqueue_def)

lemma mset_map_order:
  "mset q = mset (map f xs) \<Longrightarrow> \<exists>ys. mset ys = mset xs \<and> q = map f ys"
proof (induction q arbitrary: xs)
  case Nil
  then show ?case by simp
next
  case (Cons b q)
  then have "b \<in> set (map f xs)" by (metis list.set_intros(1) set_mset_mset)
  then obtain x where x: "x \<in> set xs" "f x = b" by auto
  then have xs: "mset xs = add_mset x (mset (remove1 x xs))" by simp
  have "add_mset b (mset q) = image_mset f (mset xs)" using Cons.prems by simp
  also have "\<dots> = add_mset b (image_mset f (mset (remove1 x xs)))" by (subst xs) (simp only: image_mset_add_mset x(2))
  finally have "mset q = mset (map f (remove1 x xs))" by (simp only: add_mset_add_single [symmetric] mset_map) simp
  from Cons.IH [OF this] obtain ys where ys: "mset ys = mset (remove1 x xs)" "q = map f ys" by blast
  have "mset (x # ys) = mset xs" by (simp only: mset.simps ys(1) xs)
  moreover have "b # q = map f (x # ys)" by (simp only: list.map ys(2) x(2))
  ultimately show ?case by (intro exI [of _ "x # ys"] conjI)
qed

text \<open>The inner address of a configured node is its value in the file, as TOML writes it.\<close>

lemma peers_of_addr:
  "peers_of ts config entries peers = Ret peers' \<Longrightarrow> map_of peers' i = Some node \<Longrightarrow>
     map_of peers i = Some node \<or> (\<exists>s. bn_node_inner_addr node = ts (TomlString s))"
proof (induction ts config entries peers rule: peers_of.induct)
  case (2 ts config entry rest peers)
  then obtain j n where n: "peer_of ts config entry = Ret (j, n)" by (auto split: run.splits)
  have "\<exists>s. bn_node_inner_addr n = ts (TomlString s)"
  proof (cases entry)
    case (Pair k v)
    then show ?thesis
      using n by (cases v) (auto simp: peer_of_def split: option.splits prod.splits)
  qed
  moreover have "peers_of ts config rest (AList.update j n peers) = Ret peers'" using "2.prems"(1) n by simp
  from "2.IH" [OF n refl this "2.prems"(2)]
  have "map_of (AList.update j n peers) i = Some node \<or> (\<exists>s. bn_node_inner_addr node = ts (TomlString s))" .
  ultimately show ?case by (auto simp: update_conv' split: if_splits)
qed simp

lemma configured_addr:
  "raft_group_metadata_new ts (Some config) = Ret m \<Longrightarrow> get_node_by_id m i = Some node \<Longrightarrow>
     \<exists>s. bn_node_inner_addr node = ts (TomlString s)"
  by (auto simp: raft_group_metadata_new_def placement_center_conf_def get_node_by_id_def
      dest: peers_of_addr split: run.splits)

subsection \<open>Properties\<close>

text \<open>
  C16: Raft messages between nodes, from end to end: of the messages a turn of the loop sends, those for
  nodes the metadata knows go to the peer task in some order, and from there through the
  generated client, the network, the router and the handler each joins the queue of its node's
  machine, decoded to the message that was sent, once and in that order, as long as every node
  on the way can be reached.  The first that cannot ends the task: its message and all later ones
  are lost, those for healthy nodes too.
\<close>

theorem raft_messages_reach_peers:
  fixes M :: "('n, 'db, 'c) machine"
  assumes "tonic_laws T" and "client_laws C" and "placement_laws PC" and "prost_laws PM"
    and "peer_links T C PC N (\<lambda>a. grpc_raft_services sd PM PCC sx rx) U"
    and "rn_msg_encode (me_raw X) = pb_encode PM"
    and "\<forall>m \<in> set ms. fits (pp_message PC) \<lparr>srm_message = pb_encode PM m\<rparr>"
    and "fits (pp_message_reply PC) SendRaftMessageReply"
    and "mc_peer_queue M = []" and "mset q = mset (mc_peer_queue (send_message X ms M))"
  shows "\<exists>sent.
    mset sent = mset (filter (\<lambda>m. peer_addr X (mc_cluster M) m \<noteq> None) ms) \<and>
    peers_run T PC N q w =
      (\<lambda>a. (w a)\<lparr>ns_queue := ns_queue (w a) @ map (\<lambda>m. Raft m sx)
          (filter (\<lambda>m. peer_addr X (mc_cluster M) m = Some a)
            (takeWhile (\<lambda>m. the (peer_addr X (mc_cluster M) m) \<in> U) sent))\<rparr>,
       if \<forall>d \<in> set q. pm_to d \<in> U then Ret () else Panic UnwrapErr)"
proof -
  let ?addr = "peer_addr X (mc_cluster M)"
  let ?mk = "\<lambda>m. \<lparr>pm_to = the (?addr m), pm_data = pb_encode PM m\<rparr>"
  note net = peer_network.intro [OF assms(1-3,5)]
  have "mset q = mset (map ?mk (filter (\<lambda>m. ?addr m \<noteq> None) ms))"
    using assms(9,10) by (simp add: send_message_queue assms(6))
  then obtain sent where sent: "mset sent = mset (filter (\<lambda>m. ?addr m \<noteq> None) ms)" "q = map ?mk sent"
    using mset_map_order by blast
  have set: "set sent = {m \<in> set ms. ?addr m \<noteq> None}" using sent(1) by (metis set_filter set_mset_mset)
  have "peers_run T PC N (map ?mk sent) w =
    (\<lambda>a. fold (\<lambda>m. enqueue (Some (Raft m sx)))
        (filter (\<lambda>m. the (?addr m) = a) (takeWhile (\<lambda>m. the (?addr m) \<in> U) sent)) (w a),
     if \<forall>m \<in> set sent. the (?addr m) \<in> U then Ret () else Panic UnwrapErr)"
    by (rule peer_network.queue_arrives [OF net]) (use raft_service_accepts [OF assms(4)] assms(7,8) set in auto)
  moreover have "filter (\<lambda>m. the (?addr m) = a) (takeWhile P sent) = filter (\<lambda>m. ?addr m = Some a) (takeWhile P sent)" for a P
    by (rule filter_cong [OF refl]) (use set in \<open>auto dest: set_takeWhileD\<close>)
  ultimately show ?thesis using sent by (auto simp: fold_enqueue)
qed

text \<open>A network with one node, under the address of the reference configuration.\<close>

definition ref_peer :: string where
  "ref_peer = ''127.0.0.1:1228''"

lemma show_1228: "show_u64 1228 = ''1228''"
  by (simp add: show_u64_def show_nat.simps digit_char_def char_of_def bit_iff_odd)

definition ref_peer_services :: "ref_state placement_center_srv" where
  "ref_peer_services = grpc_raft_services status_message (unit_prost ()) (unit_prost ()) 7 TimedOut"

definition ref_peer_server :: "(string \<Rightarrow> ref_state) serve" where
  "ref_peer_server = grpc_server_start ref_tonic ref_client ref_placement
     \<lparr>ks_set = (\<lambda>s q. (s, Panic UnwrapErr)), ks_delete = (\<lambda>s q. (s, Panic UnwrapErr)),
      ks_get = (\<lambda>s q. (s, Panic UnwrapErr)), ks_exists = (\<lambda>s q. (s, Panic UnwrapErr))\<rparr>
     (raft_services_at ref_peer ref_peer_services)
     \<lparr>os_vote = (\<lambda>s q. (s, Panic UnwrapErr)), os_append = (\<lambda>s q. (s, Panic UnwrapErr)),
      os_snapshot = (\<lambda>s q. (s, Panic UnwrapErr))\<rparr>"

definition ref_links ::
  "(string \<Rightarrow> ref_state, string, (string \<Rightarrow> ref_state) serve, unit, unit, (string \<Rightarrow> ref_state) serve) tonic_client" where
  "ref_links =
     \<lparr>tc_endpoint = (\<lambda>d. if d = ''http://'' @ ref_peer then Inr d else Inl io_error),
      tc_connect = (\<lambda>w e. (w, Inr ref_peer_server)), tc_new = (\<lambda>h. h), tc_with_origin = (\<lambda>h u. h),
      tc_intercepted = (\<lambda>h f. h), tc_send_compressed = (\<lambda>g n. g), tc_accept_compressed = (\<lambda>g n. g),
      tc_max_decoding = (\<lambda>g n. g), tc_max_encoding = (\<lambda>g n. g)\<rparr>"

lemma ref_peer_links:
  "peer_links ref_tonic ref_client ref_placement ref_links (\<lambda>a. ref_peer_services) {ref_peer}"
proof -
  have "linked ref_tonic ref_peer_server ref_peer_server" by (rule ref_linked)
  then show ?thesis
    unfolding peer_links_def
    by (auto simp: ref_links_def placement_client_connect_def ref_peer_server_def)
qed

interpretation ref_peers: peer_network ref_tonic ref_client ref_placement ref_links "\<lambda>a. ref_peer_services" "{ref_peer}"
  by unfold_locales (rule ref_tonic_laws, rule ref_client_laws, rule ref_placement_laws, rule ref_peer_links)

definition ref_peer_env :: "(unit, unit, mem_db) machine_env" where
  "ref_peer_env = ref_machine_env\<lparr>me_raw := ref_raw\<lparr>rn_msg_to := (\<lambda>m. 1), rn_msg_encode := pb_encode (unit_prost ())\<rparr>\<rparr>"

lemma raft_messages_reach_peers_witness:
  "peers_run ref_tonic ref_placement ref_links
     (mc_peer_queue (send_message ref_peer_env [(), ()] (ref_machine ref_store))) (\<lambda>a. ref_state []) =
   ((\<lambda>a. ref_state [])(ref_peer := (ref_state [])\<lparr>ns_queue := [Raft () 7, Raft () 7]\<rparr>), Ret ())"
proof -
  let ?q = "mc_peer_queue (send_message ref_peer_env [(), ()] (ref_machine ref_store))"
  have addr: "peer_addr ref_peer_env (mc_cluster (ref_machine ref_store)) m = Some ref_peer" for m
    by (simp add: peer_addr_def ref_peer_env_def ref_machine_def machine_new_def ref_metadata0_def get_node_by_id_def
        local_node_def ref_peer_def ref_config_def show_1228)
  have fits: "fits (pp_message ref_placement) \<lparr>srm_message = pb_encode (unit_prost ()) m\<rparr>" for m
    by (simp add: fits_def ref_placement_def bytes_prost_def unit_prost_def default_limit_def)
  have reply: "fits (pp_message_reply ref_placement) SendRaftMessageReply"
    by (simp add: fits_def ref_placement_def unit_prost_def default_limit_def)
  have laws: "prost_laws (unit_prost ())" by (simp add: prost_laws_def unit_prost_def)
  have enc: "rn_msg_encode (me_raw ref_peer_env) = pb_encode (unit_prost ())" by (simp add: ref_peer_env_def)
  have empty: "mc_peer_queue (ref_machine ref_store) = []" by (simp add: ref_machine_def machine_new_def)
  have q: "set ?q = {\<lparr>pm_to = ref_peer, pm_data = pb_encode (unit_prost ()) ()\<rparr>}"
    by (simp add: send_message_queue empty addr enc del: send_message.simps)
  have all: "\<forall>m \<in> set [(), ()]. fits (pp_message ref_placement) \<lparr>srm_message = pb_encode (unit_prost ()) m\<rparr>"
    using fits by simp
  from raft_messages_reach_peers [OF ref_tonic_laws ref_client_laws ref_placement_laws laws
      ref_peer_links [unfolded ref_peer_services_def] enc all reply empty refl, of "\<lambda>a. ref_state []"]
  obtain sent where sent: "mset sent = mset (filter (\<lambda>m. peer_addr ref_peer_env (mc_cluster (ref_machine ref_store)) m \<noteq> None) [(), ()])"
    "peers_run ref_tonic ref_placement ref_links ?q (\<lambda>a. ref_state []) =
      (\<lambda>a. (ref_state [])\<lparr>ns_queue := ns_queue (ref_state []) @ map (\<lambda>m. Raft m 7)
          (filter (\<lambda>m. peer_addr ref_peer_env (mc_cluster (ref_machine ref_store)) m = Some a)
            (takeWhile (\<lambda>m. the (peer_addr ref_peer_env (mc_cluster (ref_machine ref_store)) m) \<in> {ref_peer}) sent))\<rparr>,
       if \<forall>d \<in> set ?q. pm_to d \<in> {ref_peer} then Ret () else Panic UnwrapErr)"
    by (elim exE conjE) (rule that)
  have "size (mset sent) = 2" using sent(1) by (simp only: addr) simp
  then have "length sent = 2" by simp
  then obtain u v where uv: "sent = [u, v]" by (auto simp: numeral_2_eq_2 length_Suc_conv)
  have queue: "ns_queue (ref_state []) = []" "(ref_state [])\<lparr>ns_queue := []\<rparr> = ref_state []"
    by (simp_all add: ref_state_def)
  have "(\<lambda>a. (ref_state [])\<lparr>ns_queue := ns_queue (ref_state []) @ map (\<lambda>m. Raft m 7)
          (filter (\<lambda>m. Some ref_peer = Some a) [u, v])\<rparr>) =
    (\<lambda>a. ref_state [])(ref_peer := (ref_state [])\<lparr>ns_queue := [Raft () 7, Raft () 7]\<rparr>)"
    by (rule ext) (simp add: queue)
  then show ?thesis
    unfolding sent(2) uv q addr by simp
qed



end
