(* ===== verification/Pool_Steps.thy ===== *)
theory Pool_Steps
  imports Clients_Props
begin

section \<open>Concurrent callers of the pools (src/clients/src/poll.rs)\<close>

text \<open>
  \<open>ClientPool\<close> is shared by every request of a node (\<open>Arc<ClientPool>\<close>), so its two functions run
  concurrently.  Each is a sequence of operations on a \<open>DashMap\<close>, every one of which locks a shard:
  \<open>contains_key\<close>, \<open>insert\<close> and \<open>get\<close>, the last of which returns a guard that keeps the shard locked
  for reading while \<open>poll.get().await\<close> waits for a connection.  Here these operations are the steps
  of a system of callers.  The shard of a key is DashMap's choice and a parameter.  An \<open>insert\<close>
  whose shard is locked waits; a caller that waits for its connection may be dropped, as the task
  of a request whose peer is gone.
\<close>

subsection \<open>Callers\<close>

text \<open>Where a caller is: the operation it makes next, or its result.\<close>

datatype 'c pool_point =
    At_Contains | At_Insert | At_Lookup | At_Await pool | At_End "robust_error + 'c" | At_Dropped

record ('k, 'o) pool_caller =
  pk_service :: placement_center_service
  pk_addr :: string
  pk_at :: "('k + 'o) pool_point"

text \<open>\<open>py_built\<close> records the pools ever put into the maps, newest first.\<close>

record ('w, 'k, 'o) pool_system =
  py_world :: 'w
  py_pools :: client_pool
  py_callers :: "('k, 'o) pool_caller list"
  py_built :: "(placement_center_service \<times> string) list"

fun service_module :: "placement_center_service \<Rightarrow> string" where
  "service_module Kv = ''KvServices''"
| "service_module OpenRaft = ''OpenRaftServices''"

fun service_pools :: "placement_center_service \<Rightarrow> client_pool \<Rightarrow> (string \<times> pool) list" where
  "service_pools Kv cp = cp_kv_pools cp"
| "service_pools OpenRaft cp = cp_openraft_pools cp"

fun set_service_pools ::
  "placement_center_service \<Rightarrow> (string \<times> pool) list \<Rightarrow> client_pool \<Rightarrow> client_pool" where
  "set_service_pools Kv pools cp = cp\<lparr>cp_kv_pools := pools\<rparr>"
| "set_service_pools OpenRaft pools cp = cp\<lparr>cp_openraft_pools := pools\<rparr>"

definition caller_key :: "('k, 'o) pool_caller \<Rightarrow> string" where
  "caller_key c = pool_key (service_module (pk_service c)) (pk_addr c)"

text \<open>\<open>poll.get().await\<close>, the connection tagged with the service it is for.\<close>

definition pool_get ::
  "('w, 'k, 'o) client_env \<Rightarrow> placement_center_service \<Rightarrow> 'w \<Rightarrow> pool \<Rightarrow> 'w \<times> (ext_error + ('k + 'o))" where
  "pool_get C service w p =
     (case service of
        Kv \<Rightarrow> (case ce_kv_get C w p of (w', Inl e) \<Rightarrow> (w', Inl e) | (w', Inr k) \<Rightarrow> (w', Inr (Inl k)))
      | OpenRaft \<Rightarrow>
          (case ce_openraft_get C w p of (w', Inl e) \<Rightarrow> (w', Inl e) | (w', Inr n) \<Rightarrow> (w', Inr (Inr n))))"

subsection \<open>Steps\<close>

text \<open>The guard of \<open>get\<close> is held over the \<open>await\<close>; an \<open>insert\<close> into its shard waits for it.\<close>

fun holds_guard :: "'c pool_point \<Rightarrow> bool" where
  "holds_guard (At_Await p) \<longleftrightarrow> True"
| "holds_guard _ \<longleftrightarrow> False"

definition insert_waits ::
  "(string \<Rightarrow> nat) \<Rightarrow> ('k, 'o) pool_caller \<Rightarrow> ('k, 'o) pool_caller list \<Rightarrow> bool" where
  "insert_waits shard c callers \<longleftrightarrow>
     list_ex (\<lambda>d. pk_service d = pk_service c \<and> holds_guard (pk_at d) \<and>
                  shard (caller_key d) = shard (caller_key c)) callers"

definition move_to ::
  "nat \<Rightarrow> ('k + 'o) pool_point \<Rightarrow> ('w, 'k, 'o) pool_system \<Rightarrow> ('w, 'k, 'o) pool_system" where
  "move_to i p s = s\<lparr>py_callers := (py_callers s)[i := (py_callers s ! i)\<lparr>pk_at := p\<rparr>]\<rparr>"

text \<open>The next operation of the \<open>i\<close>-th caller; \<open>None\<close> where it has none or must wait.\<close>

definition pool_step ::
  "('w, 'k, 'o) client_env \<Rightarrow> (string \<Rightarrow> nat) \<Rightarrow> nat \<Rightarrow> ('w, 'k, 'o) pool_system \<Rightarrow>
   ('w, 'k, 'o) pool_system option" where
  "pool_step C shard i s =
     (if length (py_callers s) \<le> i then None
      else
        (let c = py_callers s ! i; service = pk_service c; module = service_module service;
             key = caller_key c; pools = service_pools service (py_pools s)
         in case pk_at c of
              At_Contains \<Rightarrow>
                Some (move_to i (if map_of pools key = None then At_Insert else At_Lookup) s)
            | At_Insert \<Rightarrow>
                (if insert_waits shard c (py_callers s) then None
                 else
                   (let pool = \<lparr>pl_addr = pk_addr c, pl_max_open = cp_max_open_connection (py_pools s)\<rparr>
                    in Some (move_to i At_Lookup
                         (s\<lparr>py_pools := set_service_pools service (AList.update key pool pools) (py_pools s),
                            py_built := (service, key) # py_built s\<rparr>))))
            | At_Lookup \<Rightarrow>
                (case map_of pools key of
                   Some poll \<Rightarrow> Some (move_to i (At_Await poll) s)
                 | None \<Rightarrow>
                     Some (move_to i (At_End (Inl (NoAvailableGrpcConnection module
                       ''connection pool is not initialized''))) s))
            | At_Await poll \<Rightarrow>
                (case pool_get C service (py_world s) poll of
                   (w', Inr conn) \<Rightarrow> Some (move_to i (At_End (Inr conn)) (s\<lparr>py_world := w'\<rparr>))
                 | (w', Inl e) \<Rightarrow>
                     Some (move_to i (At_End (Inl (NoAvailableGrpcConnection module (err_display e))))
                       (s\<lparr>py_world := w'\<rparr>)))
            | At_End r \<Rightarrow> None
            | At_Dropped \<Rightarrow> None))"

fun pool_run ::
  "('w, 'k, 'o) client_env \<Rightarrow> (string \<Rightarrow> nat) \<Rightarrow> nat list \<Rightarrow> ('w, 'k, 'o) pool_system \<Rightarrow>
   ('w, 'k, 'o) pool_system option" where
  "pool_run C shard [] s = Some s"
| "pool_run C shard (i # turns) s =
     (case pool_step C shard i s of None \<Rightarrow> None | Some s' \<Rightarrow> pool_run C shard turns s')"

text \<open>Callers arrive at any time, take their steps in any order, and are dropped while they wait.\<close>

inductive pool_event ::
  "('w, 'k, 'o) client_env \<Rightarrow> (string \<Rightarrow> nat) \<Rightarrow> ('w, 'k, 'o) pool_system \<Rightarrow>
   ('w, 'k, 'o) pool_system \<Rightarrow> bool"
  for C shard s where
  pool_call:
    "pool_event C shard s
       (s\<lparr>py_callers := py_callers s @ [\<lparr>pk_service = service, pk_addr = addr, pk_at = At_Contains\<rparr>]\<rparr>)"
| pool_turn: "pool_step C shard i s = Some s' \<Longrightarrow> pool_event C shard s s'"
| pool_drop:
    "i < length (py_callers s) \<Longrightarrow> pk_at (py_callers s ! i) = At_Await p \<Longrightarrow>
     pool_event C shard s (move_to i At_Dropped s)"

inductive pool_reached ::
  "('w, 'k, 'o) client_env \<Rightarrow> (string \<Rightarrow> nat) \<Rightarrow> u64 \<Rightarrow> ('w, 'k, 'o) pool_system \<Rightarrow> bool"
  for C shard n where
  pool_start:
    "pool_reached C shard n
       \<lparr>py_world = w, py_pools = client_pool_new n, py_callers = [], py_built = []\<rparr>"
| pool_later: "pool_reached C shard n s \<Longrightarrow> pool_event C shard s s' \<Longrightarrow> pool_reached C shard n s'"

subsection \<open>The invariant\<close>

text \<open>What a caller is answered when the world is \<open>w\<close>.\<close>

definition caller_result ::
  "('w, 'k, 'o) client_env \<Rightarrow> u64 \<Rightarrow> ('k, 'o) pool_caller \<Rightarrow> 'w \<Rightarrow> robust_error + ('k + 'o)" where
  "caller_result C n c w =
     map_err (\<lambda>e. NoAvailableGrpcConnection (service_module (pk_service c)) (err_display e))
       (snd (pool_get C (pk_service c) w \<lparr>pl_addr = pk_addr c, pl_max_open = n\<rparr>))"

fun point_ok :: "('w, 'k, 'o) client_env \<Rightarrow> u64 \<Rightarrow> pool option \<Rightarrow> ('k, 'o) pool_caller \<Rightarrow>
    ('k + 'o) pool_point \<Rightarrow> bool" where
  "point_ok C n entry c At_Lookup \<longleftrightarrow> entry = Some \<lparr>pl_addr = pk_addr c, pl_max_open = n\<rparr>"
| "point_ok C n entry c (At_Await p) \<longleftrightarrow>
     p = \<lparr>pl_addr = pk_addr c, pl_max_open = n\<rparr> \<and> entry = Some p"
| "point_ok C n entry c (At_End r) \<longleftrightarrow> (\<exists>w. r = caller_result C n c w)"
| "point_ok C n entry c _ \<longleftrightarrow> True"

definition caller_ok :: "('w, 'k, 'o) client_env \<Rightarrow> u64 \<Rightarrow> client_pool \<Rightarrow> ('k, 'o) pool_caller \<Rightarrow> bool" where
  "caller_ok C n cp c \<longleftrightarrow>
     point_ok C n (map_of (service_pools (pk_service c) cp) (caller_key c)) c (pk_at c)"

definition pools_filed :: "u64 \<Rightarrow> client_pool \<Rightarrow> bool" where
  "pools_filed n cp \<longleftrightarrow>
     cp_max_open_connection cp = n \<and> (\<forall>service. pools_of (service_module service) n (service_pools service cp))"

definition pool_inv :: "('w, 'k, 'o) client_env \<Rightarrow> u64 \<Rightarrow> ('w, 'k, 'o) pool_system \<Rightarrow> bool" where
  "pool_inv C n s \<longleftrightarrow> pools_filed n (py_pools s) \<and> (\<forall>c \<in> set (py_callers s). caller_ok C n (py_pools s) c)"

lemma service_pools_set [simp]:
  "service_pools s (set_service_pools t pools cp) = (if s = t then pools else service_pools s cp)"
  "cp_max_open_connection (set_service_pools t pools cp) = cp_max_open_connection cp"
  by (cases s; cases t; simp) (cases t; simp)

lemma map_of_update [simp]: "map_of (AList.update k v xs) = (map_of xs)(k \<mapsto> v)"
  by (rule update_conv')

lemma move_to_simps [simp]:
  "py_world (move_to i p s) = py_world s" "py_pools (move_to i p s) = py_pools s"
  "py_built (move_to i p s) = py_built s"
  "py_callers (move_to i p s) = (py_callers s)[i := (py_callers s ! i)\<lparr>pk_at := p\<rparr>]"
  by (simp_all add: move_to_def)

lemma caller_key_at [simp]: "caller_key (c\<lparr>pk_at := p\<rparr>) = caller_key c"
  by (simp add: caller_key_def)

lemma caller_result_at [simp]: "caller_result C n (c\<lparr>pk_at := p\<rparr>) = caller_result C n c"
  by (rule ext) (simp add: caller_result_def)

lemma point_ok_at [simp]: "point_ok C n entry (c\<lparr>pk_at := p\<rparr>) q = point_ok C n entry c q"
  by (cases q) simp_all

lemma caller_ok_at:
  "caller_ok C n cp (c\<lparr>pk_at := p\<rparr>) \<longleftrightarrow>
     point_ok C n (map_of (service_pools (pk_service c) cp) (caller_key c)) c p"
  by (simp add: caller_ok_def)

lemma pools_filed_entry:
  "pools_filed n cp \<Longrightarrow> map_of (service_pools (pk_service c) cp) (caller_key c) = Some p \<Longrightarrow>
     p = \<lparr>pl_addr = pk_addr c, pl_max_open = n\<rparr>"
  unfolding pools_filed_def pools_of_def caller_key_def by (metis pool_key_inject)

lemma pools_filed_insert:
  "pools_filed n cp \<Longrightarrow>
     pools_filed n (set_service_pools (pk_service c)
       (AList.update (caller_key c) \<lparr>pl_addr = pk_addr c, pl_max_open = n\<rparr>
          (service_pools (pk_service c) cp)) cp)"
  unfolding pools_filed_def pools_of_def caller_key_def by (auto split: if_splits)

lemma caller_ok_insert:
  assumes "caller_ok C n cp d"
    and "\<not> (pk_service d = pk_service c \<and> holds_guard (pk_at d) \<and> caller_key d = caller_key c)"
  shows "caller_ok C n (set_service_pools (pk_service c)
       (AList.update (caller_key c) \<lparr>pl_addr = pk_addr c, pl_max_open = n\<rparr>
          (service_pools (pk_service c) cp)) cp) d"
  using assms by (cases "pk_at d") (auto simp: caller_ok_def caller_key_def)

text \<open>One caller moves: the others keep their part of the invariant.\<close>

lemma pool_inv_move:
  assumes "pool_inv C n s" "i < length (py_callers s)"
    and "point_ok C n (map_of (service_pools (pk_service c) (py_pools s)) (caller_key c)) c p"
    and "c = py_callers s ! i"
  shows "pool_inv C n (move_to i p s)"
  using assms by (auto simp: pool_inv_def caller_ok_at dest!: set_update_subset_insert [THEN subsetD])

lemma pool_inv_world [simp]: "pool_inv C n (s\<lparr>py_world := w\<rparr>) = pool_inv C n s"
  by (simp add: pool_inv_def)

lemma pool_inv_insert:
  assumes "pool_inv C n s" "i < length (py_callers s)" "c = py_callers s ! i"
    and "\<not> insert_waits shard c (py_callers s)"
  shows "pool_inv C n (s\<lparr>py_pools := set_service_pools (pk_service c)
       (AList.update (caller_key c) \<lparr>pl_addr = pk_addr c, pl_max_open = n\<rparr>
          (service_pools (pk_service c) (py_pools s))) (py_pools s), py_built := b\<rparr>)"
  using assms
  by (auto simp: pool_inv_def pools_filed_insert insert_waits_def list_ex_iff intro!: caller_ok_insert)

lemma pool_inv_step:
  assumes inv: "pool_inv C n s" and step: "pool_step C shard i s = Some s'"
  shows "pool_inv C n s'"
proof -
  let ?c = "py_callers s ! i"
  have i: "i < length (py_callers s)" using step by (simp add: pool_step_def split: if_splits)
  have n: "cp_max_open_connection (py_pools s) = n" and filed: "pools_filed n (py_pools s)"
    using inv by (simp_all add: pool_inv_def pools_filed_def)
  have ok: "point_ok C n (map_of (service_pools (pk_service ?c) (py_pools s)) (caller_key ?c)) ?c (pk_at ?c)"
    using inv i by (simp add: pool_inv_def caller_ok_def)
  show ?thesis
  proof (cases "pk_at ?c")
    case At_Contains
    then show ?thesis
      using step i pools_filed_entry [OF filed, of ?c]
      by (auto simp: pool_step_def Let_def intro!: pool_inv_move [OF inv])
  next
    case At_Insert
    then show ?thesis
      using step i n pool_inv_insert [OF inv i refl]
      by (auto simp: pool_step_def Let_def split: if_splits intro!: pool_inv_move)
  next
    case At_Lookup
    then show ?thesis
      using step i ok by (auto simp: pool_step_def Let_def intro!: pool_inv_move [OF inv])
  next
    case (At_Await p)
    have "caller_result C n ?c (py_world s) =
        map_err (\<lambda>e. NoAvailableGrpcConnection (service_module (pk_service ?c)) (err_display e))
          (snd (pool_get C (pk_service ?c) (py_world s) p))"
      using ok At_Await by (simp add: caller_result_def)
    then have "point_ok C n entry ?c (At_End (map_err
        (\<lambda>e. NoAvailableGrpcConnection (service_module (pk_service ?c)) (err_display e))
          (snd (pool_get C (pk_service ?c) (py_world s) p))))" for entry
      by (metis point_ok.simps(3))
    then show ?thesis
      using step i At_Await inv
      by (auto simp: pool_step_def Let_def split: prod.splits sum.splits intro!: pool_inv_move)
  next
    case (At_End r)
    then show ?thesis using step i by (simp add: pool_step_def)
  next
    case At_Dropped
    then show ?thesis using step i by (simp add: pool_step_def)
  qed
qed

lemma pool_inv_event:
  assumes "pool_event C shard s s'" "pool_inv C n s"
  shows "pool_inv C n s'"
  using assms
proof cases
  case (pool_call service addr)
  with assms(2) show ?thesis by (auto simp: pool_inv_def caller_ok_def)
next
  case (pool_turn i)
  with assms(2) show ?thesis by (blast intro: pool_inv_step)
next
  case (pool_drop i p)
  with assms(2) show ?thesis by (auto intro!: pool_inv_move)
qed

lemma pool_inv_start [simp]:
  "pool_inv C n \<lparr>py_world = w, py_pools = client_pool_new n, py_callers = [], py_built = b\<rparr>"
proof -
  have "pools_of (service_module service) n (service_pools service (client_pool_new n))" for service
    by (cases service) (simp_all add: pools_of_def client_pool_new_def)
  then show ?thesis by (simp add: pool_inv_def pools_filed_def client_pool_new_def)
qed

lemma pool_inv_reached: "pool_reached C shard n s \<Longrightarrow> pool_inv C n s"
  by (induction rule: pool_reached.induct) (auto intro: pool_inv_event)

subsection \<open>Progress\<close>

fun point_work :: "'c pool_point \<Rightarrow> nat" where
  "point_work At_Contains = 4"
| "point_work At_Insert = 3"
| "point_work At_Lookup = 2"
| "point_work (At_Await p) = 1"
| "point_work (At_End r) = 0"
| "point_work At_Dropped = 0"

definition pool_work :: "('w, 'k, 'o) pool_system \<Rightarrow> nat" where
  "pool_work s = sum_list (map (\<lambda>c. point_work (pk_at c)) (py_callers s))"

lemma point_work_le: "point_work p \<le> 4"
  by (cases p) simp_all

lemma pool_work_le: "pool_work s \<le> 4 * length (py_callers s)"
  using sum_list_mono [of "py_callers s" "\<lambda>c. point_work (pk_at c)" "\<lambda>c. 4"]
  by (simp add: pool_work_def point_work_le sum_list_triv mult.commute)

lemma pool_work_move:
  assumes "i < length (py_callers s)" "point_work p < point_work (pk_at (py_callers s ! i))"
    "py_callers s' = py_callers s"
  shows "pool_work (move_to i p s') < pool_work s"
proof -
  have "point_work (pk_at (py_callers s ! i)) \<le> pool_work s"
    unfolding pool_work_def using assms(1) by (auto intro!: member_le_sum_list)
  with assms show ?thesis by (simp add: pool_work_def map_update sum_list_update)
qed

lemma pool_step_work:
  assumes "pool_step C shard i s = Some s'"
  shows "pool_work s' < pool_work s \<and> length (py_callers s') = length (py_callers s)"
proof -
  have i: "i < length (py_callers s)" using assms by (simp add: pool_step_def split: if_splits)
  show ?thesis
    using assms i
    by (cases "pk_at (py_callers s ! i)")
      (auto simp: pool_step_def Let_def split: if_splits option.splits prod.splits sum.splits
        intro!: pool_work_move)
qed

lemma pool_run_work:
  "pool_run C shard turns s = Some s' \<Longrightarrow>
     length turns + pool_work s' \<le> pool_work s \<and> length (py_callers s') = length (py_callers s)"
proof (induction turns arbitrary: s)
  case (Cons i turns)
  then obtain s1 where s1: "pool_step C shard i s = Some s1" "pool_run C shard turns s1 = Some s'"
    by (auto split: option.splits)
  from Cons.IH [OF s1(2)] pool_step_work [OF s1(1)] show ?case by simp
qed simp

text \<open>A caller that waits for a guard waits for a caller that can move: some step is always possible.\<close>

lemma pool_await_moves:
  "i < length (py_callers s) \<Longrightarrow> pk_at (py_callers s ! i) = At_Await p \<Longrightarrow> pool_step C shard i s \<noteq> None"
  by (auto simp: pool_step_def Let_def split: prod.splits sum.splits)

lemma pool_stuck_finished:
  assumes stuck: "\<And>i. pool_step C shard i s = None" and i: "i < length (py_callers s)"
  shows "point_work (pk_at (py_callers s ! i)) = 0"
proof -
  have no_guard: "\<not> holds_guard (pk_at c)" if "c \<in> set (py_callers s)" for c
  proof
    assume "holds_guard (pk_at c)"
    then obtain p where "pk_at c = At_Await p" by (cases "pk_at c") simp_all
    with that obtain j where "j < length (py_callers s)" "pk_at (py_callers s ! j) = At_Await p"
      by (auto simp: in_set_conv_nth)
    from pool_await_moves [OF this] stuck show False by metis
  qed
  then have free: "\<not> insert_waits shard c (py_callers s)" for c by (auto simp: insert_waits_def list_ex_iff)
  show ?thesis
    using stuck [of i] i no_guard [of "py_callers s ! i"] free [of "py_callers s ! i"]
    by (cases "pk_at (py_callers s ! i)") (auto simp: pool_step_def Let_def split: option.splits)
qed

lemma pool_run_reached:
  "pool_reached C shard n s \<Longrightarrow> pool_run C shard turns s = Some s' \<Longrightarrow> pool_reached C shard n s'"
  by (induction turns arbitrary: s) (auto split: option.splits intro: pool_turn [THEN [2] pool_later])

lemma pool_run_append:
  "pool_run C shard (t @ u) s =
     (case pool_run C shard t s of None \<Rightarrow> None | Some s' \<Rightarrow> pool_run C shard u s')"
  by (induction t arbitrary: s) (auto split: option.splits)

lemma pool_runs_end:
  "\<exists>turns s'. pool_run C shard turns s = Some s' \<and> (\<forall>i. pool_step C shard i s' = None)"
proof (induction "pool_work s" arbitrary: s rule: less_induct)
  case less
  show ?case
  proof (cases "\<forall>i. pool_step C shard i s = None")
    case True
    then show ?thesis by (intro exI [of _ "[]"]) simp
  next
    case False
    then obtain i s1 where s1: "pool_step C shard i s = Some s1" by auto
    from less [OF conjunct1 [OF pool_step_work [OF s1]]]
    obtain turns s' where "pool_run C shard turns s1 = Some s'" "\<forall>i. pool_step C shard i s' = None" by blast
    with s1 show ?thesis by (intro exI [of _ "i # turns"] exI [of _ s']) simp
  qed
qed

subsection \<open>An undisturbed caller\<close>

text \<open>The two functions of \<open>poll.rs\<close> as one call of a service.\<close>

definition pool_call ::
  "('w, 'k, 'o) client_env \<Rightarrow> placement_center_service \<Rightarrow> string \<Rightarrow> ('w \<times> client_pool, 'k + 'o) call" where
  "pool_call C service addr st =
     (case service of
        Kv \<Rightarrow> (case placement_center_kv_services_client C addr st of
                 (st', Inl e) \<Rightarrow> (st', Inl e) | (st', Inr k) \<Rightarrow> (st', Inr (Inl k)))
      | OpenRaft \<Rightarrow> (case placement_center_openraft_services_client C addr st of
                 (st', Inl e) \<Rightarrow> (st', Inl e) | (st', Inr n) \<Rightarrow> (st', Inr (Inr n))))"

lemma pool_call_eq:
  "pool_call C service addr (w, cp) =
     (let module = service_module service; key = pool_key module addr;
          cp1 = set_service_pools service
            (ensure_pool (cp_max_open_connection cp) key addr (service_pools service cp)) cp
      in case map_of (service_pools service cp1) key of
           Some poll \<Rightarrow>
             (case pool_get C service w poll of (w', q) \<Rightarrow>
               ((w', cp1), map_err (\<lambda>e. NoAvailableGrpcConnection module (err_display e)) q))
         | None \<Rightarrow> ((w, cp1), Inl (NoAvailableGrpcConnection module ''connection pool is not initialized'')))"
  by (cases service)
    (simp_all add: pool_call_def placement_center_kv_services_client_def
      placement_center_openraft_services_client_def pool_get_def Let_def
      split: option.split prod.split sum.split)

lemma set_service_pools_same [simp]: "set_service_pools service (service_pools service cp) cp = cp"
  by (cases service) simp_all

lemma insert_waits_at [simp]: "insert_waits shard (c\<lparr>pk_at := p\<rparr>) = insert_waits shard c"
  by (rule ext) (simp add: insert_waits_def)

lemma insert_waits_moved:
  "\<not> insert_waits shard c callers \<Longrightarrow> \<not> holds_guard p \<Longrightarrow>
     \<not> insert_waits shard c (callers[i := d\<lparr>pk_at := p\<rparr>])"
  by (auto simp: insert_waits_def list_ex_iff dest!: set_update_subset_insert [THEN subsetD])

text \<open>From the lookup on, a caller whose pool is in the map needs two steps.\<close>

lemma pool_run_lookup:
  assumes "i < length (py_callers s)" "c = py_callers s ! i" "pk_at c = At_Lookup"
    and "map_of (service_pools (pk_service c) (py_pools s)) (caller_key c) = Some poll"
    and "pool_get C (pk_service c) (py_world s) poll = (w', q)"
  shows "\<exists>s'. pool_run C shard [i, i] s = Some s' \<and> py_world s' = w' \<and> py_pools s' = py_pools s \<and>
    py_callers s' = (py_callers s)[i := c\<lparr>pk_at := At_End (map_err
      (\<lambda>e. NoAvailableGrpcConnection (service_module (pk_service c)) (err_display e)) q)\<rparr>]"
  using assms by (cases q) (simp_all add: pool_step_def Let_def caller_key_def)

lemma undisturbed_caller:
  assumes i: "i < length (py_callers s)" and c: "c = py_callers s ! i" "pk_at c = At_Contains"
    and free: "\<not> insert_waits shard c (py_callers s)"
    and call: "pool_call C (pk_service c) (pk_addr c) (py_world s, py_pools s) = ((w', cp'), r)"
  shows "\<exists>turns s'. set turns = {i} \<and> pool_run C shard turns s = Some s' \<and> py_world s' = w' \<and>
    py_pools s' = cp' \<and> py_callers s' = (py_callers s)[i := c\<lparr>pk_at := At_End r\<rparr>]"
proof (cases "map_of (service_pools (pk_service c) (py_pools s)) (caller_key c)")
  case None
  let ?pool = "\<lparr>pl_addr = pk_addr c, pl_max_open = cp_max_open_connection (py_pools s)\<rparr>"
  let ?cp = "set_service_pools (pk_service c)
      (AList.update (caller_key c) ?pool (service_pools (pk_service c) (py_pools s))) (py_pools s)"
  let ?s1 = "move_to i At_Lookup (move_to i At_Insert s
      \<lparr>py_pools := ?cp, py_built := (pk_service c, caller_key c) # py_built s\<rparr>)"
  obtain q where q: "pool_get C (pk_service c) (py_world s) ?pool = (w', q)" "cp' = ?cp"
      "r = map_err (\<lambda>e. NoAvailableGrpcConnection (service_module (pk_service c)) (err_display e)) q"
    using call None by (auto simp: pool_call_eq Let_def ensure_pool_def caller_key_def split: prod.splits)
  have two: "pool_run C shard [i, i] s = Some ?s1"
    using i c None insert_waits_moved [OF free]
    by (simp add: pool_step_def Let_def caller_key_def)
  have "\<exists>s'. pool_run C shard [i, i] ?s1 = Some s' \<and> py_world s' = w' \<and> py_pools s' = ?cp \<and>
      py_callers s' = (py_callers s)[i := c\<lparr>pk_at := At_End r\<rparr>]"
    using pool_run_lookup [of i ?s1 "c\<lparr>pk_at := At_Lookup\<rparr>" ?pool C w' q shard] i c q by simp
  then obtain s' where s': "pool_run C shard [i, i] ?s1 = Some s'" "py_world s' = w'" "py_pools s' = ?cp"
      "py_callers s' = (py_callers s)[i := c\<lparr>pk_at := At_End r\<rparr>]" by blast
  have "pool_run C shard ([i, i] @ [i, i]) s = Some s'"
    by (simp only: pool_run_append two s' option.case)
  with s' q show ?thesis by (intro exI [of _ "[i, i] @ [i, i]"] exI [of _ s']) simp
next
  case (Some poll)
  let ?s1 = "move_to i At_Lookup s"
  obtain q where q: "pool_get C (pk_service c) (py_world s) poll = (w', q)" "cp' = py_pools s"
      "r = map_err (\<lambda>e. NoAvailableGrpcConnection (service_module (pk_service c)) (err_display e)) q"
    using call Some by (auto simp: pool_call_eq Let_def ensure_pool_def caller_key_def split: prod.splits)
  have one: "pool_run C shard [i] s = Some ?s1"
    using i c Some by (simp add: pool_step_def Let_def caller_key_def)
  have "\<exists>s'. pool_run C shard [i, i] ?s1 = Some s' \<and> py_world s' = w' \<and> py_pools s' = py_pools s \<and>
      py_callers s' = (py_callers s)[i := c\<lparr>pk_at := At_End r\<rparr>]"
    using pool_run_lookup [of i ?s1 "c\<lparr>pk_at := At_Lookup\<rparr>" poll C w' q shard] i c Some q by simp
  then obtain s' where s': "pool_run C shard [i, i] ?s1 = Some s'" "py_world s' = w'" "py_pools s' = py_pools s"
      "py_callers s' = (py_callers s)[i := c\<lparr>pk_at := At_End r\<rparr>]" by blast
  have "pool_run C shard ([i] @ [i, i]) s = Some s'"
    by (simp only: pool_run_append one s' option.case)
  with s' q show ?thesis by (intro exI [of _ "[i] @ [i, i]"] exI [of _ s']) simp
qed

subsection \<open>How many pools an address gets\<close>

fun past_insert :: "'c pool_point \<Rightarrow> bool" where
  "past_insert At_Contains \<longleftrightarrow> False"
| "past_insert At_Insert \<longleftrightarrow> False"
| "past_insert _ \<longleftrightarrow> True"

definition caller_of :: "placement_center_service \<times> string \<Rightarrow> ('k, 'o) pool_caller \<Rightarrow> bool" where
  "caller_of b c \<longleftrightarrow> (pk_service c, caller_key c) = b"

definition built_for :: "placement_center_service \<times> string \<Rightarrow> ('k, 'o) pool_caller list \<Rightarrow> nat" where
  "built_for b cs = sum_list (map (\<lambda>c. of_bool (caller_of b c \<and> past_insert (pk_at c))) cs)"

lemma caller_of_at [simp]: "caller_of b (c\<lparr>pk_at := p\<rparr>) = caller_of b c"
  by (simp add: caller_of_def)

lemma built_for_le: "built_for b cs \<le> length (filter (caller_of b) cs)"
  by (induction cs) (auto simp: built_for_def of_bool_def)

lemma built_for_move:
  assumes "i < length cs"
  shows "built_for b (cs[i := (cs ! i)\<lparr>pk_at := p\<rparr>]) + of_bool (caller_of b (cs ! i) \<and> past_insert (pk_at (cs ! i))) =
    built_for b cs + of_bool (caller_of b (cs ! i) \<and> past_insert p)"
proof -
  have "of_bool (caller_of b (cs ! i) \<and> past_insert (pk_at (cs ! i))) \<le> built_for b cs"
    unfolding built_for_def using assms by (auto intro!: member_le_sum_list)
  with assms show ?thesis by (simp add: built_for_def map_update sum_list_update)
qed

lemma built_for_mono:
  assumes "i < length cs" "past_insert (pk_at (cs ! i)) \<Longrightarrow> past_insert p" "m \<le> built_for b cs"
  shows "m \<le> built_for b (cs[i := (cs ! i)\<lparr>pk_at := p\<rparr>])"
  using built_for_move [OF assms(1), of b p] assms(2,3)
  by (cases "caller_of b (cs ! i) \<and> past_insert (pk_at (cs ! i))") auto

lemma built_for_insert:
  assumes "i < length cs" "pk_at (cs ! i) = At_Insert"
  shows "built_for b (cs[i := (cs ! i)\<lparr>pk_at := At_Lookup\<rparr>]) = built_for b cs + of_bool (caller_of b (cs ! i))"
  using built_for_move [OF assms(1), of b At_Lookup] assms(2) by simp

lemma built_step:
  assumes step: "pool_step C shard i s = Some s'"
    and le: "count_list (py_built s) b \<le> built_for b (py_callers s)"
  shows "count_list (py_built s') b \<le> built_for b (py_callers s')"
proof -
  have i: "i < length (py_callers s)" using step by (simp add: pool_step_def split: if_splits)
  show ?thesis
  proof (cases "pk_at (py_callers s ! i) = At_Insert")
    case True
    then show ?thesis
      using step i le by (auto simp: pool_step_def Let_def built_for_insert caller_of_def split: if_splits)
  next
    case False
    then show ?thesis
      using step i le
      by (cases "pk_at (py_callers s ! i)")
        (auto simp: pool_step_def Let_def split: option.splits prod.splits sum.splits intro!: built_for_mono)
  qed
qed

lemma built_event:
  assumes "pool_event C shard s s'" "count_list (py_built s) b \<le> built_for b (py_callers s)"
  shows "count_list (py_built s') b \<le> built_for b (py_callers s')"
  using assms
proof cases
  case (pool_call service addr)
  with assms(2) show ?thesis by (simp add: built_for_def)
next
  case (pool_turn i)
  with assms(2) show ?thesis by (blast intro: built_step)
next
  case (pool_drop i p)
  with assms(2) show ?thesis by (auto intro!: built_for_mono)
qed

lemma built_reached: "pool_reached C shard n s \<Longrightarrow> count_list (py_built s) b \<le> built_for b (py_callers s)"
  by (induction rule: pool_reached.induct) (auto intro: built_event)

text \<open>A pool is settled when no caller of its address is left between the check and the insert.\<close>

definition settled :: "placement_center_service \<times> string \<Rightarrow> ('w, 'k, 'o) pool_system \<Rightarrow> bool" where
  "settled b s \<longleftrightarrow> map_of (service_pools (fst b) (py_pools s)) (snd b) \<noteq> None \<and>
     (\<forall>c \<in> set (py_callers s). caller_of b c \<longrightarrow> pk_at c \<noteq> At_Insert)"

definition same_pool ::
  "placement_center_service \<times> string \<Rightarrow> ('w, 'k, 'o) pool_system \<Rightarrow> ('w, 'k, 'o) pool_system \<Rightarrow> bool" where
  "same_pool b s s' \<longleftrightarrow>
     map_of (service_pools (fst b) (py_pools s')) (snd b) = map_of (service_pools (fst b) (py_pools s)) (snd b) \<and>
     count_list (py_built s') b = count_list (py_built s) b"

lemma settled_move:
  assumes "settled b s" "i < length (py_callers s)" "caller_of b (py_callers s ! i) \<Longrightarrow> p \<noteq> At_Insert"
    "py_callers s' = py_callers s" "same_pool b s s'"
  shows "settled b (move_to i p s')"
  using assms by (auto simp: settled_def same_pool_def dest!: set_update_subset_insert [THEN subsetD])

lemma same_pool_simps [simp]:
  "same_pool b s s" "same_pool b s (move_to i p s') = same_pool b s s'"
  "same_pool b s (s'\<lparr>py_world := w\<rparr>) = same_pool b s s'"
  by (simp_all add: same_pool_def)

lemma settled_step:
  assumes "pool_step C shard i s = Some s'" and st: "settled b s"
  shows "settled b s' \<and> same_pool b s s'"
proof -
  let ?c = "py_callers s ! i"
  have i: "i < length (py_callers s)" using assms by (simp add: pool_step_def split: if_splits)
  then have c: "caller_of b ?c \<Longrightarrow> pk_at ?c \<noteq> At_Insert" using st by (simp add: settled_def)
  show ?thesis
  proof (cases "pk_at ?c")
    case At_Contains
    have "caller_of b ?c \<Longrightarrow> map_of (service_pools (pk_service ?c) (py_pools s)) (caller_key ?c) \<noteq> None"
      using st by (auto simp: settled_def caller_of_def)
    with At_Contains show ?thesis
      using assms i by (auto simp: pool_step_def Let_def intro!: settled_move)
  next
    case At_Insert
    with c have "(pk_service ?c, caller_key ?c) \<noteq> b" by (auto simp: caller_of_def)
    then show ?thesis
      using At_Insert assms i
      by (cases b) (auto simp: pool_step_def Let_def same_pool_def split: if_splits intro!: settled_move)
  qed (use assms i in \<open>auto simp: pool_step_def Let_def
      split: option.splits prod.splits sum.splits intro!: settled_move\<close>)
qed

lemma settled_event:
  assumes "pool_event C shard s s'" "settled b s"
  shows "settled b s' \<and> same_pool b s s'"
  using assms
proof cases
  case (pool_call service addr)
  with assms(2) show ?thesis by (auto simp: settled_def same_pool_def)
next
  case (pool_turn i)
  from settled_step [OF pool_turn assms(2)] show ?thesis .
next
  case (pool_drop i p)
  with assms(2) show ?thesis by (auto intro!: settled_move)
qed

lemma settled_later:
  "(pool_event C shard)\<^sup>*\<^sup>* s s' \<Longrightarrow> settled b s \<Longrightarrow> settled b s' \<and> same_pool b s s'"
proof (induction rule: rtranclp_induct)
  case (step t u)
  with settled_event [OF step.hyps(2), of b] show ?case by (simp add: same_pool_def)
qed simp

subsection \<open>Two callers of one address\<close>

text \<open>Both find no pool; the second inserts its own after the first has got its connection.\<close>

definition two_callers :: "((string \<times> string) list, string, string) pool_system" where
  "two_callers = \<lparr>py_world = [], py_pools = client_pool_new 3,
     py_callers = replicate 2 \<lparr>pk_service = Kv, pk_addr = ''b:1'', pk_at = At_Contains\<rparr>, py_built = []\<rparr>"

definition racing_turns :: "nat list" where
  "racing_turns = [0, 1, 0, 0, 0, 1]"

lemma two_callers_reached: "pool_reached ref_client shard 3 two_callers"
proof -
  let ?c = "\<lparr>pk_service = Kv, pk_addr = ''b:1'', pk_at = At_Contains\<rparr> :: (string, string) pool_caller"
  let ?s = "\<lambda>cs. \<lparr>py_world = [], py_pools = client_pool_new 3, py_callers = cs, py_built = []\<rparr>
    :: ((string \<times> string) list, string, string) pool_system"
  have more: "pool_reached ref_client shard 3 (?s cs) \<Longrightarrow> pool_reached ref_client shard 3 (?s (cs @ [?c]))" for cs
    using pool_later [OF _ pool_call [of ref_client shard "?s cs" Kv "''b:1''"]] by simp
  have "pool_reached ref_client shard 3 (?s (([] @ [?c]) @ [?c]))"
    by (intro more pool_start)
  then show ?thesis by (simp add: two_callers_def numeral_2_eq_2)
qed

definition raced :: "((string \<times> string) list, string, string) pool_system" where
  "raced = the (pool_run ref_client (\<lambda>key. 0) racing_turns two_callers)"

lemma raced_state:
  "pool_run ref_client (\<lambda>key. 0) racing_turns two_callers = Some raced"
  "py_built raced = replicate 2 (Kv, pool_key ''KvServices'' ''b:1'')"
  "map pk_at (py_callers raced) = [At_End (Inr (Inl ''b:1'')), At_Lookup]"
  by (simp_all add: raced_def racing_turns_def two_callers_def pool_step_def Let_def client_pool_new_def
      insert_waits_def move_to_def caller_key_def pool_get_def ref_client_def numeral_2_eq_2)

lemma raced_reached: "pool_reached ref_client (\<lambda>key. 0) 3 raced"
  by (rule pool_run_reached [OF two_callers_reached raced_state(1)])

subsection \<open>Properties\<close>

text \<open>
  C29: Concurrent requests for connections are never mixed up: however the callers of the pools
  interleave, and whichever of them are dropped, every pool stays filed under its own address with
  the configured bound, a caller that waits does so on the pool of its own address, which is the
  one in the map, and a caller is answered with what the pool of its address gave, never with
  the "not initialized" error of the code.
\<close>

theorem pool_callers_served:
  assumes "pool_reached C shard n s" "c \<in> set (py_callers s)"
  shows "pools_ok (py_pools s) \<and> cp_max_open_connection (py_pools s) = n \<and>
    (\<forall>p. pk_at c = At_Await p \<longrightarrow> p = \<lparr>pl_addr = pk_addr c, pl_max_open = n\<rparr> \<and>
       map_of (service_pools (pk_service c) (py_pools s)) (caller_key c) = Some p) \<and>
    (\<forall>r. pk_at c = At_End r \<longrightarrow> (\<exists>w. r = caller_result C n c w))"
proof -
  have inv: "pools_filed n (py_pools s)" and c: "caller_ok C n (py_pools s) c"
    using pool_inv_reached [OF assms(1)] assms(2) by (simp_all add: pool_inv_def)
  have "pools_ok (py_pools s)" "cp_max_open_connection (py_pools s) = n"
    using inv by (auto simp: pools_filed_def pools_ok_def dest: spec [of _ Kv] spec [of _ OpenRaft])
  with c show ?thesis by (auto simp: caller_ok_def)
qed

lemma pool_callers_served_witness:
  "pools_ok (py_pools raced) \<and> cp_max_open_connection (py_pools raced) = 3"
  using pool_callers_served [OF raced_reached, of "py_callers raced ! 0"] raced_state(3)
  by (cases "py_callers raced") simp_all





end
