(* ===== verification/Spec2Isabelle.thy ===== *)
theory Spec2Isabelle
  imports Raft_Machine_Inv Store_Types Replicas Process_Steps Peers Pool_Steps
begin

text \<open>
  The placement center of robustmq-geek: a cluster-metadata store that replicates a key-value map.

  \<^bold>\<open>The program.\<close>  A node (\<open>src/placement-center\<close>) serves gRPC and HTTP over one of two
  consensus paths that live side by side.  The \<^emph>\<open>raft-rs path\<close>: a write arrives at
  \<open>server/grpc/services_kv.rs\<close>; a follower forwards it to the leader through \<open>src/clients\<close>, the
  leader wraps it (\<open>raft/apply.rs\<close>) and queues it for the loop of \<open>raft/machine.rs\<close>, which drives
  a \<open>RawNode\<close> over \<open>raft/storage.rs\<close>, i.e. \<open>storage/raft.rs\<close>, and hands committed entries to
  \<open>raft/route.rs\<close>, which writes them through \<open>storage/kv.rs\<close>, \<open>storage/engine.rs\<close> and
  \<open>storage/rocksdb.rs\<close>.  The \<^emph>\<open>openraft path\<close>: HTTP handlers (\<open>server/http\<close>) call an openraft node
  built by \<open>openraft/raft_node.rs\<close> over \<open>openraft/store/log_store.rs\<close> and
  \<open>openraft/store/state_machine_store.rs\<close>; its calls to other nodes leave through
  \<open>openraft/network\<close> and \<open>src/clients\<close> and arrive at \<open>server/grpc/services_openraft.rs\<close>.
  \<open>lib.rs\<close> builds both and starts the servers; there the loop of the raft-rs path is commented out.

  \<^bold>\<open>Theories.\<close>  A path below is under \<open>src/src/placement-center/src\<close> unless it starts otherwise.
  \<^item> \<^verbatim>\<open>Prelude\<close>, \<^verbatim>\<open>Rust_Text\<close>, \<^verbatim>\<open>Big_Endian\<close>: Rust values, panics, UTF-8, decimal and
    big-endian integers.  \<^verbatim>\<open>Errors\<close>, \<^verbatim>\<open>Config\<close>: \<open>src/common/base\<close> (error enum and messages, HTTP
    envelope; configuration, file helpers, log setup).
  \<^item> \<^verbatim>\<open>External\<close>: the crates as records of operations with their documented laws, as locales;
    \<^verbatim>\<open>Reference_Env\<close>, \<^verbatim>\<open>Storage_Env\<close>, \<^verbatim>\<open>Ref_Storage_Env\<close>: the messages of raft-rs, the bundle of
    codecs the storage layer uses, and an in-memory database with concrete codecs on which every law
    holds (the witnesses run the model there).
  \<^item> \<^verbatim>\<open>Storage_Keys\<close>: \<open>storage/keys.rs\<close>.  \<^verbatim>\<open>Rocksdb_Engine\<close>: the operations and scans of
    \<open>storage/rocksdb.rs\<close> (opening is in \<^verbatim>\<open>Server\<close>).  \<^verbatim>\<open>Kv_Storage\<close>: \<open>storage/mod.rs\<close>,
    \<open>storage/engine.rs\<close>, \<open>storage/kv.rs\<close>.
  \<^item> \<^verbatim>\<open>Raft_Storage\<close>: \<open>storage/raft.rs\<close>; \<^verbatim>\<open>Raft_Log\<close>, \<^verbatim>\<open>Raft_Snapshot\<close>, \<^verbatim>\<open>Raft_Reach\<close>: what it
    promises (log, snapshots, invariant of all reachable stores); \<^verbatim>\<open>Store_Types\<close>: the type of every
    cell.  \<^verbatim>\<open>Raft_Trait\<close>: \<open>raft/storage.rs\<close>.
  \<^item> \<^verbatim>\<open>Raft_Metadata\<close>: \<open>raft/metadata.rs\<close>, \<open>raft/node.rs\<close>, \<open>src/protocol/src/common.rs\<close>.
    \<^verbatim>\<open>Raft_Apply\<close>: \<open>raft/apply.rs\<close>, \<open>raft/route.rs\<close>.  \<^verbatim>\<open>Raft_Machine\<close>, \<^verbatim>\<open>Raft_Machine_Props\<close>,
    \<^verbatim>\<open>Raft_Machine_Inv\<close>: \<open>raft/machine.rs\<close>, \<open>raft/peer.rs\<close>; the last follows the store through the
    turns and restarts of the loop.
  \<^item> \<^verbatim>\<open>Openraft_Types\<close>, \<^verbatim>\<open>Log_Store\<close>, \<^verbatim>\<open>Log_Store_Props\<close>: \<open>openraft/route/mod.rs\<close>,
    \<open>openraft/store/mod.rs\<close>, \<open>openraft/store/log_store.rs\<close>; \<^verbatim>\<open>Log_Refinement\<close>: it is a list with a purged prefix.
    \<^verbatim>\<open>State_Machine_Store\<close>, \<^verbatim>\<open>State_Machine_Props\<close>: \<open>openraft/store/state_machine_store.rs\<close>.
    \<^verbatim>\<open>Replicas\<close>: several nodes, each with both stores, on one committed log.  \<^verbatim>\<open>Openraft_Node\<close>:
    \<open>openraft/raft_node.rs\<close>, \<open>server/http\<close>.
  \<^item> \<^verbatim>\<open>Clients\<close>, \<^verbatim>\<open>Clients_Props\<close>: \<open>src/clients\<close> and the messages of \<open>src/protocol\<close>;
    \<^verbatim>\<open>Pool_Steps\<close>: concurrent callers of its pools, one operation of a \<open>DashMap\<close> at a time.
    \<^verbatim>\<open>Grpc_Services\<close>, \<^verbatim>\<open>Grpc_Props\<close>: \<open>server/grpc\<close>, \<open>openraft/network\<close>, \<open>openraft/error.rs\<close>.
    \<^verbatim>\<open>Grpc_Wire\<close>, \<^verbatim>\<open>Grpc_Setup\<close>: the clients and servers in \<open>src/protocol/src\<close> (\<open>kv.rs\<close>,
    \<open>openraft.rs\<close>, \<open>placement.rs\<close>), their methods and their construction.  \<^verbatim>\<open>Grpc_Node\<close>: \<open>server/grpc/server.rs\<close>, and calls to a node.
    \<^verbatim>\<open>End_To_End\<close>: client functions against another node.  \<^verbatim>\<open>Peers\<close>: Raft messages from one node's
    machine to another's.  \<^verbatim>\<open>Server\<close>: \<open>lib.rs\<close> and
    \<open>RocksDBEngine::new\<close>.  \<^verbatim>\<open>Process\<close>: \<open>main\<close>, the server tasks, \<open>http_error.rs\<close>;
    \<^verbatim>\<open>Process_Steps\<close>: these tasks interleaved, and their shutdown.  This theory: the properties that span client, network and node.

  \<^bold>\<open>Interfaces.\<close>  \<^verbatim>\<open>kv_store\<close> (\<^verbatim>\<open>Kv_Contract\<close>) is the contract of a key-value machine, against an
  abstract map with set and delete commands; \<open>KvStorage\<close> over RocksDB and \<open>StateMachineStore\<close> over
  its shared map are both proved to be one.  \<^verbatim>\<open>replicated_log\<close> (\<^verbatim>\<open>Log_Contract\<close>) is the contract of
  a log under \<open>append\<close> (an override of indexes), met by \<open>RaftMachineStorage\<close> and by \<open>LogStore\<close>.
  \<^verbatim>\<open>rocksdb_crate\<close>, \<^verbatim>\<open>rocksdb_running\<close>, \<^verbatim>\<open>serde_type\<close>, \<^verbatim>\<open>storage_env\<close>, \<^verbatim>\<open>openraft_env\<close>,
  \<^verbatim>\<open>raft_machine\<close> (which extends \<^verbatim>\<open>storage_env\<close> by the wire formats of proposals), \<^verbatim>\<open>grpc_client\<close>,
  \<^verbatim>\<open>grpc_transport\<close> and \<^verbatim>\<open>peer_network\<close> are the interfaces of what is not in the repository; the last
  two are interpreted for a node's own gRPC server.

  \<^bold>\<open>What the lemmas show.\<close>
  \<^item> Storage: writes and deletes change one cell or, failing, none; scans return exactly the cells
    of their prefix, and \<open>read_prefix\<close> returns at all only under a stated condition; keys are
    injective and families disjoint; a run of commands reads back as on an abstract map.
  \<^item> Raft log: \<open>append\<close> overrides the log, \<open>commmit_index\<close> advances the commit index; on every store
    reachable by what raft-rs may call, no method panics, the log is contiguous and the indexes are
    ordered, every cell has the type of its key; restart and snapshot transfer restore the state.
  \<^item> Machine: over any stretch of turns every channel that arrived is pending, answered or dropped,
    exactly once; turns and restarts in any order keep the store intact, and only entries the code
    cannot apply make a turn panic; committed proposals, configuration changes, node start.
  \<^item> openraft: the log store's reads, cuts, votes and committed positions, and its refinement of a
    list by a simulation, one lemma per operation; the state machine refines the abstract map;
    snapshots restore; by induction over the runs of a cluster, replicas follow the log, and those
    that have applied all of it agree; who bootstraps the cluster.
  \<^item> Network: the retry loop equals a schedule that ends after four attempts; pools never mix
    addresses up, whatever the interleaving of their callers, all of whom are answered, though two
    first callers of an address may build it two pools; what each handler proposes, forwards or refuses; every generated client method
    reaches the handler of its name and an unknown path none; Raft messages reach the machines of
    the nodes that can be reached, up to the first that cannot; from end to end, a client's write
    becomes a proposal (four, if the leader's answer is late), a read returns the last value
    applied, and an openraft call is the method's call on the other node.
  \<^item> Process: the tasks of a node run interleaved; a signal always stops it, without a panic of
    \<open>main\<close>; a task that panics goes unnoticed.

  \<^bold>\<open>Conventions.\<close>  A method that may panic returns a \<open>run\<close>, a fallible one a sum; state is passed and
  returned.  \<open>u64\<close> is a 64-bit word and arithmetic wraps as in a release build.  A \<open>RwLock\<close> or a
  \<open>DashMap\<close> makes each method one step (in \<^verbatim>\<open>Pool_Steps\<close>, each operation on the map).  Loops over data are structural recursion.  Two are not:
  \<open>read_prefix\<close> may run for ever and is a partial function whose \<open>None\<close> is "does not return"; the
  retry loop has a measure, its counter running to \<open>retry_times\<close>, i.e. 3.  The loop of the Raft
  machine runs until it is stopped and is modelled over the finite list of the events it receives.

  \<^bold>\<open>Assumptions on what is not in the repository.\<close>  RocksDB stores and iterates as documented (the
  caveat on iteration is in \<^verbatim>\<open>External\<close>); codecs decode what they encoded; tonic routes by service
  name and refuses messages above four megabytes (\<^verbatim>\<open>Grpc_Node\<close>); \<open>RawNode\<close>, mobc's pools, and
  openraft's vote, leader id and membership types are arbitrary parameters.  The invariants over runs
  assume that the two Raft libraries call the stores as they document it: entries appended follow
  the log without a gap, above what is committed, committed entries come in order and once, the
  commit position stays inside the log (\<^verbatim>\<open>Raft_Reach\<close>, \<^verbatim>\<open>Raft_Machine_Inv\<close>); openraft truncates and
  purges no position below the purged ones, and installs no snapshot that is behind the machine
  (\<^verbatim>\<open>Log_Refinement\<close>, \<^verbatim>\<open>Replicas\<close>).  \<^verbatim>\<open>Raft_Machine_Inv\<close> assumes also that a \<open>Ready\<close> brings no
  snapshot from another node, that \<open>advance_apply\<close> writes nothing, and that raft-rs asks the store
  for a snapshot only when all that is committed has been handed over.

  \<^bold>\<open>Not modelled.\<close>  The insides of listeners and queues (their results are arguments), the
  fairness of the scheduler (tasks and requests interleave in any order), log lines,
  lock poisoning, I/O errors of a RocksDB cursor, constructors that only store their arguments,
  derived traits, type aliases, \<open>clap\<close>'s parsing, tests and build scripts.
\<close>

section \<open>Properties that span the components\<close>

text \<open>
  C8: A client's write to the leader, from end to end: the set request travels through the client's
  pool, retry loop and generated stub, the router, the generated server and the handler, and the
  leader's queue gains a proposal that decodes to exactly this request.  If the answer comes in
  time there is one proposal and the client is told \<open>Ok\<close>.  If it does not, the handler's error
  makes the retry loop send the request again: the same write is proposed four times, and the
  client is told it failed.
\<close>

theorem client_write_reaches_leader:
  assumes "tonic_laws T" and "client_laws C" and "placement_laws PC"
    and "bincode_laws (bc_storage_data W)" and "prost_laws (pb_set_request W)"
    and "linked T g (grpc_server_start T C PC (grpc_kv_services sd C2 W E sx rx) rsh osh)"
    and "\<And>s. ce_kv_get C s \<lparr>pl_addr = a, pl_max_open = cp_max_open_connection cp\<rparr> = (s, Inr g)"
    and "pools_ok cp" and "is_leader (ns_cluster s)" and "set_key req \<noteq> []" and "set_value req \<noteq> []"
    and "fits (pc_set C) req" and "fits (pc_common_reply C) CommonReply"
  shows "\<exists>cp' b v. pools_ok cp' \<and> set_proposal W req sx = Propose b sx \<and>
    bc_deserialize (bc_storage_data W) b = Inr \<lparr>sd_data_type = KvSet, sd_value = v\<rparr> \<and>
    pb_decode (pb_set_request W) v = Inr req \<and>
    placement_set (stub_env T C) [a] req (s, cp) =
      (if wait_recv_chan_resp rx
       then ((s\<lparr>ns_queue := ns_queue s @ [set_proposal W req sx]\<rparr>, cp'), Ret (Inr CommonReply))
       else ((s\<lparr>ns_queue := ns_queue s @ replicate 4 (set_proposal W req sx)\<rparr>, cp'),
         Ret (Inl (GrpcServerStatus (status_cancelled (error_string sd (RaftLogCommitTimeout ''set'')))))))"
  using leader_write [OF assms(1-4,6-13)] set_proposal_decodes [OF assms(4,5)] by metis

lemma client_write_reaches_leader_witness:
  "\<exists>cp' p. placement_set (stub_env ref_tonic (ref_cluster (ref_channel TimedOut))) [''b:1'']
       \<lparr>set_key = ''k'', set_value = ''v''\<rparr> (ref_state [], client_pool_new 3) =
     (((ref_state [])\<lparr>ns_queue := [p, p, p, p]\<rparr>, cp'),
       Ret (Inl (GrpcServerStatus (status_cancelled
         (error_string status_message (RaftLogCommitTimeout ''set''))))))"
proof -
  have l: "is_leader (ns_cluster (ref_state []))" by (simp add: is_leader_def ref_state_def ref_leader_meta_def)
  have timeout: "\<not> wait_recv_chan_resp TimedOut" by (simp add: wait_recv_chan_resp_def recv_value_def)
  have four: "[] @ replicate 4 p = [p, p, p, p]" for p :: "(unit, unit, nat) raft_message"
    by (simp add: numeral_eq_Suc)
  have fits: "fits (pc_set (ref_cluster g)) \<lparr>set_key = ''k'', set_value = ''v''\<rparr>"
    "fits (pc_common_reply (ref_cluster g)) CommonReply" for g :: "ref_state serve"
    by (simp_all add: ref_set_fits ref_common_reply_fits)
  have ne: "set_key \<lparr>set_key = ''k'', set_value = ''v''\<rparr> \<noteq> []" "set_value \<lparr>set_key = ''k'', set_value = ''v''\<rparr> \<noteq> []"
    by simp_all
  have q: "ns_queue (ref_state []) = []" by (simp add: ref_state_def)
  from client_write_reaches_leader [OF ref_tonic_laws ref_cluster_laws ref_placement_laws
      ref_bincode_storage_data ref_request_laws(1) ref_channel_linked ref_cluster_connection(1) pools_ok_new l ne fits,
      of TimedOut 3]
  show ?thesis unfolding if_not_P [OF timeout] q four by blast
qed

text \<open>
  C34: A client's read from a node, from end to end: after any sequence of applied sets and deletes
  on keys outside the Raft namespace, \<open>placement_get\<close> over the network returns the value of the
  last of them on its key, and the empty string for a key that is absent or deleted.
\<close>

theorem client_read_serves_last_write:
  assumes "tonic_laws T" and "client_laws C" and "placement_laws PC"
    and "linked T g (grpc_server_start T C PC (grpc_kv_services sd C2 W E sx rx) rsh osh)"
    and "ce_kv_get C s \<lparr>pl_addr = a, pl_max_open = cp_max_open_connection cp\<rparr> = (s, Inr g)" and "pools_ok cp"
    and "env_up E" and "kv_readable E db" and "user_cmds cs" and "kv_user_key k" and "k \<noteq> []"
    and "ns_db s = kv_run E cs db"
    and "rep = \<lparr>getr_value = (case (case last_value (map snd cs) k of None \<Rightarrow> kv_abs E db k | Some r \<Rightarrow> r) of
       None \<Rightarrow> [] | Some v \<Rightarrow> v)\<rparr>"
    and "fits (pc_get C) \<lparr>getq_key = k\<rparr>" and "fits (pc_get_reply C) rep"
  shows "\<exists>cp'. pools_ok cp' \<and>
    placement_get (stub_env T C) [a] \<lparr>getq_key = k\<rparr> (s, cp) = ((s, cp'), Ret (Inr rep))"
  by (rule node_read [OF assms(1-6) _ assms(14,15)])
    (simp add: assms(12,13) grpc_get_serves_last_write [OF assms(7-11)])

lemma client_read_serves_last_write_witness:
  "\<exists>cp'. placement_get (stub_env ref_tonic (ref_cluster (ref_channel TimedOut))) [''b:1''] \<lparr>getq_key = ''k2''\<rparr>
       (ref_state (kv_run ref_env [(10, CmdSet ''k1'' ''a''), (11, CmdSet ''k2'' ''b''), (12, CmdDelete ''k1'')] []),
        client_pool_new 3) =
     ((ref_state (kv_run ref_env [(10, CmdSet ''k1'' ''a''), (11, CmdSet ''k2'' ''b''), (12, CmdDelete ''k1'')] []), cp'),
      Ret (Inr \<lparr>getr_value = ''b''\<rparr>))"
proof -
  let ?cs = "[(10, CmdSet ''k1'' ''a''), (11, CmdSet ''k2'' ''b''), (12, CmdDelete ''k1'')]"
  have db: "ns_db (ref_state (kv_run ref_env ?cs [])) = kv_run ref_env ?cs []" by (simp add: ref_state_def)
  have lv: "last_value (map snd ?cs) ''k2'' = Some (Some ''b'')" by simp
  have "kv_readable ref_env []" "user_cmds ?cs" "kv_user_key ''k2''" "''k2'' \<noteq> []" by simp_all
  note read = client_read_serves_last_write [OF ref_tonic_laws ref_cluster_laws ref_placement_laws ref_channel_linked
      ref_cluster_connection(1) pools_ok_new ref_env_up this db, where rep = "\<lparr>getr_value = ''b''\<rparr>"]
  have "\<exists>cp'. pools_ok cp' \<and>
      placement_get (stub_env ref_tonic (ref_cluster (ref_channel TimedOut))) [''b:1''] \<lparr>getq_key = ''k2''\<rparr>
        (ref_state (kv_run ref_env ?cs []), client_pool_new 3) =
      ((ref_state (kv_run ref_env ?cs []), cp'), Ret (Inr \<lparr>getr_value = ''b''\<rparr>))"
    by (rule read) (simp_all only: lv option.case ref_cluster_codecs ref_get_fits)
  then show ?thesis by blast
qed

text \<open>
  C13: A call between openraft nodes, from end to end: a vote, an append or a snapshot sent through
  \<open>NetworkConnection\<close>, the generated stub, the other node's router, its generated server and its
  handler has exactly the effect of the openraft method on that node, and its response, or its
  error as \<open>Unreachable\<close>, comes back; provided that message and response are within tonic's
  four megabytes.
\<close>

theorem openraft_calls_reach_node:
  assumes "tonic_laws T" and "client_laws C" and "placement_laws PC"
    and "linked T g (grpc_server_start T C PC kvh rsh
      (grpc_openraft_services (Qv, Rv, vote) (Qa, Ra, app) (Qs, Rs, inst)))"
    and "ce_openraft_get C s \<lparr>pl_addr = nc_addr nc, pl_max_open = cp_max_open_connection cp\<rparr> = (s, Inr g)"
    and "pools_ok cp"
    and "bincode_laws Qv" and "bincode_laws Rv" and "bincode_laws Qa" and "bincode_laws Ra"
    and "bincode_laws Qs" and "bincode_laws Rs"
  shows "(fits (pc_vote C) \<lparr>vq_value = bc_bytes Qv v\<rparr> \<and>
      (\<forall>x. snd (vote (ns_openraft s) v) = Inr x \<longrightarrow> fits (pc_vote_reply C) \<lparr>vr_value = bc_bytes Rv x\<rparr>) \<longrightarrow>
      (\<exists>cp'. pools_ok cp' \<and> connection_vote sd (stub_env T C) nc Qv Rv v (s, cp) = peer_outcome sd vote s v cp')) \<and>
    (fits (pc_append C) \<lparr>aq_value = bc_bytes Qa r\<rparr> \<and>
      (\<forall>x. snd (app (ns_openraft s) r) = Inr x \<longrightarrow> fits (pc_append_reply C) \<lparr>ar_value = bc_bytes Ra x\<rparr>) \<longrightarrow>
      (\<exists>cp'. pools_ok cp' \<and> connection_append_entries sd (stub_env T C) nc Qa Ra r (s, cp) = peer_outcome sd app s r cp')) \<and>
    (fits (pc_snapshot C) \<lparr>sq_value = bc_bytes Qs z\<rparr> \<and>
      (\<forall>x. snd (inst (ns_openraft s) z) = Inr x \<longrightarrow> fits (pc_snapshot_reply C) \<lparr>sr_value = bc_bytes Rs x\<rparr>) \<longrightarrow>
      (\<exists>cp'. pools_ok cp' \<and> connection_install_snapshot sd (stub_env T C) nc Qs Rs z (s, cp) = peer_outcome sd inst s z cp'))"
  by (intro conjI impI; elim conjE)
    (rule openraft_over_stub(1) [OF assms] openraft_over_stub(2) [OF assms] openraft_over_stub(3) [OF assms]; blast)+

lemma openraft_calls_reach_node_witness:
  "\<exists>cp'. connection_vote status_message (stub_env ref_tonic (ref_cluster (ref_channel TimedOut)))
       \<lparr>nc_addr = ''b:1'', nc_target = 2\<rparr> ref_echo ref_echo ''e'' (ref_state [], client_pool_new 3) =
     (((ref_state [])\<lparr>ns_openraft := [''e'']\<rparr>, cp'), Inr ''e'')"
proof -
  have conn: "ce_openraft_get (ref_cluster (ref_channel TimedOut)) (ref_state [])
      \<lparr>pl_addr = nc_addr \<lparr>nc_addr = ''b:1'', nc_target = 2\<rparr>, pl_max_open = cp_max_open_connection (client_pool_new 3)\<rparr> =
      (ref_state [], Inr (ref_channel TimedOut))"
    by (simp add: ref_cluster_connection)
  have n: "ns_openraft (ref_state []) = []" by (simp add: ref_state_def)
  have "fits (pc_vote (ref_cluster g)) \<lparr>vq_value = bc_bytes ref_echo ''e''\<rparr> \<and>
      (\<forall>x. snd (ref_vote (ns_openraft (ref_state [])) ''e'') = Inr x \<longrightarrow>
         fits (pc_vote_reply (ref_cluster g)) \<lparr>vr_value = bc_bytes ref_echo x\<rparr>)" for g :: "ref_state serve"
    by (simp add: ref_vote_def ref_vote_fits)
  from mp [OF conjunct1 [OF openraft_calls_reach_node [OF ref_tonic_laws ref_cluster_laws ref_placement_laws
        ref_channel_linked conn pools_ok_new ref_echo_laws ref_echo_laws ref_echo_laws ref_echo_laws ref_echo_laws
        ref_echo_laws, where v = "''e''" and sd = status_message]] this]
  show ?thesis by (auto simp: n ref_vote_def)
qed

end
